theory Spec2Isabelle
  imports Complex_Main "HOL-Library.AList"
begin

section \<open>Errors, tensors and symbolic tensors\<close>

text \<open>
  The exceptions the Python code and the tensor framework under it can raise, as values.
  \<open>KeyError\<close>, \<open>IndexError\<close> and \<open>AttributeError\<close> are Python's failures of a dictionary
  lookup, a list index and an attribute read; \<open>NoneInput\<close> is a layer called
  on \<open>None\<close>; \<open>ShapeError\<close> is a static shape mismatch found while the graph is built;
  \<open>IndexOutOfRange\<close> is an embedding lookup outside the table; \<open>FeedError\<close> is a batch
  that lacks a named input or has the wrong width; \<open>ValueError\<close> is a layer constructor
  refusing its arguments.
\<close>

datatype error =
    KeyError string | IndexError | AttributeError | NoneInput | ShapeError | IndexOutOfRange | FeedError
  | ValueError

definition ebind :: "error + 'a \<Rightarrow> ('a \<Rightarrow> error + 'b) \<Rightarrow> error + 'b" where
  "ebind m f = (case m of Inl e \<Rightarrow> Inl e | Inr x \<Rightarrow> f x)"

fun fold_e :: "('a \<Rightarrow> 'b \<Rightarrow> error + 'b) \<Rightarrow> 'a list \<Rightarrow> 'b \<Rightarrow> error + 'b" where
  "fold_e f [] acc = Inr acc"
| "fold_e f (x # xs) acc = ebind (f x acc) (fold_e f xs)"

fun sequence_e :: "(error + 'a) list \<Rightarrow> error + 'a list" where
  "sequence_e [] = Inr []"
| "sequence_e (m # ms) = ebind m (\<lambda>x. ebind (sequence_e ms) (\<lambda>xs. Inr (x # xs)))"

text \<open>
  A tensor value is a batch: one list per example, holding the example's entries along
  axis 1. \<open>shape\<close> lists the static dimensions after the batch axis, so a \<open>B x L x D\<close>
  tensor is a \<open>(real list) tensor\<close> of shape \<open>[L, D]\<close> and a \<open>B x N\<close> tensor is a
  \<open>real tensor\<close> of shape \<open>[N]\<close>.
\<close>

record 'a tensor =
  shape :: "nat list"
  val :: "'a list list"

definition wf2 :: "real tensor \<Rightarrow> bool" where
  "wf2 t \<longleftrightarrow> length (shape t) = 1 \<and> list_all (\<lambda>ex. length ex = shape t ! 0) (val t)"

definition wf3 :: "(real list) tensor \<Rightarrow> bool" where
  "wf3 t \<longleftrightarrow> length (shape t) = 2 \<and>
     list_all (\<lambda>ex. length ex = shape t ! 0 \<and> list_all (\<lambda>r. length r = shape t ! 1) ex) (val t)"

text \<open>
  A symbolic tensor of the functional API: its static shape, known while the model is
  assembled, and the computation that yields its value once an environment (the weights
  and the fed batch) is given.
\<close>

record ('e, 'a) ktensor =
  kshape :: "nat list"
  krun :: "'e \<Rightarrow> error + 'a list list"

section \<open>Concatenation of inputs\<close>

text \<open>
  \<open>Concatenate(axis=1)\<close> called on a list of inputs. An input that is \<open>None\<close> has no
  shape and the call raises. The inputs must have one rank and agree on every dimension
  but axis 1; the result appends, example by example, the entries along axis 1.
\<close>

definition concat_shapes_ok :: "nat list list \<Rightarrow> bool" where
  "concat_shapes_ok shapes \<longleftrightarrow>
     shapes \<noteq> [] \<and> list_all (\<lambda>s. s \<noteq> [] \<and> tl s = tl (hd shapes)) shapes"

definition concat_axis1 :: "'a list list list \<Rightarrow> error + 'a list list" where
  "concat_axis1 vs =
     (if list_all (\<lambda>v. length v = length (hd vs)) vs
      then Inr (map (\<lambda>b. concat (map (\<lambda>v. v ! b) vs)) [0..<length (hd vs)])
      else Inl ShapeError)"

definition Concatenate_axis1 :: "('e, 'a) ktensor option list \<Rightarrow> error + ('e, 'a) ktensor" where
  "Concatenate_axis1 inputs =
     (if None \<in> set inputs then Inl NoneInput
      else let ts = map the inputs in
        if \<not> concat_shapes_ok (map kshape ts) then Inl ShapeError
        else Inr \<lparr>kshape = sum_list (map (\<lambda>t. hd (kshape t)) ts) # tl (kshape (hd ts)),
                  krun = (\<lambda>env. ebind (sequence_e (map (\<lambda>t. krun t env) ts)) concat_axis1)\<rparr>)"

definition concat_input_list :: "('e, 'a) ktensor list \<Rightarrow> error + ('e, 'a) ktensor option" where
  "concat_input_list input_list =
     (let feature_nums = length input_list in
      if feature_nums > 1 then
        ebind (Concatenate_axis1 (map Some input_list)) (\<lambda>t. Inr (Some t))
      else if feature_nums = 1 then Inr (Some (input_list ! 0))
      else Inr None)"

section \<open>Tensor operations\<close>

text \<open>
  The framework operations the layers call, on well-shaped batches. Each is written for the
  ranks it is used at. An operation whose operands have incompatible static shapes raises
  while the graph is traced, whatever the batch holds; such a check reads \<open>shape\<close> only.
\<close>

definition broadcast_dim :: "nat \<Rightarrow> nat \<Rightarrow> nat option" where
  "broadcast_dim a b =
     (if a = b then Some a else if a = 1 then Some b else if b = 1 then Some a else None)"

definition broadcast_list :: "('a \<Rightarrow> 'b \<Rightarrow> 'c) \<Rightarrow> 'a list \<Rightarrow> 'b list \<Rightarrow> 'c list" where
  "broadcast_list f xs ys =
     (if length xs = length ys then map2 f xs ys
      else if length xs = 1 then map (f (hd xs)) ys
      else map (\<lambda>x. f x (hd ys)) xs)"

text \<open>\<open>tf.tile(t, multiples=[1, n, 1])\<close>: every example repeated \<open>n\<close> times along axis 1.\<close>

definition tf_tile_axis1 :: "nat \<Rightarrow> 'a tensor \<Rightarrow> 'a tensor" where
  "tf_tile_axis1 n t =
     \<lparr>shape = (hd (shape t) * n) # tl (shape t),
      val = map (\<lambda>ex. concat (replicate n ex)) (val t)\<rparr>"

text \<open>An element-wise binary operation of two \<open>B x L x D\<close> tensors, with broadcasting.\<close>

definition tf_binop3 ::
  "(real \<Rightarrow> real \<Rightarrow> real) \<Rightarrow> (real list) tensor \<Rightarrow> (real list) tensor \<Rightarrow> error + (real list) tensor" where
  "tf_binop3 f a b =
     (if length (shape a) \<noteq> 2 \<or> length (shape b) \<noteq> 2 then Inl ShapeError
      else case (broadcast_dim (shape a ! 0) (shape b ! 0),
                 broadcast_dim (shape a ! 1) (shape b ! 1)) of
             (Some l, Some d) \<Rightarrow>
               Inr \<lparr>shape = [l, d],
                    val = map2 (broadcast_list (broadcast_list f)) (val a) (val b)\<rparr>
           | _ \<Rightarrow> Inl ShapeError)"

text \<open>\<open>tf.concat(ts, axis=-1)\<close> of \<open>B x L x D\<^sub>i\<close> tensors.\<close>

definition tf_concat_last :: "(real list) tensor list \<Rightarrow> error + (real list) tensor" where
  "tf_concat_last ts =
     (if ts = [] \<or> \<not> list_all (\<lambda>t. length (shape t) = 2 \<and> shape t ! 0 = shape (hd ts) ! 0) ts
      then Inl ShapeError
      else Inr \<lparr>shape = [shape (hd ts) ! 0, sum_list (map (\<lambda>t. shape t ! 1) ts)],
                val = map (\<lambda>b. map (\<lambda>i. concat (map (\<lambda>t. val t ! b ! i) ts))
                                     [0..<shape (hd ts) ! 0])
                          [0..<length (val (hd ts))]\<rparr>)"

text \<open>\<open>tf.squeeze(t, -1)\<close> of a \<open>B x L x 1\<close> tensor.\<close>

definition tf_squeeze_last :: "(real list) tensor \<Rightarrow> error + real tensor" where
  "tf_squeeze_last t =
     (if length (shape t) = 2 \<and> shape t ! 1 = 1
      then Inr \<lparr>shape = [shape t ! 0], val = map (map (\<lambda>r. r ! 0)) (val t)\<rparr>
      else Inl ShapeError)"

text \<open>\<open>t[:, :, 0]\<close> of a \<open>B x L x D\<close> tensor; index 0 is out of bounds when \<open>D = 0\<close>.\<close>

definition tf_first_coordinate :: "(real list) tensor \<Rightarrow> error + real tensor" where
  "tf_first_coordinate t =
     (if length (shape t) = 2 \<and> 0 < shape t ! 1
      then Inr \<lparr>shape = [shape t ! 0], val = map (map (\<lambda>r. r ! 0)) (val t)\<rparr>
      else Inl ShapeError)"

definition tf_not_equal :: "real tensor \<Rightarrow> real \<Rightarrow> bool tensor" where
  "tf_not_equal t c = \<lparr>shape = shape t, val = map (map (\<lambda>v. v \<noteq> c)) (val t)\<rparr>"

definition tf_zeros_like :: "real tensor \<Rightarrow> real tensor" where
  "tf_zeros_like t = \<lparr>shape = shape t, val = map (map (\<lambda>v. 0)) (val t)\<rparr>"

text \<open>\<open>tf.where(c, a, b)\<close> on three tensors of one shape.\<close>

definition tf_where :: "bool tensor \<Rightarrow> real tensor \<Rightarrow> real tensor \<Rightarrow> error + real tensor" where
  "tf_where c a b =
     (if shape c = shape a \<and> shape a = shape b
      then Inr \<lparr>shape = shape a,
                val = map2 (\<lambda>cs (xs, ys). map2 (\<lambda>m (x, y). if m then x else y) cs (zip xs ys))
                           (val c) (zip (val a) (val b))\<rparr>
      else Inl ShapeError)"

text \<open>\<open>tf.expand_dims(t, axis=1)\<close> of a \<open>B x L\<close> tensor.\<close>

definition tf_expand_dims1 :: "real tensor \<Rightarrow> (real list) tensor" where
  "tf_expand_dims1 t = \<lparr>shape = 1 # shape t, val = map (\<lambda>r. [r]) (val t)\<rparr>"

text \<open>\<open>tf.matmul(a, b)\<close>: per example, the product of an \<open>M x L\<close> and an \<open>L x D\<close> matrix.\<close>

definition tf_matmul :: "(real list) tensor \<Rightarrow> (real list) tensor \<Rightarrow> error + (real list) tensor" where
  "tf_matmul a b =
     (if length (shape a) = 2 \<and> length (shape b) = 2 \<and> shape a ! 1 = shape b ! 0
      then Inr \<lparr>shape = [shape a ! 0, shape b ! 1],
                val = map2 (\<lambda>ma mb. map (\<lambda>row. map (\<lambda>j. sum_list (map (\<lambda>i. row ! i * mb ! i ! j)
                                                                     [0..<shape b ! 0]))
                                                   [0..<shape b ! 1]) ma)
                           (val a) (val b)\<rparr>
      else Inl ShapeError)"

text \<open>\<open>tf.squeeze(t, axis=1)\<close> of a \<open>B x 1 x D\<close> tensor.\<close>

definition tf_squeeze_axis1 :: "(real list) tensor \<Rightarrow> error + real tensor" where
  "tf_squeeze_axis1 t =
     (if length (shape t) = 2 \<and> shape t ! 0 = 1
      then Inr \<lparr>shape = [shape t ! 1], val = map (\<lambda>ex. ex ! 0) (val t)\<rparr>
      else Inl ShapeError)"

section \<open>Framework layers\<close>

definition sigmoid :: "real \<Rightarrow> real" where
  "sigmoid x = 1 / (1 + exp (- x))"

text \<open>PReLU, as the framework computes it: \<open>relu(x) - alpha * relu(-x)\<close>.\<close>

definition prelu :: "real \<Rightarrow> real \<Rightarrow> real" where
  "prelu a x = max 0 x - a * max 0 (- x)"

text \<open>
  Batch normalisation over the last axis. \<open>gamma\<close> and \<open>beta\<close> exist only when the layer
  was created with \<open>scale\<close> and \<open>center\<close>; the moving statistics exist once the layer is
  built. In training the statistics of the batch are used, otherwise the moving ones. The
  update of the moving statistics during training is left out: no property below reads it.
\<close>

record BatchNormalization =
  center :: bool
  scale :: bool
  epsilon :: real
  gamma :: "real list"
  beta :: "real list"
  moving_mean :: "real list"
  moving_variance :: "real list"

definition BatchNormalization_init :: "bool \<Rightarrow> bool \<Rightarrow> BatchNormalization" where
  "BatchNormalization_init center' scale' =
     \<lparr>center = center', scale = scale', epsilon = 1 / 1000, gamma = [], beta = [],
      moving_mean = [], moving_variance = []\<rparr>"

definition BatchNormalization_build :: "nat \<Rightarrow> BatchNormalization \<Rightarrow> BatchNormalization" where
  "BatchNormalization_build c self =
     self\<lparr>gamma := (if scale self then replicate c 1 else []),
          beta := (if center self then replicate c 0 else []),
          moving_mean := replicate c 0, moving_variance := replicate c 1\<rparr>"

definition batch_mean :: "real list list \<Rightarrow> nat \<Rightarrow> real" where
  "batch_mean rows c = sum_list (map (\<lambda>r. r ! c) rows) / real (length rows)"

definition batch_variance :: "real list list \<Rightarrow> nat \<Rightarrow> real" where
  "batch_variance rows c =
     sum_list (map (\<lambda>r. (r ! c - batch_mean rows c)\<^sup>2) rows) / real (length rows)"

definition bn_mean :: "BatchNormalization \<Rightarrow> bool \<Rightarrow> real list list \<Rightarrow> nat \<Rightarrow> real" where
  "bn_mean self training rows c = (if training then batch_mean rows c else moving_mean self ! c)"

definition bn_variance :: "BatchNormalization \<Rightarrow> bool \<Rightarrow> real list list \<Rightarrow> nat \<Rightarrow> real" where
  "bn_variance self training rows c =
     (if training then batch_variance rows c else moving_variance self ! c)"

text \<open>One row normalised with the statistics taken from \<open>rows\<close>.\<close>

definition bn_row :: "BatchNormalization \<Rightarrow> bool \<Rightarrow> real list list \<Rightarrow> real list \<Rightarrow> real list" where
  "bn_row self training rows r =
     map (\<lambda>c. (if scale self then gamma self ! c else 1) *
                 ((r ! c - bn_mean self training rows c) /
                    sqrt (bn_variance self training rows c + epsilon self)) +
               (if center self then beta self ! c else 0))
         [0..<length r]"

definition BatchNormalization_call ::
  "BatchNormalization \<Rightarrow> bool \<Rightarrow> real list list \<Rightarrow> real list list" where
  "BatchNormalization_call self training rows = map (bn_row self training rows) rows"

section \<open>Dice\<close>

text \<open>
  The Dice layer owns a batch normalisation created without learned shift and scale, and a
  weight \<open>alpha\<close> that does not exist until \<open>build\<close> has seen the input shape. The values a
  fresh weight holds come from the framework's initialiser, here the parameter \<open>init\<close>.
\<close>

record Dice =
  alpha :: "real list option"
  bn :: BatchNormalization

definition Dice_init :: Dice where
  "Dice_init = \<lparr>alpha = None, bn = BatchNormalization_init False False\<rparr>"

definition Dice_build :: "nat list \<Rightarrow> (nat \<Rightarrow> real) \<Rightarrow> Dice \<Rightarrow> error + Dice" where
  "Dice_build input_shape init self =
     (if input_shape = [] then Inl IndexError
      else Inr (self\<lparr>alpha := Some (map init [0..<last input_shape])\<rparr>))"

definition t_rsub :: "real \<Rightarrow> real list list \<Rightarrow> real list list" where
  "t_rsub c t = map (map (\<lambda>v. c - v)) t"

definition t_mul :: "real list list \<Rightarrow> real list list \<Rightarrow> real list list" where
  "t_mul a b = map2 (map2 (*)) a b"

definition t_add :: "real list list \<Rightarrow> real list list \<Rightarrow> real list list" where
  "t_add a b = map2 (map2 (+)) a b"

definition t_scale :: "real list \<Rightarrow> real list list \<Rightarrow> real list list" where
  "t_scale a t = map (broadcast_list (*) a) t"

text \<open>\<open>Dice.call\<close> on a \<open>B x C\<close> input.\<close>

definition Dice_call :: "Dice \<Rightarrow> bool \<Rightarrow> real tensor \<Rightarrow> error + real tensor" where
  "Dice_call self training x =
     (case alpha self of
        None \<Rightarrow> Inl AttributeError
      | Some a \<Rightarrow>
          let x_normed = BatchNormalization_call (bn self) training (val x);
              x_p = map (map sigmoid) x_normed
          in Inr \<lparr>shape = shape x,
                  val = t_add (t_mul (t_scale a (t_rsub 1 x_p)) (val x)) (t_mul x_p (val x))\<rparr>)"

text \<open>
  The same call on a \<open>B x L x C\<close> input, as it occurs when Dice is the activation of a
  fully-connected layer applied to a sequence: the statistics are taken over all rows.
\<close>

definition Dice_call3 :: "Dice \<Rightarrow> bool \<Rightarrow> real list list list \<Rightarrow> error + real list list list" where
  "Dice_call3 self training x =
     (case alpha self of
        None \<Rightarrow> Inl AttributeError
      | Some a \<Rightarrow>
          let x_normed = map (map (bn_row (bn self) training (concat x))) x;
              x_p = map (map (map sigmoid)) x_normed
          in Inr (map2 t_add (map2 t_mul (map (t_scale a) (map (t_rsub 1) x_p)) x)
                             (map2 t_mul x_p x)))"

section \<open>Fully-connected layers\<close>

text \<open>
  A fully-connected layer with its weights: \<open>kernel_W\<close> has one row per input coordinate
  and one column per unit. The activation carries its own weights: PReLU has one slope per
  entry of an example (\<open>L x units\<close> on a sequence, \<open>units\<close> on a vector).
\<close>

datatype 'al activation_fn = Linear | Sigmoid | PReLU 'al | DiceAct Dice

record 'al Dense =
  units :: nat
  activation :: "'al activation_fn"
  kernel_W :: "real list list"
  bias :: "real list"

definition dense_row :: "('al, 'z) Dense_scheme \<Rightarrow> real list \<Rightarrow> real list" where
  "dense_row self x =
     map (\<lambda>j. sum_list (map (\<lambda>i. x ! i * kernel_W self ! i ! j) [0..<length x]) + bias self ! j)
         [0..<units self]"

fun activation3 ::
  "(real list list) activation_fn \<Rightarrow> bool \<Rightarrow> real list list list \<Rightarrow> error + real list list list" where
  "activation3 Linear training z = Inr z"
| "activation3 Sigmoid training z = Inr (map (map (map sigmoid)) z)"
| "activation3 (PReLU al) training z =
     Inr (map (\<lambda>ex. map (\<lambda>i. map (\<lambda>j. prelu (al ! i ! j) (ex ! i ! j)) [0..<length (ex ! i)])
                         [0..<length ex]) z)"
| "activation3 (DiceAct d) training z = Dice_call3 d training z"

fun activation2 ::
  "(real list) activation_fn \<Rightarrow> bool \<Rightarrow> real list list \<Rightarrow> error + real list list" where
  "activation2 Linear training z = Inr z"
| "activation2 Sigmoid training z = Inr (map (map sigmoid) z)"
| "activation2 (PReLU al) training z =
     Inr (map (\<lambda>r. map (\<lambda>j. prelu (al ! j) (r ! j)) [0..<length r]) z)"
| "activation2 (DiceAct d) training z =
     ebind (Dice_call d training \<lparr>shape = [length (hd z)], val = z\<rparr>) (\<lambda>t. Inr (val t))"

text \<open>The layer called on a \<open>B x L x N\<close> tensor acts on the last axis.\<close>

definition Dense_call3 ::
  "(real list list) Dense \<Rightarrow> bool \<Rightarrow> (real list) tensor \<Rightarrow> error + (real list) tensor" where
  "Dense_call3 self training x =
     ebind (activation3 (activation self) training (map (map (dense_row self)) (val x)))
           (\<lambda>z. Inr \<lparr>shape = butlast (shape x) @ [units self], val = z\<rparr>)"

definition Dense_call2 ::
  "(real list) Dense \<Rightarrow> bool \<Rightarrow> real tensor \<Rightarrow> error + real tensor" where
  "Dense_call2 self training x =
     ebind (activation2 (activation self) training (map (dense_row self) (val x)))
           (\<lambda>z. Inr \<lparr>shape = butlast (shape x) @ [units self], val = z\<rparr>)"

text \<open>
  The trainable values of one fully-connected layer and of the activation attached to it.
  A model's layers take them from a supply indexed by the layer's position.
\<close>

record 'al dense_params =
  p_kernel :: "real list list"
  p_bias :: "real list"
  p_prelu :: 'al
  p_dice :: Dice

definition Dense_init :: "nat \<Rightarrow> 'al activation_fn \<Rightarrow> 'al dense_params \<Rightarrow> 'al Dense" where
  "Dense_init n act p = \<lparr>units = n, activation = act, kernel_W = p_kernel p, bias = p_bias p\<rparr>"

section \<open>Local activation unit\<close>

record LocalActivationUnit =
  hidden_units :: "nat list"
  linear_l :: "(real list list) Dense"
  dnn :: "(real list list) Dense list"

definition default_hidden_units :: "nat list" where
  "default_hidden_units = [256, 128, 64]"

definition LocalActivationUnit_init ::
  "nat list \<Rightarrow> string \<Rightarrow> (nat \<Rightarrow> (real list list) dense_params) \<Rightarrow> LocalActivationUnit" where
  "LocalActivationUnit_init hidden_units' activation' params =
     \<lparr>hidden_units = hidden_units',
      linear_l = Dense_init 1 Linear (params (length hidden_units')),
      dnn = map (\<lambda>i. Dense_init (hidden_units' ! i)
                         (if activation' = ''prelu'' then PReLU (p_prelu (params i))
                          else DiceAct (p_dice (params i)))
                         (params i))
                [0..<length hidden_units']\<rparr>"

text \<open>The four pieces concatenated per position (source lines 92 to 97).\<close>

definition LocalActivationUnit_att_input ::
  "(real list) tensor \<times> (real list) tensor \<Rightarrow> error + (real list) tensor" where
  "LocalActivationUnit_att_input inputs' =
     (let (query', keys') = inputs' in
      if length (shape query') \<noteq> 2 \<or> length (shape keys') \<noteq> 2 then Inl ShapeError
      else
        let keys_len = shape keys' ! 0;
            queries = tf_tile_axis1 keys_len query'
        in ebind (tf_binop3 (-) queries keys') (\<lambda>difference.
           ebind (tf_binop3 (*) queries keys') (\<lambda>product.
           tf_concat_last [queries, keys', difference, product])))"

definition LocalActivationUnit_call ::
  "LocalActivationUnit \<Rightarrow> bool \<Rightarrow> (real list) tensor \<times> (real list) tensor \<Rightarrow> error + real tensor" where
  "LocalActivationUnit_call self training inputs' =
     ebind (LocalActivationUnit_att_input inputs') (\<lambda>att_input.
     ebind (fold_e (\<lambda>fc att_out. Dense_call3 fc training att_out) (dnn self) att_input) (\<lambda>att_out.
     ebind (Dense_call3 (linear_l self) training att_out) (\<lambda>att_out.
     tf_squeeze_last att_out)))"

section \<open>Attention pooling\<close>

record AttentionPoolingLayer =
  att_hidden_units :: "nat list"
  local_att :: LocalActivationUnit

definition AttentionPoolingLayer_init ::
  "nat list \<Rightarrow> (nat \<Rightarrow> (real list list) dense_params) \<Rightarrow> AttentionPoolingLayer" where
  "AttentionPoolingLayer_init att_hidden_units' params =
     \<lparr>att_hidden_units = att_hidden_units',
      local_att = LocalActivationUnit_init att_hidden_units' ''prelu'' params\<rparr>"

text \<open>The validity mask of source line 121.\<close>

definition key_masks :: "(real list) tensor \<Rightarrow> error + bool tensor" where
  "key_masks keys' = ebind (tf_first_coordinate keys') (\<lambda>first. Inr (tf_not_equal first 0))"

definition AttentionPoolingLayer_call ::
  "AttentionPoolingLayer \<Rightarrow> bool \<Rightarrow> (real list) tensor \<times> (real list) tensor \<Rightarrow> error + real tensor" where
  "AttentionPoolingLayer_call self training inputs' =
     (let (queries, keys') = inputs' in
      ebind (key_masks keys') (\<lambda>masks.
      ebind (LocalActivationUnit_call (local_att self) training (queries, keys')) (\<lambda>attention_score.
      let paddings = tf_zeros_like attention_score in
      ebind (tf_where masks attention_score paddings) (\<lambda>outputs'.
      let outputs' = tf_expand_dims1 outputs' in
      ebind (tf_matmul outputs' keys') (\<lambda>outputs'.
      tf_squeeze_axis1 outputs')))))"

section \<open>Feature descriptors and dictionaries\<close>

text \<open>
  Modelled from the spec: the descriptors \<open>SparseFeat\<close>, \<open>DenseFeat\<close> and
  \<open>VarLenSparseFeat\<close> are imported from the module \<open>utils\<close>, which is not among the sources.
  The spec's data model gives their fields: a name, and the sizes of the variant. They are
  three variants of one descriptor type, so that an \<open>isinstance\<close> test selects exactly one.
\<close>

datatype feature_column =
    SparseFeat (name: string) (vocabulary_size: nat) (embedding_dim: nat)
  | DenseFeat (name: string) (dimension: nat)
  | VarLenSparseFeat (name: string) (vocabulary_size: nat) (embedding_dim: nat) (maxlen: nat)

fun isinstance_SparseFeat :: "feature_column \<Rightarrow> bool" where
  "isinstance_SparseFeat (SparseFeat n v d) = True"
| "isinstance_SparseFeat _ = False"

fun isinstance_DenseFeat :: "feature_column \<Rightarrow> bool" where
  "isinstance_DenseFeat (DenseFeat n d) = True"
| "isinstance_DenseFeat _ = False"

fun isinstance_VarLenSparseFeat :: "feature_column \<Rightarrow> bool" where
  "isinstance_VarLenSparseFeat (VarLenSparseFeat n v d m) = True"
| "isinstance_VarLenSparseFeat _ = False"

text \<open>
  A Python dictionary keeps its keys in insertion order; assigning to a present key keeps
  the key's place. It is an association list with distinct keys, assigned to by
  \<open>AList.update\<close>; \<open>d[k]\<close> raises \<open>KeyError\<close> on an absent key.
\<close>

type_synonym ('k, 'v) dict = "('k \<times> 'v) list"

definition dict_get :: "(string, 'v) dict \<Rightarrow> string \<Rightarrow> error + 'v" where
  "dict_get d k = (case map_of d k of None \<Rightarrow> Inl (KeyError k) | Some v \<Rightarrow> Inr v)"

definition dict_values :: "('k, 'v) dict \<Rightarrow> 'v list" where
  "dict_values d = map snd d"

section \<open>The environment of a model\<close>

text \<open>
  What the value of a symbolic tensor depends on: whether the call is a training step, the
  batch fed under each input name, and the current weights: the table of every embedding
  layer by the layer's name, the weights of the local activation unit of the \<open>i\<close>-th
  attention pooling layer, and those of the layers of the final scorer.
\<close>

record env =
  is_training :: bool
  feed :: "string \<Rightarrow> real list list option"
  embeddings :: "string \<Rightarrow> real list list"
  att_params :: "nat \<Rightarrow> nat \<Rightarrow> (real list list) dense_params"
  dnn_params :: "nat \<Rightarrow> (real list) dense_params"

section \<open>Input and embedding builders\<close>

text \<open>\<open>Input(shape=(n,), name=nm)\<close>: the batch fed under \<open>nm\<close>, of width \<open>n\<close>.\<close>

definition Input :: "nat \<Rightarrow> string \<Rightarrow> (env, real) ktensor" where
  "Input n nm =
     \<lparr>kshape = [n],
      krun = (\<lambda>e. case feed e nm of
                     None \<Rightarrow> Inl FeedError
                   | Some v \<Rightarrow> if list_all (\<lambda>r. length r = n) v then Inr v else Inl FeedError)\<rparr>"

text \<open>The body of the loop of \<open>build_input_layers\<close>, and the loop.\<close>

definition input_layers_step ::
  "feature_column \<Rightarrow> (string, (env, real) ktensor) dict \<Rightarrow> (string, (env, real) ktensor) dict" where
  "input_layers_step fc input_layer_dict =
     (case fc of
        SparseFeat nm v d \<Rightarrow> AList.update nm (Input 1 nm) input_layer_dict
      | DenseFeat nm n \<Rightarrow> AList.update nm (Input n nm) input_layer_dict
      | VarLenSparseFeat nm v d m \<Rightarrow> AList.update nm (Input m nm) input_layer_dict)"

definition build_input_layers :: "feature_column list \<Rightarrow> (string, (env, real) ktensor) dict" where
  "build_input_layers feature_columns = fold input_layers_step feature_columns []"

text \<open>
  An embedding layer as it is configured: the number of rows of its table, the width of a
  row, its name and whether index 0 is declared a padding value to be masked.
\<close>

record Embedding =
  input_dim :: nat
  output_dim :: nat
  layer_name :: string
  mask_zero :: bool

text \<open>
  The constructor \<open>Embedding(input_dim, output_dim, name=..., mask_zero=...)\<close>. It raises
  \<open>ValueError\<close> unless both sizes are positive, so no table without rows and no table with
  rows of width 0 is ever created.
\<close>

definition Embedding_init :: "nat \<Rightarrow> nat \<Rightarrow> string \<Rightarrow> bool \<Rightarrow> error + Embedding" where
  "Embedding_init input_dim' output_dim' name' mask_zero' =
     (if input_dim' = 0 \<or> output_dim' = 0 then Inl ValueError
      else Inr \<lparr>input_dim = input_dim', output_dim = output_dim', layer_name = name',
                mask_zero = mask_zero'\<rparr>)"

text \<open>
  The body of the loop of \<open>build_embedding_layers\<close>, and the loop. A constructor that
  raises ends the loop, and the function returns no dictionary.
\<close>

definition embedding_layers_step ::
  "feature_column \<Rightarrow> (string, Embedding) dict \<Rightarrow> error + (string, Embedding) dict" where
  "embedding_layers_step fc embedding_layer_dict =
     (case fc of
        SparseFeat nm v d \<Rightarrow>
          ebind (Embedding_init v d (''emb_'' @ nm) False) (\<lambda>layer.
          Inr (AList.update nm layer embedding_layer_dict))
      | DenseFeat nm n \<Rightarrow> Inr embedding_layer_dict
      | VarLenSparseFeat nm v d m \<Rightarrow>
          ebind (Embedding_init (v + 1) d (''emb_'' @ nm) True) (\<lambda>layer.
          Inr (AList.update nm layer embedding_layer_dict)))"

definition build_embedding_layers ::
  "feature_column list \<Rightarrow> (string, (env, real) ktensor) dict \<Rightarrow> error + (string, Embedding) dict" where
  "build_embedding_layers feature_columns input_layer_dict =
     fold_e embedding_layers_step feature_columns []"

text \<open>
  The embedding layer called on a \<open>B x N\<close> input: the entries are cast to integers, which
  truncates, and each selects a row of the table; an index outside the table raises.
\<close>

definition to_index :: "real \<Rightarrow> int" where
  "to_index x = (if 0 \<le> x then \<lfloor>x\<rfloor> else - \<lfloor>- x\<rfloor>)"

definition embedding_row :: "Embedding \<Rightarrow> real list list \<Rightarrow> real \<Rightarrow> error + real list" where
  "embedding_row self table x =
     (let i = to_index x in
      if 0 \<le> i \<and> i < int (input_dim self) then Inr (table ! nat i) else Inl IndexOutOfRange)"

definition Embedding_call :: "Embedding \<Rightarrow> (env, real) ktensor \<Rightarrow> (env, real list) ktensor" where
  "Embedding_call self t =
     \<lparr>kshape = kshape t @ [output_dim self],
      krun = (\<lambda>e. ebind (krun t e) (\<lambda>ids.
                sequence_e (map (\<lambda>r. sequence_e (map (embedding_row self (embeddings e (layer_name self))) r))
                                ids)))\<rparr>"

definition Flatten_call :: "(env, real list) ktensor \<Rightarrow> (env, real) ktensor" where
  "Flatten_call t =
     \<lparr>kshape = [prod_list (kshape t)],
      krun = (\<lambda>e. ebind (krun t e) (\<lambda>v. Inr (map concat v)))\<rparr>"

section \<open>Lookups\<close>

text \<open>
  The three statements both lookup loops share: the input slot and the embedding layer are
  read from the dictionaries under one key, and the layer is called on the slot.
\<close>

definition lookup_embed ::
  "(string, (env, real) ktensor) dict \<Rightarrow> (string, Embedding) dict \<Rightarrow> string
     \<Rightarrow> error + (env, real list) ktensor" where
  "lookup_embed input_layer_dict embedding_layer_dict k =
     ebind (dict_get input_layer_dict k) (\<lambda>input'.
     ebind (dict_get embedding_layer_dict k) (\<lambda>embed'.
     Inr (Embedding_call embed' input')))"

definition embedding_lookup ::
  "string list \<Rightarrow> (string, (env, real) ktensor) dict \<Rightarrow> (string, Embedding) dict
     \<Rightarrow> error + (env, real list) ktensor list" where
  "embedding_lookup feature_columns input_layer_dict embedding_layer_dict =
     fold_e (\<lambda>fc embedding_list.
               ebind (lookup_embed input_layer_dict embedding_layer_dict fc) (\<lambda>embed.
               Inr (embedding_list @ [embed])))
            feature_columns []"

text \<open>
  With \<open>flatten\<close> the result holds \<open>B x N\<close> tensors, without it \<open>B x L x D\<close> tensors; the
  result type is the sum of the two.
\<close>

definition concat_embedding_list ::
  "feature_column list \<Rightarrow> (string, (env, real) ktensor) dict \<Rightarrow> (string, Embedding) dict \<Rightarrow> bool
     \<Rightarrow> error + ((env, real list) ktensor list + (env, real) ktensor list)" where
  "concat_embedding_list feature_columns input_layer_dict embedding_layer_dict flatten =
     (if flatten then
        ebind (fold_e (\<lambda>fc embedding_list.
                         ebind (lookup_embed input_layer_dict embedding_layer_dict (name fc)) (\<lambda>embed.
                         Inr (embedding_list @ [Flatten_call embed])))
                      feature_columns [])
              (\<lambda>embedding_list. Inr (Inr embedding_list))
      else
        ebind (fold_e (\<lambda>fc embedding_list.
                         ebind (lookup_embed input_layer_dict embedding_layer_dict (name fc)) (\<lambda>embed.
                         Inr (embedding_list @ [embed])))
                      feature_columns [])
              (\<lambda>embedding_list. Inr (Inl embedding_list)))"

section \<open>The scorer and the model\<close>

definition get_dnn_logits :: "(env, real) ktensor \<Rightarrow> nat list \<Rightarrow> string \<Rightarrow> (env, real) ktensor" where
  "get_dnn_logits dnn_input hidden_units' activation' =
     \<lparr>kshape = [1],
      krun = (\<lambda>e.
        let dnns = map (\<lambda>i. Dense_init (hidden_units' ! i)
                               (if activation' = ''prelu'' then PReLU (p_prelu (dnn_params e i))
                                else DiceAct (p_dice (dnn_params e i)))
                               (dnn_params e i))
                       [0..<length hidden_units']
        in ebind (krun dnn_input e) (\<lambda>v.
           ebind (fold_e (\<lambda>dnn' dnn_out. Dense_call2 dnn' (is_training e) dnn_out) dnns
                    \<lparr>shape = kshape dnn_input, val = v\<rparr>) (\<lambda>dnn_out.
           ebind (Dense_call2 (Dense_init 1 Sigmoid (dnn_params e (length hidden_units')))
                    (is_training e) dnn_out) (\<lambda>dnn_logits.
           Inr (val dnn_logits)))))\<rparr>"

text \<open>
  A layer object called on symbolic tensors: \<open>call\<close> is traced once on a batch without
  examples, where the static shapes alone decide whether it raises; the result's value is
  \<open>call\<close> on the values of the arguments, with the layer's current weights. The \<open>i\<close>-th
  attention pooling layer of a model is created with the default hidden widths.
\<close>

definition blank_params :: "nat \<Rightarrow> (real list list) dense_params" where
  "blank_params i = \<lparr>p_kernel = [], p_bias = [], p_prelu = [], p_dice = Dice_init\<rparr>"

definition AttentionPoolingLayer_apply ::
  "nat \<Rightarrow> (env, real list) ktensor \<times> (env, real list) ktensor \<Rightarrow> error + (env, real) ktensor" where
  "AttentionPoolingLayer_apply i inputs' =
     (let (q, k) = inputs' in
      case AttentionPoolingLayer_call (AttentionPoolingLayer_init default_hidden_units blank_params) False
             (\<lparr>shape = kshape q, val = []\<rparr>, \<lparr>shape = kshape k, val = []\<rparr>) of
        Inl err \<Rightarrow> Inl err
      | Inr traced \<Rightarrow>
          Inr \<lparr>kshape = shape traced,
               krun = (\<lambda>e. ebind (krun q e) (\<lambda>qv. ebind (krun k e) (\<lambda>kv.
                  ebind (AttentionPoolingLayer_call
                           (AttentionPoolingLayer_init default_hidden_units (att_params e i))
                           (is_training e)
                           (\<lparr>shape = kshape q, val = qv\<rparr>, \<lparr>shape = kshape k, val = kv\<rparr>))
                        (\<lambda>out. Inr (val out)))))\<rparr>)"

text \<open>
  A model: its input slots and its output. Calling it on a batch needs every input slot
  fed, also a slot the output does not depend on.
\<close>

record Model =
  model_inputs :: "(env, real) ktensor list"
  model_outputs :: "(env, real) ktensor"

definition Model_call :: "Model \<Rightarrow> env \<Rightarrow> error + real list list" where
  "Model_call m e =
     ebind (sequence_e (map (\<lambda>t. krun t e) (model_inputs m))) (\<lambda>fed. krun (model_outputs m) e)"

section \<open>Model assembly\<close>

definition DIN :: "feature_column list \<Rightarrow> string list \<Rightarrow> string list \<Rightarrow> error + Model" where
  "DIN feature_columns behavior_feature_list behavior_seq_feature_list =
     (let input_layer_dict = build_input_layers feature_columns;
          input_layers = dict_values input_layer_dict;
          sparse_feature_columns = filter isinstance_SparseFeat feature_columns;
          dense_feature_columns = filter isinstance_DenseFeat feature_columns
      in
      ebind (fold_e (\<lambda>fc dnn_dense_input.
                       ebind (dict_get input_layer_dict (name fc)) (\<lambda>t. Inr (dnn_dense_input @ [t])))
                    dense_feature_columns []) (\<lambda>dnn_dense_input.
      ebind (concat_input_list dnn_dense_input) (\<lambda>dnn_dense_input.
      ebind (build_embedding_layers feature_columns input_layer_dict) (\<lambda>embedding_layer_dict.
      ebind (concat_embedding_list sparse_feature_columns input_layer_dict embedding_layer_dict True)
        (\<lambda>dnn_sparse_embed_input.
      case dnn_sparse_embed_input of
        Inl unflattened \<Rightarrow> Inl ShapeError
      | Inr dnn_sparse_embed_input \<Rightarrow>
      ebind (concat_input_list dnn_sparse_embed_input) (\<lambda>dnn_sparse_input.
      ebind (embedding_lookup behavior_feature_list input_layer_dict embedding_layer_dict)
        (\<lambda>query_embed_list.
      ebind (embedding_lookup behavior_seq_feature_list input_layer_dict embedding_layer_dict)
        (\<lambda>keys_embed_list.
      ebind (fold_e (\<lambda>i dnn_seq_input_list.
                       if i < length query_embed_list then
                         ebind (AttentionPoolingLayer_apply i (query_embed_list ! i, keys_embed_list ! i))
                           (\<lambda>seq_emb. Inr (dnn_seq_input_list @ [seq_emb]))
                       else Inl IndexError)
                    [0..<length keys_embed_list] []) (\<lambda>dnn_seq_input_list.
      ebind (concat_input_list dnn_seq_input_list) (\<lambda>dnn_seq_input.
      ebind (Concatenate_axis1 [dnn_dense_input, dnn_sparse_input, dnn_seq_input]) (\<lambda>dnn_input.
      let dnn_logits = get_dnn_logits dnn_input [200, 80] ''prelu'' in
      Inr \<lparr>model_inputs = input_layers, model_outputs = dnn_logits\<rparr>)))))))))))"

section \<open>Predicates used in the statements\<close>

text \<open>
  The sizes of a descriptor are accepted when the constructor of its embedding layer does
  not raise on them: a Sparse descriptor needs a positive vocabulary and a positive width,
  a VarLenSparse descriptor a positive width (its table has one row more than its
  vocabulary), and a Dense descriptor has no embedding layer.
\<close>

fun embedding_sizes_ok :: "feature_column \<Rightarrow> bool" where
  "embedding_sizes_ok (SparseFeat nm v d) = (0 < v \<and> 0 < d)"
| "embedding_sizes_ok (DenseFeat nm n) = True"
| "embedding_sizes_ok (VarLenSparseFeat nm v d m) = (0 < d)"


text \<open>
  An activation is built when its weights exist: only Dice creates a weight in \<open>build\<close>.
  A local activation unit is built when the activations of its hidden layers are.
\<close>

fun act_built :: "'al activation_fn \<Rightarrow> bool" where
  "act_built (DiceAct d) = (alpha d \<noteq> None)"
| "act_built _ = True"

definition lau_built :: "LocalActivationUnit \<Rightarrow> bool" where
  "lau_built self \<longleftrightarrow> list_all (\<lambda>d. act_built (activation d)) (dnn self)"

text \<open>Two sequence tensors with the same batch size and the same lengths per example.\<close>

definition same_layout :: "(real list) tensor \<Rightarrow> (real list) tensor \<Rightarrow> bool" where
  "same_layout x y \<longleftrightarrow> length (val y) = length (val x) \<and>
     (\<forall>b<length (val x). length (val y ! b) = length (val x ! b))"

section \<open>Example weights\<close>

text \<open>
  Weights of the shapes the default local activation unit has on keys of width 2 and
  length 3, used to instantiate the statements at concrete inputs.
\<close>

definition example_params :: "nat \<Rightarrow> (real list list) dense_params" where
  "example_params i =
     \<lparr>p_kernel = replicate ([8, 256, 128, 64] ! i) (replicate ([256, 128, 64, 1] ! i) (1 / 100)),
      p_bias = replicate ([256, 128, 64, 1] ! i) 0,
      p_prelu = replicate 3 (replicate ([256, 128, 64, 1] ! i) (1 / 4)),
      p_dice = Dice_init\<rparr>"

text \<open>
  A built and trained Dice layer on two channels, for the same purpose.
\<close>

definition example_dice :: Dice where
  "example_dice =
     \<lparr>alpha = Some [2, 3],
      bn = (BatchNormalization_build 2 (BatchNormalization_init False False))\<lparr>moving_mean := [1, 0]\<rparr>\<rparr>"

section \<open>Names for parts of the assembly\<close>

text \<open>
  The inputs of the dense and of the sparse branch as \<open>DIN\<close> collects them, and the part of
  \<open>DIN\<close> that follows the two lookups, under names the proofs can refer to.
  \<open>embedding_layers_of\<close> is the dictionary \<open>build_embedding_layers\<close> returns to \<open>DIN\<close>.
\<close>

definition embedding_layers_of :: "feature_column list \<Rightarrow> (string, Embedding) dict" where
  "embedding_layers_of fcs =
     (case build_embedding_layers fcs (build_input_layers fcs) of
        Inl err \<Rightarrow> []
      | Inr embedding_layer_dict \<Rightarrow> embedding_layer_dict)"

definition dense_inputs :: "feature_column list \<Rightarrow> (env, real) ktensor list" where
  "dense_inputs fcs =
     map (\<lambda>fc. the (map_of (build_input_layers fcs) (name fc))) (filter isinstance_DenseFeat fcs)"

definition sparse_inputs :: "feature_column list \<Rightarrow> (env, real) ktensor list" where
  "sparse_inputs fcs =
     map (\<lambda>fc. Flatten_call (Embedding_call
                 (the (map_of (embedding_layers_of fcs) (name fc)))
                 (the (map_of (build_input_layers fcs) (name fc)))))
         (filter isinstance_SparseFeat fcs)"

definition DIN_pooling ::
  "(env, real) ktensor list \<Rightarrow> (env, real) ktensor option \<Rightarrow> (env, real) ktensor option
     \<Rightarrow> (env, real list) ktensor list \<Rightarrow> (env, real list) ktensor list \<Rightarrow> error + Model" where
  "DIN_pooling input_layers dnn_dense_input dnn_sparse_input query_embed_list keys_embed_list =
      ebind (fold_e (\<lambda>i dnn_seq_input_list.
                       if i < length query_embed_list then
                         ebind (AttentionPoolingLayer_apply i (query_embed_list ! i, keys_embed_list ! i))
                           (\<lambda>seq_emb. Inr (dnn_seq_input_list @ [seq_emb]))
                       else Inl IndexError)
                    [0..<length keys_embed_list] []) (\<lambda>dnn_seq_input_list.
      ebind (concat_input_list dnn_seq_input_list) (\<lambda>dnn_seq_input.
      ebind (Concatenate_axis1 [dnn_dense_input, dnn_sparse_input, dnn_seq_input]) (\<lambda>dnn_input.
      let dnn_logits = get_dnn_logits dnn_input [200, 80] ''prelu'' in
      Inr \<lparr>model_inputs = input_layers, model_outputs = dnn_logits\<rparr>)))"

text \<open>The embedding of the feature named \<open>k\<close>, as the lookups of \<open>DIN\<close> produce it.\<close>

definition embed_of :: "feature_column list \<Rightarrow> string \<Rightarrow> (env, real list) ktensor" where
  "embed_of fcs k =
     Embedding_call (the (map_of (embedding_layers_of fcs) k))
                    (the (map_of (build_input_layers fcs) k))"

text \<open>A symbolic tensor runs in an environment when it has a value there, of \<open>B\<close> examples.\<close>

definition runs :: "nat \<Rightarrow> (env, 'a) ktensor \<Rightarrow> env \<Rightarrow> bool" where
  "runs B t e \<longleftrightarrow> (\<exists>v. krun t e = Inr v \<and> length v = B)"

section \<open>The end-to-end scenario\<close>

text \<open>
  The schema of the spec's end-to-end scenario, and an environment that feeds a batch of
  four examples with fully padded histories to the model built from the scenario extended
  by the dense feature \<open>time\<close> of the repository's own script.
\<close>

definition scenario :: "feature_column list" where
  "scenario = [SparseFeat ''user_id'' 100 8, VarLenSparseFeat ''history'' 500 8 50,
               SparseFeat ''candidate_id'' 500 8]"

definition example_env :: env where
  "example_env =
     \<lparr>is_training = False,
      feed = (\<lambda>k. if k = ''user_id'' then Some [[1], [2], [3], [4]]
                 else if k = ''candidate_id'' then Some [[5], [6], [7], [8]]
                 else if k = ''history'' then Some (replicate 4 (replicate 50 0))
                 else if k = ''time'' then Some [[0], [1 / 2], [1], [2]]
                 else None),
      embeddings = (\<lambda>k. replicate 501 (replicate 8 (1 / 10))),
      att_params = (\<lambda>i j. \<lparr>p_kernel = replicate ([32, 256, 128, 64] ! j)
                                            (replicate ([256, 128, 64, 1] ! j) (1 / 100)),
                            p_bias = replicate ([256, 128, 64, 1] ! j) 0,
                            p_prelu = replicate 50 (replicate ([256, 128, 64, 1] ! j) (1 / 4)),
                            p_dice = Dice_init\<rparr>),
      dnn_params = (\<lambda>j. \<lparr>p_kernel = replicate ([25, 200, 80] ! j) (replicate ([200, 80, 1] ! j) (1 / 100)),
                          p_bias = replicate ([200, 80, 1] ! j) 0,
                          p_prelu = replicate ([200, 80, 1] ! j) (1 / 4),
                          p_dice = Dice_init\<rparr>)\<rparr>"

section \<open>What a tensor reads\<close>

text \<open>
  Two environments agree on a set of feature names when they differ at most in what is fed
  under other names and in the tables of the embedding layers of other names. A symbolic
  tensor reads a set of names when its value is the same in any two environments that
  agree on the set.
\<close>

definition env_agree :: "string set \<Rightarrow> env \<Rightarrow> env \<Rightarrow> bool" where
  "env_agree S e e' \<longleftrightarrow>
     is_training e = is_training e' \<and> att_params e = att_params e' \<and> dnn_params e = dnn_params e' \<and>
     (\<forall>k\<in>S. feed e k = feed e' k \<and> embeddings e (''emb_'' @ k) = embeddings e' (''emb_'' @ k))"

definition reads :: "string set \<Rightarrow> (env, 'a) ktensor \<Rightarrow> bool" where
  "reads S t \<longleftrightarrow> (\<forall>e e'. env_agree S e e' \<longrightarrow> krun t e = krun t e')"

section \<open>A sequence feature as the candidate\<close>

text \<open>
  Building a model and calling it on a batch, in one step.
\<close>

definition DIN_predict :: "feature_column list \<Rightarrow> string list \<Rightarrow> string list \<Rightarrow> env \<Rightarrow> error + real list list" where
  "DIN_predict feature_columns behavior_feature_list behavior_seq_feature_list e =
     ebind (DIN feature_columns behavior_feature_list behavior_seq_feature_list) (\<lambda>m. Model_call m e)"

text \<open>
  Weights of a fully-connected layer that make every unit the mean of the layer's input.
\<close>

definition uniform_params :: "nat \<Rightarrow> nat \<Rightarrow> 'al \<Rightarrow> 'al dense_params" where
  "uniform_params n u al =
     \<lparr>p_kernel = replicate n (replicate u (1 / real n)), p_bias = replicate u 0,
      p_prelu = al, p_dice = Dice_init\<rparr>"

text \<open>
  A schema in which the sequence feature \<open>last_click\<close>, of length 1, serves as the candidate
  of the history, and the sequence feature \<open>searches\<close> is listed nowhere; and, for every
  \<open>c\<close>, an environment with mean weights in which every row of the table of \<open>last_click\<close>
  is \<open>[c]\<close>.
\<close>

definition interference_schema :: "feature_column list" where
  "interference_schema =
     [DenseFeat ''time'' 1, SparseFeat ''user_id'' 1 1, VarLenSparseFeat ''last_click'' 1 1 1,
      VarLenSparseFeat ''history'' 1 1 1, VarLenSparseFeat ''searches'' 1 1 2]"

definition interference_env :: "real \<Rightarrow> env" where
  "interference_env c =
     \<lparr>is_training = False,
      feed = (\<lambda>k. if k = ''history'' then Some [[1]]
                 else if k = ''searches'' then Some [[0, 0]] else Some [[0]]),
      embeddings = (\<lambda>k. if k = ''emb_last_click'' then [[c], [c]] else [[0], [1]]),
      att_params = (\<lambda>i j. uniform_params ([4, 256, 128, 64] ! j) ([256, 128, 64, 1] ! j)
                             [replicate ([256, 128, 64, 1] ! j) 0]),
      dnn_params = (\<lambda>j. uniform_params ([3, 200, 80] ! j) ([200, 80, 1] ! j)
                           (replicate ([200, 80, 1] ! j) 0))\<rparr>"

section \<open>Properties\<close>

subsection \<open>Auxiliary facts\<close>

lemma sequence_e_Inr: "sequence_e (map Inr vs) = Inr vs"
  by (induction vs) (auto simp: ebind_def)

lemma ebind_Inr [simp]: "ebind (Inr x) f = f x" by (simp add: ebind_def)
lemma ebind_Inl [simp]: "ebind (Inl e) f = Inl e" by (simp add: ebind_def)

lemma ebind_eq_Inr: "ebind m f = Inr y \<longleftrightarrow> (\<exists>x. m = Inr x \<and> f x = Inr y)"
  by (cases m) auto

lemma Dice_call3_lengths:
  assumes "Dice_call3 d tr z = Inr z'"
  shows "length z' = length z \<and> (\<forall>b<length z. length (z' ! b) = length (z ! b))"
  using assms
  by (auto simp: Dice_call3_def Let_def t_add_def t_mul_def t_scale_def t_rsub_def split: option.splits)

lemma activation3_lengths:
  assumes "activation3 a tr z = Inr z'"
  shows "length z' = length z \<and> (\<forall>b<length z. length (z' ! b) = length (z ! b))"
  using assms by (cases a) (auto dest: Dice_call3_lengths)

lemma activation3_total: "act_built a \<Longrightarrow> \<exists>z'. activation3 a tr z = Inr z'"
  by (cases a) (auto simp: Dice_call3_def Let_def split: option.splits)

lemma Dense_call3_Inr:
  assumes "Dense_call3 fc tr x = Inr y"
  shows "shape y = butlast (shape x) @ [units fc] \<and> length (val y) = length (val x) \<and>
         (\<forall>b<length (val x). length (val y ! b) = length (val x ! b))"
  using assms activation3_lengths[of "activation fc" tr "map (map (dense_row fc)) (val x)"]
  by (auto simp: Dense_call3_def ebind_eq_Inr)

lemma Dense_call3_total:
  "act_built (activation fc) \<Longrightarrow> \<exists>y. Dense_call3 fc tr x = Inr y"
proof -
  assume "act_built (activation fc)"
  then obtain z' where "activation3 (activation fc) tr (map (map (dense_row fc)) (val x)) = Inr z'"
    using activation3_total by blast
  then show ?thesis by (simp add: Dense_call3_def)
qed

lemma fold_dense_Inr:
  assumes "fold_e (\<lambda>fc att_out. Dense_call3 fc tr att_out) ds x = Inr y" "length (shape x) = 2"
  shows "same_layout x y \<and> length (shape y) = 2 \<and> shape y ! 0 = shape x ! 0 \<and>
         shape y ! 1 = (if ds = [] then shape x ! 1 else units (last ds))"
  using assms
proof (induction ds arbitrary: x)
  case Nil
  then show ?case by (simp add: same_layout_def)
next
  case (Cons d ds)
  from Cons.prems obtain x1 where x1: "Dense_call3 d tr x = Inr x1"
      and r: "fold_e (\<lambda>fc att_out. Dense_call3 fc tr att_out) ds x1 = Inr y"
    by (auto simp: ebind_eq_Inr)
  have s1: "shape x1 = [shape x ! 0, units d]"
    using Dense_call3_Inr[OF x1] Cons.prems(2) by (cases "shape x" rule: rev_cases) (auto simp: length_Suc_conv)
  have l1: "same_layout x x1" using Dense_call3_Inr[OF x1] by (simp add: same_layout_def)
  have ih: "same_layout x1 y \<and> length (shape y) = 2 \<and> shape y ! 0 = shape x1 ! 0 \<and>
         shape y ! 1 = (if ds = [] then shape x1 ! 1 else units (last ds))"
    using Cons.IH[OF r] s1 by simp
  show ?case using ih l1 s1 by (auto simp: same_layout_def)
qed

lemma fold_dense_total:
  assumes "list_all (\<lambda>d. act_built (activation d)) ds"
  shows "\<exists>y. fold_e (\<lambda>fc att_out. Dense_call3 fc tr att_out) ds x = Inr y"
  using assms
proof (induction ds arbitrary: x)
  case Nil
  then show ?case by simp
next
  case (Cons d ds)
  then obtain x1 where "Dense_call3 d tr x = Inr x1" using Dense_call3_total[of d tr x] by auto
  then show ?case using Cons by simp
qed

lemma concat_replicate_single: "concat (replicate n [x]) = replicate n x"
  by (induction n) auto

lemma att_input_shape:
  assumes "shape q = [1, D]" "shape k = [L, D]"
  shows "\<exists>a. LocalActivationUnit_att_input (q, k) = Inr a \<and> shape a = [L, 4 * D] \<and>
             length (val a) = length (val q) \<and> (\<forall>b<length (val q). length (val a ! b) = L)"
  using assms
  by (simp add: LocalActivationUnit_att_input_def tf_tile_axis1_def tf_binop3_def tf_concat_last_def
        broadcast_dim_def Let_def)

lemma att_input_val:
  assumes "shape q = [1, D]" "shape k = [L, D]" "wf3 q" "wf3 k" "length (val q) = length (val k)"
    and "LocalActivationUnit_att_input (q, k) = Inr a" "b < length (val k)" "i < L"
  shows "val a ! b ! i =
           val q ! b ! 0 @ val k ! b ! i @ map2 (-) (val q ! b ! 0) (val k ! b ! i)
             @ map2 (*) (val q ! b ! 0) (val k ! b ! i)"
proof -
  have qb: "length (val q ! b) = 1" "length (val q ! b ! 0) = D"
    using assms by (auto simp: wf3_def list_all_length)
  then obtain qv where qv: "val q ! b = [qv]" by (cases "val q ! b") auto
  have kb: "length (val k ! b) = L" "length (val k ! b ! i) = D"
    using assms by (auto simp: wf3_def list_all_length)
  have a: "a = \<lparr>shape = [L, 4 * D],
       val = map (\<lambda>b. map (\<lambda>i. concat (map (\<lambda>t. val t ! b ! i)
          [tf_tile_axis1 L q, k,
           \<lparr>shape = [L, D], val = map2 (broadcast_list (broadcast_list (-))) (val (tf_tile_axis1 L q)) (val k)\<rparr>,
           \<lparr>shape = [L, D], val = map2 (broadcast_list (broadcast_list (*))) (val (tf_tile_axis1 L q)) (val k)\<rparr>]))
           [0..<L]) [0..<length (val q)]\<rparr>"
    using assms(1,2,6)
    by (auto simp: LocalActivationUnit_att_input_def tf_tile_axis1_def tf_binop3_def tf_concat_last_def
        broadcast_dim_def Let_def)
  have t: "val (tf_tile_axis1 L q) ! b = replicate L qv"
    using assms(5,7) qv by (simp add: tf_tile_axis1_def concat_replicate_single)
  have lt: "length (val (tf_tile_axis1 L q)) = length (val k)"
    using assms(5) by (simp add: tf_tile_axis1_def)
  have bl: "broadcast_list (broadcast_list f) (replicate L qv) (val k ! b) ! i
              = map2 f qv (val k ! b ! i)" for f :: "real \<Rightarrow> real \<Rightarrow> real"
    using kb qb qv assms(8) by (simp add: broadcast_list_def)
  show ?thesis
    using assms(5,7,8) qv t lt bl by (simp add: a)
qed

lemma LocalActivationUnit_init_linear:
  "units (linear_l (LocalActivationUnit_init hu act params)) = 1 \<and>
   activation (linear_l (LocalActivationUnit_init hu act params)) = Linear"
  by (simp add: LocalActivationUnit_init_def Dense_init_def)

lemma LocalActivationUnit_init_prelu_built:
  "lau_built (LocalActivationUnit_init hu ''prelu'' params)"
  by (simp add: lau_built_def LocalActivationUnit_init_def Dense_init_def list_all_length)

lemma LocalActivationUnit_init_units:
  "map units (dnn (LocalActivationUnit_init hu act params)) = hu"
  by (simp add: LocalActivationUnit_init_def Dense_init_def comp_def map_nth)

lemma LocalActivationUnit_call_Inr:
  assumes q: "shape q = [1, D]" and k: "shape k = [L, D]"
    and lin: "units (linear_l self) = 1" "activation (linear_l self) = Linear"
    and built: "lau_built self"
  shows "\<exists>a h s. LocalActivationUnit_att_input (q, k) = Inr a \<and>
           fold_e (\<lambda>fc att_out. Dense_call3 fc tr att_out) (dnn self) a = Inr h \<and>
           LocalActivationUnit_call self tr (q, k) = Inr s \<and>
           shape s = [L] \<and> length (val s) = length (val q) \<and>
           (\<forall>b<length (val q). length (val s ! b) = L \<and>
              (\<forall>i<L. val s ! b ! i = dense_row (linear_l self) (val h ! b ! i) ! 0))"
proof -
  obtain a where a: "LocalActivationUnit_att_input (q, k) = Inr a" "shape a = [L, 4 * D]"
      "length (val a) = length (val q)" "\<forall>b<length (val q). length (val a ! b) = L"
    using att_input_shape[OF q k] by blast
  obtain h where h: "fold_e (\<lambda>fc att_out. Dense_call3 fc tr att_out) (dnn self) a = Inr h"
    using fold_dense_total[of "dnn self" tr a] built by (auto simp: lau_built_def)
  have hl: "same_layout a h" "length (shape h) = 2" "shape h ! 0 = L"
    using fold_dense_Inr[OF h] a(2) by auto
  let ?z = "map (map (dense_row (linear_l self))) (val h)"
  let ?y = "\<lparr>shape = butlast (shape h) @ [1], val = ?z\<rparr>"
  have y: "Dense_call3 (linear_l self) tr h = Inr ?y"
    using lin by (simp add: Dense_call3_def)
  have sy: "shape ?y = [L, 1]"
    using hl(2,3) by (cases "shape h" rule: rev_cases) (auto simp: length_Suc_conv)
  let ?s = "\<lparr>shape = [L], val = map (map (\<lambda>r. r ! 0)) ?z\<rparr>"
  have s: "tf_squeeze_last ?y = Inr ?s"
    using sy by (simp add: tf_squeeze_last_def)
  have c: "LocalActivationUnit_call self tr (q, k) = Inr ?s"
    using a(1) h y s by (simp add: LocalActivationUnit_call_def)
  have len: "length (val h) = length (val q)" "\<forall>b<length (val q). length (val h ! b) = L"
    using hl(1) a(3,4) by (auto simp: same_layout_def)
  show ?thesis
    using a(1) h c len by (intro exI[of _ a] exI[of _ h] exI[of _ ?s]) simp
qed

lemma key_masks_Inr:
  assumes "shape k = [L, D]" "0 < D"
  shows "key_masks k = Inr \<lparr>shape = [L], val = map (map (\<lambda>r. r ! 0 \<noteq> 0)) (val k)\<rparr>"
  using assms by (simp add: key_masks_def tf_first_coordinate_def tf_not_equal_def)

lemma AttentionPoolingLayer_call_formula:
  assumes q: "shape q = [1, D]" and k: "shape k = [L, D]" and d: "0 < D"
    and wk: "wf3 k" and bq: "length (val q) = length (val k)"
    and s: "LocalActivationUnit_call (local_att self) tr (q, k) = Inr s"
    and ss: "shape s = [L]" "length (val s) = length (val k)"
            "\<forall>b<length (val k). length (val s ! b) = L"
  shows "\<exists>out. AttentionPoolingLayer_call self tr (q, k) = Inr out \<and> shape out = [D] \<and>
           length (val out) = length (val k) \<and>
           (\<forall>b<length (val k). val out ! b =
              map (\<lambda>j. sum_list (map (\<lambda>i. (if val k ! b ! i ! 0 \<noteq> 0 then val s ! b ! i else 0)
                                            * val k ! b ! i ! j) [0..<L])) [0..<D])"
proof -
  let ?m = "\<lparr>shape = [L], val = map (map (\<lambda>r. r ! 0 \<noteq> 0)) (val k)\<rparr>"
  let ?w = "\<lparr>shape = [L],
             val = map2 (\<lambda>cs (xs, ys). map2 (\<lambda>m (x, y). if m then x else y) cs (zip xs ys))
                        (val ?m) (zip (val s) (val (tf_zeros_like s)))\<rparr>"
  have w: "tf_where ?m s (tf_zeros_like s) = Inr ?w"
    using ss(1) by (simp add: tf_where_def tf_zeros_like_def)
  let ?e = "tf_expand_dims1 ?w"
  have se: "shape ?e = [1, L]" by (simp add: tf_expand_dims1_def)
  let ?p = "\<lparr>shape = [1, D],
             val = map2 (\<lambda>ma mb. map (\<lambda>row. map (\<lambda>j. sum_list (map (\<lambda>i. row ! i * mb ! i ! j) [0..<L]))
                                               [0..<D]) ma) (val ?e) (val k)\<rparr>"
  have p: "tf_matmul ?e k = Inr ?p"
    using k by (simp add: tf_matmul_def tf_expand_dims1_def)
  let ?out = "\<lparr>shape = [D], val = map (\<lambda>ex. ex ! 0) (val ?p)\<rparr>"
  have o: "tf_squeeze_axis1 ?p = Inr ?out"
    by (simp add: tf_squeeze_axis1_def)
  have c: "AttentionPoolingLayer_call self tr (q, k) = Inr ?out"
    using key_masks_Inr[OF k d] s w p o
    by (simp add: AttentionPoolingLayer_call_def Let_def del: tensor.simps)
  have lw: "length (val ?w) = length (val k)"
    using ss(2) by (simp add: tf_zeros_like_def)
  have wb: "val ?w ! b ! i = (if val k ! b ! i ! 0 \<noteq> 0 then val s ! b ! i else 0)"
    if "b < length (val k)" "i < L" for b i
  proof -
    have "length (val k ! b) = L" using wk k that by (simp add: wf3_def list_all_length)
    moreover have "length (val s ! b) = L" using ss(3) that by simp
    ultimately show ?thesis using that ss(2) by (simp add: tf_zeros_like_def)
  qed
  have ob: "val ?out ! b = map (\<lambda>j. sum_list (map (\<lambda>i. (if val k ! b ! i ! 0 \<noteq> 0 then val s ! b ! i else 0)
                                            * val k ! b ! i ! j) [0..<L])) [0..<D]"
    if b: "b < length (val k)" for b
  proof -
    have "val ?out ! b = map (\<lambda>j. sum_list (map (\<lambda>i. val ?w ! b ! i * val k ! b ! i ! j) [0..<L])) [0..<D]"
      using b lw by (simp add: tf_expand_dims1_def)
    also have "\<dots> = map (\<lambda>j. sum_list (map (\<lambda>i. (if val k ! b ! i ! 0 \<noteq> 0 then val s ! b ! i else 0)
                                            * val k ! b ! i ! j) [0..<L])) [0..<D]"
      using wb[OF b] by (intro map_cong refl arg_cong[where f = sum_list]) simp
    finally show ?thesis .
  qed
  have lo: "length (val ?out) = length (val k)"
    using lw by (simp add: tf_expand_dims1_def)
  show ?thesis
    using c lo ob by (intro exI[of _ ?out]) simp
qed

subsection \<open>Concatenating a list of inputs\<close>

text \<open>
  C8. \<open>concat_input_list\<close> on the empty list returns \<open>None\<close>; on a list of exactly one
  input it returns that very input, neither reshaped nor wrapped; on a list of more than one
  input (of shapes that can be concatenated along axis 1) it returns a tensor whose axis-1
  width is the sum of the inputs' widths and whose value is, example by example, the inputs'
  values appended in order.
\<close>

theorem concat_input_list_cases:
  "concat_input_list [] = Inr None \<and>
   concat_input_list [x] = Inr (Some x) \<and>
   (1 < length xs \<and> concat_shapes_ok (map kshape xs) \<longrightarrow>
     (\<exists>t. concat_input_list xs = Inr (Some t) \<and>
          kshape t = sum_list (map (\<lambda>x. hd (kshape x)) xs) # tl (kshape (hd xs)) \<and>
          (\<forall>env vs B. map (\<lambda>x. krun x env) xs = map Inr vs \<and> list_all (\<lambda>v. length v = B) vs \<longrightarrow>
             krun t env = Inr (map (\<lambda>b. concat (map (\<lambda>v. v ! b) vs)) [0..<B]))))"
proof (intro conjI impI)
  show "concat_input_list [] = Inr None" by (simp add: concat_input_list_def)
  show "concat_input_list [x] = Inr (Some x)" by (simp add: concat_input_list_def)
next
  assume h: "1 < length xs \<and> concat_shapes_ok (map kshape xs)"
  then have ne: "xs \<noteq> []" by auto
  let ?t = "\<lparr>kshape = sum_list (map (\<lambda>t. hd (kshape t)) xs) # tl (kshape (hd xs)),
            krun = (\<lambda>env. ebind (sequence_e (map (\<lambda>t. krun t env) xs)) concat_axis1)\<rparr>"
  have c: "concat_input_list xs = Inr (Some ?t)"
    using h ne
    by (simp add: concat_input_list_def Concatenate_axis1_def ebind_def Let_def comp_def hd_map)
  have r: "krun ?t env = Inr (map (\<lambda>b. concat (map (\<lambda>v. v ! b) vs)) [0..<B])"
    if a: "map (\<lambda>x. krun x env) xs = map Inr vs \<and> list_all (\<lambda>v. length v = B) vs" for env vs B
  proof -
    have s: "sequence_e (map (\<lambda>t. krun t env) xs) = Inr vs"
      using a by (simp add: sequence_e_Inr)
    have "length vs = length xs" using a by (metis length_map)
    then have "vs \<noteq> []" using ne by auto
    then have "length (hd vs) = B" using a by (cases vs) auto
    then show ?thesis using s a by (simp add: ebind_def concat_axis1_def)
  qed
  show "\<exists>t. concat_input_list xs = Inr (Some t) \<and>
          kshape t = sum_list (map (\<lambda>x. hd (kshape x)) xs) # tl (kshape (hd xs)) \<and>
          (\<forall>env vs B. map (\<lambda>x. krun x env) xs = map Inr vs \<and> list_all (\<lambda>v. length v = B) vs \<longrightarrow>
             krun t env = Inr (map (\<lambda>b. concat (map (\<lambda>v. v ! b) vs)) [0..<B]))"
    using c r by (intro exI[of _ ?t]) simp
qed

theorem concat_input_list_cases_witness:
  "concat_input_list ([] :: (unit, real) ktensor list) = Inr None \<and>
   concat_input_list [\<lparr>kshape = [1], krun = (\<lambda>u::unit. Inr [[1::real], [2]])\<rparr>]
     = Inr (Some \<lparr>kshape = [1], krun = (\<lambda>u::unit. Inr [[1::real], [2]])\<rparr>) \<and>
   (\<exists>t. concat_input_list [\<lparr>kshape = [1], krun = (\<lambda>u::unit. Inr [[1::real], [2]])\<rparr>,
                            \<lparr>kshape = [2], krun = (\<lambda>u. Inr [[3, 4], [5, 6]])\<rparr>] = Inr (Some t) \<and>
        kshape t = [3] \<and> krun t () = Inr [[1, 3, 4], [2, 5, 6]])"
proof -
  let ?a = "\<lparr>kshape = [1], krun = (\<lambda>u::unit. Inr [[1::real], [2]])\<rparr>"
  let ?b = "\<lparr>kshape = [2], krun = (\<lambda>u::unit. Inr [[3::real, 4], [5, 6]])\<rparr>"
  have ok: "1 < length [?a, ?b] \<and> concat_shapes_ok (map kshape [?a, ?b])"
    by (simp add: concat_shapes_ok_def)
  note th = concat_input_list_cases [of ?a "[?a, ?b]"]
  from th ok obtain t where t: "concat_input_list [?a, ?b] = Inr (Some t)"
      "kshape t = sum_list (map (\<lambda>x. hd (kshape x)) [?a, ?b]) # tl (kshape (hd [?a, ?b]))"
      "\<forall>env vs B. map (\<lambda>x. krun x env) [?a, ?b] = map Inr vs \<and> list_all (\<lambda>v. length v = B) vs \<longrightarrow>
             krun t env = Inr (map (\<lambda>b. concat (map (\<lambda>v. v ! b) vs)) [0..<B])"
    by blast
  have "krun t () = Inr (map (\<lambda>b. concat (map (\<lambda>v. v ! b) [[[1::real], [2]], [[3, 4], [5, 6]]])) [0..<2])"
    using t(3) [rule_format, of "()" "[[[1], [2]], [[3, 4], [5, 6]]]" 2] by simp
  then have "krun t () = Inr [[1, 3, 4], [2, 5, 6]]" by (simp add: upt_rec)
  with t(1,2) th show ?thesis by auto
qed

lemma sum_list_single_index:
  fixes f :: "nat \<Rightarrow> real"
  assumes "i0 < L"
  shows "sum_list (map (\<lambda>i. (if i = i0 then c else 0) * f i) [0..<L]) = c * f i0"
proof -
  have "sum_list (map (\<lambda>i. (if i = i0 then c else 0) * f i) [0..<L])
          = (\<Sum>i\<in>{0..<L}. (if i = i0 then c * f i else 0))"
    by (simp add: interv_sum_list_conv_sum_set_nat if_distrib[of "\<lambda>x. x * _"] cong: if_cong)
  also have "\<dots> = c * f i0" using assms by (simp add: sum.delta)
  finally show ?thesis .
qed

subsection \<open>The validity mask\<close>

text \<open>
  C3. For a keys tensor of shape \<open>L x D\<close> (a key embedding has a first coordinate, so
  \<open>0 < D\<close>), the layer's mask has length \<open>L\<close> per example and marks position \<open>i\<close> valid
  exactly when the first coordinate of the key at \<open>i\<close> is not zero.
\<close>

theorem key_masks_first_coordinate:
  assumes "shape k = [L, D]" "0 < D" "wf3 k"
  shows "\<exists>m. key_masks k = Inr m \<and> shape m = [L] \<and> length (val m) = length (val k) \<and>
           (\<forall>b<length (val k). length (val m ! b) = L \<and>
              (\<forall>i<L. val m ! b ! i \<longleftrightarrow> val k ! b ! i ! 0 \<noteq> 0))"
  using assms by (simp add: key_masks_Inr wf3_def list_all_length)

theorem key_masks_first_coordinate_witness:
  "\<exists>m. key_masks \<lparr>shape = [3, 2], val = [[[1, 0], [0, 5], [-1, 1]]]\<rparr> = Inr m \<and> shape m = [3] \<and>
       val m = [[True, False, True]]"
proof -
  let ?k = "\<lparr>shape = [3, 2], val = [[[1, 0], [0, 5], [-1, 1::real]]]\<rparr>"
  have h: "shape ?k = [3, 2]" "0 < (2::nat)" "wf3 ?k" by (simp_all add: wf3_def)
  from key_masks_first_coordinate[OF h] obtain m where m: "key_masks ?k = Inr m" "shape m = [3]"
    "length (val m) = length (val ?k)"
    "\<forall>b<length (val ?k). length (val m ! b) = 3 \<and> (\<forall>i<3. val m ! b ! i \<longleftrightarrow> val ?k ! b ! i ! 0 \<noteq> 0)"
    by blast
  from m(3) obtain r where r: "val m = [r]" by (cases "val m") auto
  from m(4) r have "length r = 3" "r ! 0" "\<not> r ! 1" "r ! 2" by (auto simp: numeral_3_eq_3)
  then have "r = [True, False, True]"
    by (cases r; cases "tl r"; cases "tl (tl r)") (auto simp: numeral_2_eq_2)
  with m r show ?thesis by auto
qed

subsection \<open>Attention pooling\<close>

text \<open>
  C1. When the first coordinate of every key embedding of the batch is zero, so that every
  history position is masked, the layer returns a value and not an error, and the value is
  the all-zero vector of width \<open>D\<close> for every example, for every positive width \<open>D\<close>, every
  length \<open>L\<close> (also 0), every choice of hidden widths and every value of the weights.
\<close>

theorem attention_pooling_all_masked:
  assumes "shape q = [1, D]" "shape k = [L, D]" "0 < D" "wf3 k" "length (val q) = length (val k)"
    and masked: "\<forall>ex\<in>set (val k). \<forall>r\<in>set ex. r ! 0 = 0"
  shows "AttentionPoolingLayer_call (AttentionPoolingLayer_init hu params) tr (q, k)
           = Inr \<lparr>shape = [D], val = replicate (length (val k)) (replicate D 0)\<rparr>"
proof -
  let ?self = "AttentionPoolingLayer_init hu params"
  have la: "local_att ?self = LocalActivationUnit_init hu ''prelu'' params"
    by (simp add: AttentionPoolingLayer_init_def)
  obtain s where s: "LocalActivationUnit_call (local_att ?self) tr (q, k) = Inr s" "shape s = [L]"
      "length (val s) = length (val k)" "\<forall>b<length (val k). length (val s ! b) = L"
    using LocalActivationUnit_call_Inr[OF assms(1,2), of "local_att ?self" tr]
          LocalActivationUnit_init_linear[of hu "''prelu''" params]
          LocalActivationUnit_init_prelu_built[of hu params] assms(5)
    unfolding la by auto
  obtain out where out: "AttentionPoolingLayer_call ?self tr (q, k) = Inr out" "shape out = [D]"
      "length (val out) = length (val k)"
      "\<forall>b<length (val k). val out ! b =
              map (\<lambda>j. sum_list (map (\<lambda>i. (if val k ! b ! i ! 0 \<noteq> 0 then val s ! b ! i else 0)
                                            * val k ! b ! i ! j) [0..<L])) [0..<D]"
    using AttentionPoolingLayer_call_formula[OF assms(1,2,3,4,5) s] by blast
  have z: "val k ! b ! i ! 0 = 0" if "b < length (val k)" "i < L" for b i
  proof -
    have "length (val k ! b) = L" using assms(2,4) that by (simp add: wf3_def list_all_length)
    then show ?thesis using masked that by (metis nth_mem)
  qed
  have "val out ! b = replicate D 0" if b: "b < length (val k)" for b
  proof -
    have "val out ! b = map (\<lambda>j. sum_list (map (\<lambda>i. 0) [0..<L])) [0..<D]"
      unfolding out(4)[rule_format, OF b]
      using z[OF b] by (intro map_cong refl arg_cong[where f = sum_list]) simp
    also have "\<dots> = replicate D 0" by (simp add: map_replicate_const sum_list_replicate)
    finally show ?thesis .
  qed
  then have "val out = replicate (length (val k)) (replicate D 0)"
    using out(3) by (intro nth_equalityI) auto
  with out(1,2) show ?thesis by (cases out) simp
qed

theorem attention_pooling_all_masked_witness:
  "AttentionPoolingLayer_call (AttentionPoolingLayer_init default_hidden_units example_params) False
     (\<lparr>shape = [1, 2], val = [[[1, 2]], [[3, 4]]]\<rparr>,
      \<lparr>shape = [3, 2], val = [[[0, 7], [0, 5], [0, 1]], [[0, 0], [0, -2], [0, 9]]]\<rparr>)
   = Inr \<lparr>shape = [2], val = [[0, 0], [0, 0]]\<rparr>"
proof -
  let ?q = "\<lparr>shape = [1, 2], val = [[[1, 2]], [[3, 4::real]]]\<rparr>"
  let ?k = "\<lparr>shape = [3, 2], val = [[[0, 7], [0, 5], [0, 1]], [[0, 0], [0, -2], [0, 9::real]]]\<rparr>"
  have h: "shape ?q = [1, 2]" "shape ?k = [3, 2]" "0 < (2::nat)" "wf3 ?k"
    "length (val ?q) = length (val ?k)" "\<forall>ex\<in>set (val ?k). \<forall>r\<in>set ex. r ! 0 = 0"
    by (simp_all add: wf3_def)
  show ?thesis
    using attention_pooling_all_masked[OF h, of default_hidden_units example_params False]
    by (simp add: numeral_2_eq_2)
qed

text \<open>
  C2. The pooled output is the product of the row of masked scores with the keys: the score
  of a masked position is replaced by 0, the scores of the other positions enter as they
  are, with no normalisation. Hence where exactly one position is unmasked, the output is
  that position's key scaled by that position's score.
\<close>

theorem attention_pooling_linear_weights:
  assumes "shape q = [1, D]" "shape k = [L, D]" "0 < D" "wf3 k" "length (val q) = length (val k)"
  shows "\<exists>s out.
     LocalActivationUnit_call (local_att (AttentionPoolingLayer_init hu params)) tr (q, k) = Inr s \<and>
     AttentionPoolingLayer_call (AttentionPoolingLayer_init hu params) tr (q, k) = Inr out \<and>
     shape out = [D] \<and> length (val out) = length (val k) \<and>
     (\<forall>b<length (val k).
        val out ! b =
          map (\<lambda>j. sum_list (map (\<lambda>i. (if val k ! b ! i ! 0 \<noteq> 0 then val s ! b ! i else 0)
                                        * val k ! b ! i ! j) [0..<L])) [0..<D] \<and>
        (\<forall>i0<L. val k ! b ! i0 ! 0 \<noteq> 0 \<and> (\<forall>i<L. i \<noteq> i0 \<longrightarrow> val k ! b ! i ! 0 = 0) \<longrightarrow>
           val out ! b = map (\<lambda>x. val s ! b ! i0 * x) (val k ! b ! i0)))"
proof -
  let ?self = "AttentionPoolingLayer_init hu params"
  have la: "local_att ?self = LocalActivationUnit_init hu ''prelu'' params"
    by (simp add: AttentionPoolingLayer_init_def)
  obtain s where s: "LocalActivationUnit_call (local_att ?self) tr (q, k) = Inr s" "shape s = [L]"
      "length (val s) = length (val k)" "\<forall>b<length (val k). length (val s ! b) = L"
    using LocalActivationUnit_call_Inr[OF assms(1,2), of "local_att ?self" tr]
          LocalActivationUnit_init_linear[of hu "''prelu''" params]
          LocalActivationUnit_init_prelu_built[of hu params] assms(5)
    unfolding la by auto
  obtain out where out: "AttentionPoolingLayer_call ?self tr (q, k) = Inr out" "shape out = [D]"
      "length (val out) = length (val k)"
      "\<forall>b<length (val k). val out ! b =
              map (\<lambda>j. sum_list (map (\<lambda>i. (if val k ! b ! i ! 0 \<noteq> 0 then val s ! b ! i else 0)
                                            * val k ! b ! i ! j) [0..<L])) [0..<D]"
    using AttentionPoolingLayer_call_formula[OF assms(1,2,3,4,5) s] by blast
  have single: "val out ! b = map (\<lambda>x. val s ! b ! i0 * x) (val k ! b ! i0)"
    if b: "b < length (val k)" and i0: "i0 < L" and u: "val k ! b ! i0 ! 0 \<noteq> 0"
      and m: "\<forall>i<L. i \<noteq> i0 \<longrightarrow> val k ! b ! i ! 0 = 0" for b i0
  proof -
    have lk: "length (val k ! b ! i0) = D"
      using assms(2,4) b i0 by (simp add: wf3_def list_all_length)
    have w: "(if val k ! b ! i ! 0 \<noteq> 0 then val s ! b ! i else 0)
               = (if i = i0 then val s ! b ! i0 else 0)" if "i < L" for i
      using that u m by auto
    have "val out ! b = map (\<lambda>j. sum_list (map (\<lambda>i. (if i = i0 then val s ! b ! i0 else 0)
                                            * val k ! b ! i ! j) [0..<L])) [0..<D]"
      unfolding out(4)[rule_format, OF b]
      using w by (intro map_cong refl arg_cong[where f = sum_list]) simp
    also have "\<dots> = map (\<lambda>j. val s ! b ! i0 * val k ! b ! i0 ! j) [0..<D]"
      using sum_list_single_index[OF i0] by simp
    also have "\<dots> = map (\<lambda>x. val s ! b ! i0 * x) (val k ! b ! i0)"
      using lk by (intro nth_equalityI) auto
    finally show ?thesis .
  qed
  show ?thesis
    using s(1) out single by (intro exI[of _ s] exI[of _ out]) simp
qed


theorem attention_pooling_linear_weights_witness:
  "\<exists>s out.
     LocalActivationUnit_call
       (local_att (AttentionPoolingLayer_init default_hidden_units example_params)) False
       (\<lparr>shape = [1, 2], val = [[[1, 2]]]\<rparr>, \<lparr>shape = [3, 2], val = [[[0, 7], [3, 5], [0, 1]]]\<rparr>) = Inr s \<and>
     AttentionPoolingLayer_call (AttentionPoolingLayer_init default_hidden_units example_params) False
       (\<lparr>shape = [1, 2], val = [[[1, 2]]]\<rparr>, \<lparr>shape = [3, 2], val = [[[0, 7], [3, 5], [0, 1]]]\<rparr>) = Inr out \<and>
     val out ! 0 = [val s ! 0 ! 1 * 3, val s ! 0 ! 1 * 5]"
proof -
  let ?q = "\<lparr>shape = [1, 2], val = [[[1, 2::real]]]\<rparr>"
  let ?k = "\<lparr>shape = [3, 2], val = [[[0, 7], [3, 5], [0, 1::real]]]\<rparr>"
  have h: "shape ?q = [1, 2]" "shape ?k = [3, 2]" "0 < (2::nat)" "wf3 ?k"
    "length (val ?q) = length (val ?k)"
    by (simp_all add: wf3_def)
  have u: "val ?k ! 0 ! 1 ! 0 \<noteq> 0 \<and> (\<forall>i<3. i \<noteq> 1 \<longrightarrow> val ?k ! 0 ! i ! 0 = 0)"
    by (simp add: numeral_3_eq_3 less_Suc_eq)
  from attention_pooling_linear_weights[OF h, of default_hidden_units example_params False]
  obtain s out where so:
    "LocalActivationUnit_call (local_att (AttentionPoolingLayer_init default_hidden_units example_params))
       False (?q, ?k) = Inr s"
    "AttentionPoolingLayer_call (AttentionPoolingLayer_init default_hidden_units example_params)
       False (?q, ?k) = Inr out"
    "\<forall>b<length (val ?k). (\<forall>i0<3. val ?k ! b ! i0 ! 0 \<noteq> 0 \<and> (\<forall>i<3. i \<noteq> i0 \<longrightarrow> val ?k ! b ! i ! 0 = 0) \<longrightarrow>
           val out ! b = map (\<lambda>x. val s ! b ! i0 * x) (val ?k ! b ! i0))"
    by blast
  have "val out ! 0 = map (\<lambda>x. val s ! 0 ! 1 * x) (val ?k ! 0 ! 1)"
    using so(3)[rule_format, of 0 1] u by simp
  then have "val out ! 0 = [val s ! 0 ! 1 * 3, val s ! 0 ! 1 * 5]" by simp
  with so(1,2) show ?thesis by blast
qed

subsection \<open>Local activation unit\<close>

text \<open>
  C4. For a query of width \<open>D\<close> and keys of shape \<open>L x D\<close>, the unit's per-position input is
  the query, the key, their difference and their product, \<open>4 * D\<close> wide; the hidden layers
  have the widths given at construction, 256, 128 and 64 by default; the last layer is a
  linear projection to one unit, and the score of a position is its output, not normalised.
  The result holds one score per history position, for every \<open>L\<close>, also 0.
\<close>

theorem local_activation_unit_scores:
  assumes "shape q = [1, D]" "shape k = [L, D]" "wf3 q" "wf3 k" "length (val q) = length (val k)"
    and "act = ''prelu'' \<or> (\<forall>i<length hu. alpha (p_dice (params i)) \<noteq> None)"
  shows "map units (dnn (LocalActivationUnit_init default_hidden_units act params)) = [256, 128, 64] \<and>
     map units (dnn (LocalActivationUnit_init hu act params)) = hu \<and>
     units (linear_l (LocalActivationUnit_init hu act params)) = 1 \<and>
     activation (linear_l (LocalActivationUnit_init hu act params)) = Linear \<and>
     (\<exists>a h s.
        LocalActivationUnit_att_input (q, k) = Inr a \<and> shape a = [L, 4 * D] \<and>
        (\<forall>b<length (val k). \<forall>i<L.
           val a ! b ! i = val q ! b ! 0 @ val k ! b ! i @ map2 (-) (val q ! b ! 0) (val k ! b ! i)
                             @ map2 (*) (val q ! b ! 0) (val k ! b ! i) \<and>
           length (val a ! b ! i) = 4 * D) \<and>
        fold_e (\<lambda>fc att_out. Dense_call3 fc tr att_out) (dnn (LocalActivationUnit_init hu act params)) a
          = Inr h \<and>
        shape h = [L, if hu = [] then 4 * D else last hu] \<and>
        LocalActivationUnit_call (LocalActivationUnit_init hu act params) tr (q, k) = Inr s \<and>
        shape s = [L] \<and> length (val s) = length (val k) \<and>
        (\<forall>b<length (val k). length (val s ! b) = L \<and>
           (\<forall>i<L. val s ! b ! i
                     = dense_row (linear_l (LocalActivationUnit_init hu act params)) (val h ! b ! i) ! 0)))"
proof -
  let ?self = "LocalActivationUnit_init hu act params"
  have built: "lau_built ?self"
    using assms(6)
    by (auto simp: lau_built_def LocalActivationUnit_init_def Dense_init_def list_all_length)
  obtain a h s where r: "LocalActivationUnit_att_input (q, k) = Inr a"
      "fold_e (\<lambda>fc att_out. Dense_call3 fc tr att_out) (dnn ?self) a = Inr h"
      "LocalActivationUnit_call ?self tr (q, k) = Inr s"
      "shape s = [L]" "length (val s) = length (val q)"
      "\<forall>b<length (val q). length (val s ! b) = L \<and>
              (\<forall>i<L. val s ! b ! i = dense_row (linear_l ?self) (val h ! b ! i) ! 0)"
    using LocalActivationUnit_call_Inr[OF assms(1,2) _ _ built, of tr]
          LocalActivationUnit_init_linear[of hu act params] by blast
  have sa: "shape a = [L, 4 * D]" using att_input_shape[OF assms(1,2)] r(1) by auto
  have va: "val a ! b ! i = val q ! b ! 0 @ val k ! b ! i @ map2 (-) (val q ! b ! 0) (val k ! b ! i)
                             @ map2 (*) (val q ! b ! 0) (val k ! b ! i) \<and>
            length (val a ! b ! i) = 4 * D" if "b < length (val k)" "i < L" for b i
  proof -
    have "length (val q ! b ! 0) = D" "length (val k ! b ! i) = D"
      using assms(1-5) that by (auto simp: wf3_def list_all_length)
    then show ?thesis using att_input_val[OF assms(1-5) r(1) that] by simp
  qed
  have "length (shape h) = 2 \<and> shape h ! 0 = shape a ! 0 \<and>
         shape h ! 1 = (if dnn ?self = [] then shape a ! 1 else units (last (dnn ?self)))"
    using fold_dense_Inr[OF r(2)] sa by simp
  moreover have "dnn ?self = [] \<longleftrightarrow> hu = []" by (simp add: LocalActivationUnit_init_def)
  moreover have "hu \<noteq> [] \<Longrightarrow> units (last (dnn ?self)) = last hu"
    using LocalActivationUnit_init_units[of hu act params]
    by (metis (no_types, lifting) last_map map_is_Nil_conv)
  ultimately have sh: "shape h = [L, if hu = [] then 4 * D else last hu]"
    using sa by (cases "shape h"; cases "tl (shape h)") auto
  have du: "map units (dnn (LocalActivationUnit_init default_hidden_units act params)) = [256, 128, 64]"
    using LocalActivationUnit_init_units[of default_hidden_units act params]
    by (simp add: default_hidden_units_def)
  have va': "\<forall>b<length (val k). \<forall>i<L.
           val a ! b ! i = val q ! b ! 0 @ val k ! b ! i @ map2 (-) (val q ! b ! 0) (val k ! b ! i)
                             @ map2 (*) (val q ! b ! 0) (val k ! b ! i) \<and>
           length (val a ! b ! i) = 4 * D"
    using va by blast
  have ls: "length (val s) = length (val k)" using r(5) assms(5) by simp
  have vs: "\<forall>b<length (val k). length (val s ! b) = L \<and>
           (\<forall>i<L. val s ! b ! i = dense_row (linear_l ?self) (val h ! b ! i) ! 0)"
    using r(6) assms(5) by simp
  have ex: "\<exists>a h s.
        LocalActivationUnit_att_input (q, k) = Inr a \<and> shape a = [L, 4 * D] \<and>
        (\<forall>b<length (val k). \<forall>i<L.
           val a ! b ! i = val q ! b ! 0 @ val k ! b ! i @ map2 (-) (val q ! b ! 0) (val k ! b ! i)
                             @ map2 (*) (val q ! b ! 0) (val k ! b ! i) \<and>
           length (val a ! b ! i) = 4 * D) \<and>
        fold_e (\<lambda>fc att_out. Dense_call3 fc tr att_out) (dnn ?self) a = Inr h \<and>
        shape h = [L, if hu = [] then 4 * D else last hu] \<and>
        LocalActivationUnit_call ?self tr (q, k) = Inr s \<and>
        shape s = [L] \<and> length (val s) = length (val k) \<and>
        (\<forall>b<length (val k). length (val s ! b) = L \<and>
           (\<forall>i<L. val s ! b ! i = dense_row (linear_l ?self) (val h ! b ! i) ! 0))"
    apply (rule exI[of _ a], rule exI[of _ h], rule exI[of _ s])
    apply (intro conjI)
            apply (rule r(1))
           apply (rule sa)
          apply (rule va')
         apply (rule r(2))
        apply (rule sh)
       apply (rule r(3))
      apply (rule r(4))
     apply (rule ls)
    apply (rule vs)
    done
  show ?thesis
    apply (intro conjI)
        apply (rule du)
       apply (rule LocalActivationUnit_init_units)
      apply (rule LocalActivationUnit_init_linear[THEN conjunct1])
     apply (rule LocalActivationUnit_init_linear[THEN conjunct2])
    apply (rule ex)
    done
qed


theorem local_activation_unit_scores_witness:
  "(\<exists>s. LocalActivationUnit_call (LocalActivationUnit_init default_hidden_units ''prelu'' example_params)
          False (\<lparr>shape = [1, 2], val = [[[1, 2]]]\<rparr>, \<lparr>shape = [2, 2], val = [[[1, 0], [0, 5]]]\<rparr>) = Inr s \<and>
        shape s = [2] \<and> length (val s) = 1 \<and> length (val s ! 0) = 2) \<and>
   (\<exists>s. LocalActivationUnit_call (LocalActivationUnit_init default_hidden_units ''prelu'' example_params)
          False (\<lparr>shape = [1, 2], val = [[[1, 2]]]\<rparr>, \<lparr>shape = [0, 2], val = [[]]\<rparr>) = Inr s \<and>
        shape s = [0] \<and> val s = [[]])"
proof -
  let ?q = "\<lparr>shape = [1, 2], val = [[[1, 2::real]]]\<rparr>"
  let ?k = "\<lparr>shape = [2, 2], val = [[[1, 0], [0, 5::real]]]\<rparr>"
  let ?e = "\<lparr>shape = [0, 2], val = [[] :: real list list]\<rparr>"
  have h: "shape ?q = [1, 2]" "shape ?k = [2, 2]" "wf3 ?q" "wf3 ?k" "length (val ?q) = length (val ?k)"
    "''prelu'' = ''prelu'' \<or> (\<forall>i<length default_hidden_units. alpha (p_dice (example_params i)) \<noteq> None)"
    by (simp_all add: wf3_def)
  have e: "shape ?q = [1, 2]" "shape ?e = [0, 2]" "wf3 ?q" "wf3 ?e" "length (val ?q) = length (val ?e)"
    by (simp_all add: wf3_def)
  from local_activation_unit_scores[OF h, of False]
  obtain s where s: "LocalActivationUnit_call
      (LocalActivationUnit_init default_hidden_units ''prelu'' example_params) False (?q, ?k) = Inr s"
    "shape s = [2]" "length (val s) = length (val ?k)" "\<forall>b<length (val ?k). length (val s ! b) = 2"
    by blast
  from local_activation_unit_scores[OF e h(6), of False]
  obtain s' where s': "LocalActivationUnit_call
      (LocalActivationUnit_init default_hidden_units ''prelu'' example_params) False (?q, ?e) = Inr s'"
    "shape s' = [0]" "length (val s') = length (val ?e)" "\<forall>b<length (val ?e). length (val s' ! b) = 0"
    by blast
  from s'(3,4) have "val s' = [[]]" by (cases "val s'") auto
  with s s' show ?thesis by auto
qed

subsection \<open>Dice\<close>

lemma sigmoid_range: "0 < sigmoid v \<and> sigmoid v < 1"
proof -
  have "0 < exp (- v)" by simp
  then show ?thesis by (simp add: sigmoid_def add_pos_pos)
qed

lemma bn_row_plain:
  assumes "\<not> center self" "\<not> scale self" "c < length r"
  shows "bn_row self tr rows r ! c
           = (r ! c - bn_mean self tr rows c) / sqrt (bn_variance self tr rows c + epsilon self)"
  using assms by (simp add: bn_row_def)

text \<open>
  The blend on one block of rows, normalised with the statistics of \<open>stats\<close>: the whole
  batch when the input is \<open>B x C\<close>, all rows of all examples when it is \<open>B x L x C\<close>.
\<close>

lemma Dice_block:
  assumes a: "length a = C" and b: "\<not> center B" "\<not> scale B"
    and r: "\<forall>r\<in>set rows. length r = C"
  shows "length (t_add (t_mul (t_scale a (t_rsub 1 (map (map sigmoid) (map (bn_row B tr stats) rows)))) rows)
                       (t_mul (map (map sigmoid) (map (bn_row B tr stats) rows)) rows)) = length rows"
    and "l < length rows \<Longrightarrow>
         length (t_add (t_mul (t_scale a (t_rsub 1 (map (map sigmoid) (map (bn_row B tr stats) rows)))) rows)
                       (t_mul (map (map sigmoid) (map (bn_row B tr stats) rows)) rows) ! l) = C"
    and "l < length rows \<Longrightarrow> c < C \<Longrightarrow>
         t_add (t_mul (t_scale a (t_rsub 1 (map (map sigmoid) (map (bn_row B tr stats) rows)))) rows)
               (t_mul (map (map sigmoid) (map (bn_row B tr stats) rows)) rows) ! l ! c
         = a ! c * (1 - sigmoid ((rows ! l ! c - bn_mean B tr stats c)
                                   / sqrt (bn_variance B tr stats c + epsilon B)))
             * rows ! l ! c
           + sigmoid ((rows ! l ! c - bn_mean B tr stats c)
                                   / sqrt (bn_variance B tr stats c + epsilon B))
             * rows ! l ! c"
proof -
  show "length (t_add (t_mul (t_scale a (t_rsub 1 (map (map sigmoid) (map (bn_row B tr stats) rows)))) rows)
                       (t_mul (map (map sigmoid) (map (bn_row B tr stats) rows)) rows)) = length rows"
    by (simp add: t_add_def t_mul_def t_scale_def t_rsub_def)
  have lr: "length (rows ! l) = C" if "l < length rows" for l
    using r that by simp
  show "length (t_add (t_mul (t_scale a (t_rsub 1 (map (map sigmoid) (map (bn_row B tr stats) rows)))) rows)
                       (t_mul (map (map sigmoid) (map (bn_row B tr stats) rows)) rows) ! l) = C"
    if "l < length rows"
    using that lr[OF that] a
    by (simp add: t_add_def t_mul_def t_scale_def t_rsub_def bn_row_def broadcast_list_def)
  show "t_add (t_mul (t_scale a (t_rsub 1 (map (map sigmoid) (map (bn_row B tr stats) rows)))) rows)
               (t_mul (map (map sigmoid) (map (bn_row B tr stats) rows)) rows) ! l ! c
         = a ! c * (1 - sigmoid ((rows ! l ! c - bn_mean B tr stats c)
                                   / sqrt (bn_variance B tr stats c + epsilon B)))
             * rows ! l ! c
           + sigmoid ((rows ! l ! c - bn_mean B tr stats c)
                                   / sqrt (bn_variance B tr stats c + epsilon B))
             * rows ! l ! c"
    if "l < length rows" "c < C"
    using that lr[OF that(1)] a b
    by (simp add: t_add_def t_mul_def t_scale_def t_rsub_def bn_row_def broadcast_list_def)
qed

lemma Dice_call3_blocks:
  assumes "alpha self = Some a"
  shows "Dice_call3 self tr x =
     Inr (map (\<lambda>rows. t_add (t_mul (t_scale a (t_rsub 1
                 (map (map sigmoid) (map (bn_row (bn self) tr (concat x)) rows)))) rows)
               (t_mul (map (map sigmoid) (map (bn_row (bn self) tr (concat x)) rows)) rows)) x)"
  unfolding Dice_call3_def Let_def assms option.case
  by (rule arg_cong[of _ _ Inr], rule nth_equalityI) simp_all

text \<open>
  C9. A fresh Dice layer normalises without learned shift and scale and has no \<open>alpha\<close> yet;
  \<open>build\<close> creates \<open>alpha\<close> with one entry per channel of the input's last dimension. On
  every input \<open>x\<close> the built layer returns \<open>alpha * (1 - p) * x + p * x\<close> entry by entry, where
  \<open>p\<close>, strictly between 0 and 1, is the logistic function of \<open>x\<close> minus the channel's mean
  over the square root of the channel's variance plus \<open>epsilon\<close>. This holds of a \<open>B x C\<close>
  input, and of a \<open>B x L x C\<close> input, the shape at which the layer is called as the
  activation of a fully-connected layer on a sequence; there the statistics of a channel
  are those of all rows of all examples.
\<close>

theorem Dice_blend:
  "center (bn Dice_init) = False \<and> scale (bn Dice_init) = False \<and> alpha Dice_init = None \<and>
   (input_shape \<noteq> [] \<longrightarrow>
      (\<exists>d a. Dice_build input_shape init self = Inr d \<and> alpha d = Some a \<and> bn d = bn self \<and>
             length a = last input_shape \<and> (\<forall>c<last input_shape. a ! c = init c))) \<and>
   (alpha self = Some a \<and> length a = C \<and> \<not> center (bn self) \<and> \<not> scale (bn self) \<and>
    shape x = [C] \<and> wf2 x \<longrightarrow>
      (\<exists>y. Dice_call self tr x = Inr y \<and> shape y = [C] \<and> length (val y) = length (val x) \<and>
         (\<forall>b<length (val x). length (val y ! b) = C \<and>
            (\<forall>c<C. \<exists>p. p = sigmoid ((val x ! b ! c - bn_mean (bn self) tr (val x) c)
                                       / sqrt (bn_variance (bn self) tr (val x) c + epsilon (bn self))) \<and>
                        0 < p \<and> p < 1 \<and>
                        val y ! b ! c = a ! c * (1 - p) * val x ! b ! c + p * val x ! b ! c)))) \<and>
   (alpha self = Some a \<and> length a = C \<and> \<not> center (bn self) \<and> \<not> scale (bn self) \<and>
    (\<forall>ex\<in>set x3. \<forall>r\<in>set ex. length r = C) \<longrightarrow>
      (\<exists>y. Dice_call3 self tr x3 = Inr y \<and> length y = length x3 \<and>
         (\<forall>b<length x3. length (y ! b) = length (x3 ! b) \<and>
            (\<forall>l<length (x3 ! b). length (y ! b ! l) = C \<and>
               (\<forall>c<C. \<exists>p. p = sigmoid ((x3 ! b ! l ! c - bn_mean (bn self) tr (concat x3) c)
                                          / sqrt (bn_variance (bn self) tr (concat x3) c
                                                    + epsilon (bn self))) \<and>
                           0 < p \<and> p < 1 \<and>
                           y ! b ! l ! c = a ! c * (1 - p) * x3 ! b ! l ! c + p * x3 ! b ! l ! c)))))"
proof (intro conjI impI)
  show "center (bn Dice_init) = False" "scale (bn Dice_init) = False" "alpha Dice_init = None"
    by (simp_all add: Dice_init_def BatchNormalization_init_def)
next
  assume "input_shape \<noteq> []"
  then show "\<exists>d a. Dice_build input_shape init self = Inr d \<and> alpha d = Some a \<and> bn d = bn self \<and>
             length a = last input_shape \<and> (\<forall>c<last input_shape. a ! c = init c)"
    by (simp add: Dice_build_def)
next
  assume h: "alpha self = Some a \<and> length a = C \<and> \<not> center (bn self) \<and> \<not> scale (bn self) \<and>
    shape x = [C] \<and> wf2 x"
  let ?xn = "BatchNormalization_call (bn self) tr (val x)"
  let ?xp = "map (map sigmoid) ?xn"
  let ?y = "\<lparr>shape = shape x,
             val = t_add (t_mul (t_scale a (t_rsub 1 ?xp)) (val x)) (t_mul ?xp (val x))\<rparr>"
  have c: "Dice_call self tr x = Inr ?y" using h by (simp add: Dice_call_def Let_def)
  have lx: "length (val x ! b) = C" if "b < length (val x)" for b
    using h that by (simp add: wf2_def list_all_length)
  have ly: "length (val ?y) = length (val x)"
    by (simp add: t_add_def t_mul_def t_scale_def t_rsub_def BatchNormalization_call_def)
  have lyb: "length (val ?y ! b) = C" if "b < length (val x)" for b
    using that lx[OF that] h
    by (simp add: t_add_def t_mul_def t_scale_def t_rsub_def BatchNormalization_call_def bn_row_def
          broadcast_list_def)
  have v: "val ?y ! b ! c =
             a ! c * (1 - sigmoid ((val x ! b ! c - bn_mean (bn self) tr (val x) c)
                                       / sqrt (bn_variance (bn self) tr (val x) c + epsilon (bn self))))
               * val x ! b ! c
             + sigmoid ((val x ! b ! c - bn_mean (bn self) tr (val x) c)
                                       / sqrt (bn_variance (bn self) tr (val x) c + epsilon (bn self)))
               * val x ! b ! c"
    if "b < length (val x)" "c < C" for b c
    using that lx[OF that(1)] h
    by (simp add: t_add_def t_mul_def t_scale_def t_rsub_def BatchNormalization_call_def bn_row_def
          broadcast_list_def)
  show "\<exists>y. Dice_call self tr x = Inr y \<and> shape y = [C] \<and> length (val y) = length (val x) \<and>
         (\<forall>b<length (val x). length (val y ! b) = C \<and>
            (\<forall>c<C. \<exists>p. p = sigmoid ((val x ! b ! c - bn_mean (bn self) tr (val x) c)
                                       / sqrt (bn_variance (bn self) tr (val x) c + epsilon (bn self))) \<and>
                        0 < p \<and> p < 1 \<and>
                        val y ! b ! c = a ! c * (1 - p) * val x ! b ! c + p * val x ! b ! c))"
    apply (rule exI[of _ ?y])
    apply (intro conjI allI impI)
        apply (rule c)
       apply (simp add: h)
      apply (rule ly)
     apply (erule lyb)
    apply (simp only: simp_thms ex_simps sigmoid_range)
    apply (erule (1) v)
    done
next
  assume h: "alpha self = Some a \<and> length a = C \<and> \<not> center (bn self) \<and> \<not> scale (bn self) \<and>
    (\<forall>ex\<in>set x3. \<forall>r\<in>set ex. length r = C)"
  let ?blend = "\<lambda>rows. t_add (t_mul (t_scale a (t_rsub 1
                 (map (map sigmoid) (map (bn_row (bn self) tr (concat x3)) rows)))) rows)
               (t_mul (map (map sigmoid) (map (bn_row (bn self) tr (concat x3)) rows)) rows)"
  let ?y = "map ?blend x3"
  from h have al: "alpha self = Some a" and la: "length a = C"
    and nc: "\<not> center (bn self)" and ns: "\<not> scale (bn self)" by simp_all
  have c: "Dice_call3 self tr x3 = Inr ?y" by (rule Dice_call3_blocks[OF al])
  have rows: "\<forall>r\<in>set (x3 ! b). length r = C" if "b < length x3" for b
  proof -
    have "x3 ! b \<in> set x3" using that by simp
    then show ?thesis using h by blast
  qed
  have ly: "length ?y = length x3" by simp
  have lyb: "length (?y ! b) = length (x3 ! b)" if "b < length x3" for b
    using that Dice_block(1)[OF la nc ns rows[OF that], of tr "concat x3"] by simp
  have lyl: "length (?y ! b ! l) = C" if "b < length x3" "l < length (x3 ! b)" for b l
    using that Dice_block(2)[OF la nc ns rows[OF that(1)] that(2), of tr "concat x3"] by simp
  have v: "?y ! b ! l ! c =
             a ! c * (1 - sigmoid ((x3 ! b ! l ! c - bn_mean (bn self) tr (concat x3) c)
                                     / sqrt (bn_variance (bn self) tr (concat x3) c + epsilon (bn self))))
               * x3 ! b ! l ! c
             + sigmoid ((x3 ! b ! l ! c - bn_mean (bn self) tr (concat x3) c)
                                     / sqrt (bn_variance (bn self) tr (concat x3) c + epsilon (bn self)))
               * x3 ! b ! l ! c"
    if "b < length x3" "l < length (x3 ! b)" "c < C" for b l c
    using that Dice_block(3)[OF la nc ns rows[OF that(1)] that(2,3), of tr "concat x3"] by simp
  show "\<exists>y. Dice_call3 self tr x3 = Inr y \<and> length y = length x3 \<and>
         (\<forall>b<length x3. length (y ! b) = length (x3 ! b) \<and>
            (\<forall>l<length (x3 ! b). length (y ! b ! l) = C \<and>
               (\<forall>c<C. \<exists>p. p = sigmoid ((x3 ! b ! l ! c - bn_mean (bn self) tr (concat x3) c)
                                          / sqrt (bn_variance (bn self) tr (concat x3) c
                                                    + epsilon (bn self))) \<and>
                           0 < p \<and> p < 1 \<and>
                           y ! b ! l ! c = a ! c * (1 - p) * x3 ! b ! l ! c + p * x3 ! b ! l ! c)))"
    apply (rule exI[of _ ?y])
    apply (intro conjI allI impI)
        apply (rule c)
       apply (rule ly)
      apply (erule lyb)
     apply (erule (1) lyl)
    apply (simp only: simp_thms ex_simps sigmoid_range)
    apply (erule (2) v)
    done
qed

theorem Dice_blend_witness:
  "(\<exists>d a. Dice_build [4, 2] (\<lambda>c. 1 / 4) Dice_init = Inr d \<and> alpha d = Some a \<and> length a = 2) \<and>
   (\<exists>y. Dice_call example_dice False \<lparr>shape = [2], val = [[1, 0]]\<rparr> = Inr y \<and>
        val y ! 0 ! 0 = 3 / 2) \<and>
   (\<exists>y. Dice_call3 example_dice False [[[0, 0], [1, 0]]] = Inr y \<and> y ! 0 ! 1 ! 0 = 3 / 2)"
proof -
  let ?x = "\<lparr>shape = [2], val = [[1, 0::real]]\<rparr>"
  let ?x3 = "[[[0, 0], [1, 0::real]]]"
  have h: "alpha example_dice = Some [2, 3] \<and> length [2, 3::real] = 2 \<and>
      \<not> center (bn example_dice) \<and> \<not> scale (bn example_dice) \<and> shape ?x = [2] \<and> wf2 ?x"
    by (simp add: example_dice_def BatchNormalization_build_def BatchNormalization_init_def wf2_def)
  have h3: "alpha example_dice = Some [2, 3] \<and> length [2, 3::real] = 2 \<and>
      \<not> center (bn example_dice) \<and> \<not> scale (bn example_dice) \<and>
      (\<forall>ex\<in>set ?x3. \<forall>r\<in>set ex. length r = 2)"
    by (simp add: example_dice_def BatchNormalization_build_def BatchNormalization_init_def)
  have b: "[4, 2::nat] \<noteq> []" by simp
  note th = Dice_blend[where input_shape = "[4, 2]" and init = "\<lambda>c. 1 / 4" and self = Dice_init,
      THEN conjunct2, THEN conjunct2, THEN conjunct2, THEN conjunct1, THEN mp, OF b]
  note th2 = Dice_blend[where self = example_dice and a = "[2, 3]" and C = 2 and x = ?x and tr = False,
      THEN conjunct2, THEN conjunct2, THEN conjunct2, THEN conjunct2, THEN conjunct1, THEN mp, OF h]
  note th3 = Dice_blend[where self = example_dice and a = "[2, 3]" and C = 2 and ?x3.0 = ?x3 and tr = False,
      THEN conjunct2, THEN conjunct2, THEN conjunct2, THEN conjunct2, THEN conjunct2, THEN mp, OF h3]
  from th obtain d a where d: "Dice_build [4, 2] (\<lambda>c. 1 / 4) Dice_init = Inr d" "alpha d = Some a"
      "length a = last [4, 2::nat]"
    by blast
  from th2 obtain y where y: "Dice_call example_dice False ?x = Inr y"
    "\<forall>b<length (val ?x). length (val y ! b) = 2 \<and>
            (\<forall>c<2. \<exists>p. p = sigmoid ((val ?x ! b ! c - bn_mean (bn example_dice) False (val ?x) c)
                          / sqrt (bn_variance (bn example_dice) False (val ?x) c + epsilon (bn example_dice))) \<and>
                        0 < p \<and> p < 1 \<and>
                        val y ! b ! c = [2, 3] ! c * (1 - p) * val ?x ! b ! c + p * val ?x ! b ! c)"
    by blast
  from th3 obtain y3 where y3: "Dice_call3 example_dice False ?x3 = Inr y3"
    "\<forall>b<length ?x3. length (y3 ! b) = length (?x3 ! b) \<and>
            (\<forall>l<length (?x3 ! b). length (y3 ! b ! l) = 2 \<and>
               (\<forall>c<2. \<exists>p. p = sigmoid ((?x3 ! b ! l ! c - bn_mean (bn example_dice) False (concat ?x3) c)
                            / sqrt (bn_variance (bn example_dice) False (concat ?x3) c
                                      + epsilon (bn example_dice))) \<and>
                           0 < p \<and> p < 1 \<and>
                           y3 ! b ! l ! c = [2, 3] ! c * (1 - p) * ?x3 ! b ! l ! c + p * ?x3 ! b ! l ! c))"
    by blast
  have "val y ! 0 ! 0 = 3 / 2"
    using y(2)[rule_format, THEN conjunct2, rule_format, of 0 0]
    by (auto simp: bn_mean_def example_dice_def BatchNormalization_build_def
          BatchNormalization_init_def sigmoid_def)
  moreover have "y3 ! 0 ! 1 ! 0 = 3 / 2"
    using y3(2)[rule_format, THEN conjunct2, rule_format, THEN conjunct2, rule_format, of 0 1 0]
    by (auto simp: bn_mean_def example_dice_def BatchNormalization_build_def
          BatchNormalization_init_def sigmoid_def)
  ultimately show ?thesis using d y(1) y3(1) by auto
qed

subsection \<open>Loops that collect results\<close>

lemma fold_e_collect:
  "fold_e (\<lambda>x acc. ebind (g x) (\<lambda>y. Inr (acc @ [y]))) xs acc
     = ebind (sequence_e (map g xs)) (\<lambda>ys. Inr (acc @ ys))"
proof (induction xs arbitrary: acc)
  case Nil
  then show ?case by simp
next
  case (Cons x xs)
  show ?case
  proof (cases "g x")
    case (Inl e)
    then show ?thesis by simp
  next
    case (Inr y)
    then show ?thesis using Cons.IH[of "acc @ [y]"]
      by (cases "sequence_e (map g xs)") simp_all
  qed
qed

lemma sequence_e_Cons_Inr:
  "sequence_e (m # ms) = Inr ys \<longleftrightarrow> (\<exists>y ys'. m = Inr y \<and> sequence_e ms = Inr ys' \<and> ys = y # ys')"
  by (cases m; cases "sequence_e ms") auto

lemma sequence_e_eq_Inr: "sequence_e ms = Inr ys \<longleftrightarrow> ms = map Inr ys"
proof (induction ms arbitrary: ys)
  case Nil
  then show ?case by auto
next
  case (Cons m ms)
  show ?case unfolding sequence_e_Cons_Inr Cons.IH by (cases ys) auto
qed

lemma sequence_e_Inl: "sequence_e ms = Inl e \<Longrightarrow> Inl e \<in> set ms"
proof (induction ms)
  case Nil
  then show ?case by simp
next
  case (Cons m ms)
  then show ?case by (cases m; cases "sequence_e ms") simp_all
qed

lemma sequence_e_fails: "Inl e \<in> set ms \<Longrightarrow> \<exists>e'. sequence_e ms = Inl e'"
proof (induction ms)
  case Nil
  then show ?case by simp
next
  case (Cons m ms)
  then show ?case by (cases m; cases "sequence_e ms") simp_all
qed


subsection \<open>The two dictionaries\<close>

lemma input_layers_step_map_of:
  "map_of (input_layers_step fc acc) k =
     (if k = name fc then Some (Input (case fc of SparseFeat nm v d \<Rightarrow> 1 | DenseFeat nm n \<Rightarrow> n
                                         | VarLenSparseFeat nm v d m \<Rightarrow> m) k)
      else map_of acc k)"
  by (cases fc) (simp_all add: input_layers_step_def update_conv')

lemma fold_input_layers_other:
  "k \<notin> name ` set fcs \<Longrightarrow> map_of (fold input_layers_step fcs acc) k = map_of acc k"
  by (induction fcs arbitrary: acc) (auto simp: input_layers_step_map_of)

lemma fold_input_layers_member:
  "k \<in> name ` set fcs \<Longrightarrow> \<exists>n. map_of (fold input_layers_step fcs acc) k = Some (Input n k)"
proof (induction fcs arbitrary: acc)
  case Nil
  then show ?case by simp
next
  case (Cons x xs)
  show ?case
  proof (cases "k \<in> name ` set xs")
    case True
    then show ?thesis using Cons.IH[of "input_layers_step x acc"] by simp
  next
    case False
    then have "k = name x" using Cons.prems by auto
    then show ?thesis using False
      by (auto simp: fold_input_layers_other input_layers_step_map_of)
  qed
qed

lemma fold_input_layers_value:
  "map_of (fold input_layers_step fcs acc) k = Some t \<Longrightarrow>
     map_of acc k = Some t \<or> (\<exists>n. t = Input n k)"
proof (induction fcs arbitrary: acc)
  case Nil
  then show ?case by simp
next
  case (Cons x xs)
  from Cons.IH[of "input_layers_step x acc"] Cons.prems
  have "map_of (input_layers_step x acc) k = Some t \<or> (\<exists>n. t = Input n k)" by simp
  then show ?case by (auto simp: input_layers_step_map_of split: if_splits)
qed

lemma build_input_layers_member:
  "fc \<in> set fcs \<Longrightarrow> \<exists>n. map_of (build_input_layers fcs) (name fc) = Some (Input n (name fc))"
  by (simp add: build_input_layers_def fold_input_layers_member)

lemma build_input_layers_value:
  "map_of (build_input_layers fcs) k = Some t \<Longrightarrow> \<exists>n. t = Input n k"
  using fold_input_layers_value[of fcs "[]" k t] by (simp add: build_input_layers_def)

lemma build_input_layers_absent:
  "k \<notin> name ` set fcs \<Longrightarrow> map_of (build_input_layers fcs) k = None"
  by (simp add: build_input_layers_def fold_input_layers_other)


lemma embedding_layers_step_ok:
  "embedding_sizes_ok fc \<Longrightarrow> \<exists>acc'. embedding_layers_step fc acc = Inr acc'"
  by (cases fc) (simp_all add: embedding_layers_step_def Embedding_init_def)

lemma embedding_layers_step_rejects:
  "\<not> embedding_sizes_ok fc \<Longrightarrow> embedding_layers_step fc acc = Inl ValueError"
  by (cases fc) (auto simp: embedding_layers_step_def Embedding_init_def)

lemma embedding_layers_step_Inl:
  "embedding_layers_step fc acc = Inl err \<Longrightarrow> err = ValueError \<and> \<not> embedding_sizes_ok fc"
  by (cases fc) (auto simp: embedding_layers_step_def Embedding_init_def split: if_splits)

lemma embedding_layers_step_map_of:
  assumes "embedding_layers_step fc acc = Inr acc'"
  shows "map_of acc' k =
     (case fc of
        SparseFeat nm v d \<Rightarrow>
          if k = nm then Some \<lparr>input_dim = v, output_dim = d, layer_name = ''emb_'' @ nm, mask_zero = False\<rparr>
          else map_of acc k
      | DenseFeat nm n \<Rightarrow> map_of acc k
      | VarLenSparseFeat nm v d m \<Rightarrow>
          if k = nm then Some \<lparr>input_dim = v + 1, output_dim = d, layer_name = ''emb_'' @ nm, mask_zero = True\<rparr>
          else map_of acc k)"
  using assms
  by (cases fc) (auto simp: embedding_layers_step_def Embedding_init_def update_conv' split: if_splits)

lemma fold_e_Cons_Inr:
  assumes "fold_e f (x # xs) acc = Inr d"
  obtains acc' where "f x acc = Inr acc'" "fold_e f xs acc' = Inr d"
  using assms by (cases "f x acc") auto

lemma fold_embedding_layers_builds:
  "list_all embedding_sizes_ok fcs \<Longrightarrow> \<exists>d. fold_e embedding_layers_step fcs acc = Inr d"
proof (induction fcs arbitrary: acc)
  case Nil
  then show ?case by simp
next
  case (Cons x xs)
  then obtain acc' where "embedding_layers_step x acc = Inr acc'"
    using embedding_layers_step_ok[of x acc] by auto
  then show ?case using Cons.IH[of acc'] Cons.prems by simp
qed

lemma fold_embedding_layers_rejects:
  "\<not> list_all embedding_sizes_ok fcs \<Longrightarrow> fold_e embedding_layers_step fcs acc = Inl ValueError"
proof (induction fcs arbitrary: acc)
  case Nil
  then show ?case by simp
next
  case (Cons x xs)
  show ?case
  proof (cases "embedding_sizes_ok x")
    case True
    then obtain acc' where a: "embedding_layers_step x acc = Inr acc'"
      using embedding_layers_step_ok[of x acc] by auto
    from True Cons.prems have "\<not> list_all embedding_sizes_ok xs" by simp
    from Cons.IH[OF this, of acc'] a show ?thesis by simp
  next
    case False
    then show ?thesis by (simp add: embedding_layers_step_rejects)
  qed
qed

lemma fold_embedding_layers_other:
  "fold_e embedding_layers_step fcs acc = Inr dict \<Longrightarrow>
   k \<notin> name ` {fc \<in> set fcs. \<not> isinstance_DenseFeat fc} \<Longrightarrow>
     map_of dict k = map_of acc k"
proof (induction fcs arbitrary: acc)
  case Nil
  then show ?case by simp
next
  case (Cons x xs)
  from Cons.prems(1) obtain acc' where a: "embedding_layers_step x acc = Inr acc'"
    "fold_e embedding_layers_step xs acc' = Inr dict"
    by (rule fold_e_Cons_Inr)
  have "k \<notin> name ` {fc \<in> set xs. \<not> isinstance_DenseFeat fc}" using Cons.prems(2) by auto
  then have "map_of dict k = map_of acc' k" using Cons.IH[OF a(2)] by simp
  also have "\<dots> = map_of acc k"
  proof -
    have "isinstance_DenseFeat x \<or> name x \<noteq> k" using Cons.prems(2) by auto
    then show ?thesis by (cases x) (auto simp: embedding_layers_step_map_of[OF a(1)])
  qed
  finally show ?case .
qed

lemma fold_embedding_layers_distinct:
  assumes "fold_e embedding_layers_step fcs acc = Inr dict" "distinct (map name fcs)" "fc \<in> set fcs"
  shows "map_of dict (name fc) =
     (case fc of
        SparseFeat nm v d \<Rightarrow>
          Some \<lparr>input_dim = v, output_dim = d, layer_name = ''emb_'' @ nm, mask_zero = False\<rparr>
      | DenseFeat nm n \<Rightarrow> map_of acc nm
      | VarLenSparseFeat nm v d m \<Rightarrow>
          Some \<lparr>input_dim = v + 1, output_dim = d, layer_name = ''emb_'' @ nm, mask_zero = True\<rparr>)"
  using assms
proof (induction fcs arbitrary: acc)
  case Nil
  then show ?case by simp
next
  case (Cons x xs)
  from Cons.prems(1) obtain acc' where a: "embedding_layers_step x acc = Inr acc'"
    "fold_e embedding_layers_step xs acc' = Inr dict"
    by (rule fold_e_Cons_Inr)
  show ?case
  proof (cases "fc = x")
    case True
    then have "name fc \<notin> name ` {fc \<in> set xs. \<not> isinstance_DenseFeat fc}"
      using Cons.prems(2) by auto
    then have "map_of dict (name fc) = map_of acc' (name fc)"
      by (rule fold_embedding_layers_other[OF a(2)])
    then show ?thesis using True by (cases x) (simp_all add: embedding_layers_step_map_of[OF a(1)])
  next
    case False
    then have m: "fc \<in> set xs" using Cons.prems(3) by simp
    then have ne: "name x \<noteq> name fc" using Cons.prems(2) by auto
    have d: "distinct (map name xs)" using Cons.prems(2) by simp
    have "map_of acc' (name fc) = map_of acc (name fc)"
      using ne by (cases x) (auto simp: embedding_layers_step_map_of[OF a(1)])
    then show ?thesis using Cons.IH[OF a(2) d m]
      by (cases fc) simp_all
  qed
qed

lemma fold_embedding_layers_value:
  "fold_e embedding_layers_step fcs acc = Inr dict \<Longrightarrow> map_of dict k = Some e \<Longrightarrow>
     map_of acc k = Some e \<or> layer_name e = ''emb_'' @ k"
proof (induction fcs arbitrary: acc)
  case Nil
  then show ?case by simp
next
  case (Cons x xs)
  from Cons.prems(1) obtain acc' where a: "embedding_layers_step x acc = Inr acc'"
    "fold_e embedding_layers_step xs acc' = Inr dict"
    by (rule fold_e_Cons_Inr)
  from Cons.IH[OF a(2) Cons.prems(2)]
  have "map_of acc' k = Some e \<or> layer_name e = ''emb_'' @ k" .
  then show ?case by (cases x) (auto simp: embedding_layers_step_map_of[OF a(1)] split: if_splits)
qed

lemma fold_embedding_layers_member:
  "fold_e embedding_layers_step fcs acc = Inr dict \<Longrightarrow>
   k \<in> name ` {fc \<in> set fcs. \<not> isinstance_DenseFeat fc} \<Longrightarrow>
     \<exists>e. map_of dict k = Some e"
proof (induction fcs arbitrary: acc)
  case Nil
  then show ?case by simp
next
  case (Cons x xs)
  from Cons.prems(1) obtain acc' where a: "embedding_layers_step x acc = Inr acc'"
    "fold_e embedding_layers_step xs acc' = Inr dict"
    by (rule fold_e_Cons_Inr)
  show ?case
  proof (cases "k \<in> name ` {fc \<in> set xs. \<not> isinstance_DenseFeat fc}")
    case True
    then show ?thesis by (rule Cons.IH[OF a(2)])
  next
    case False
    then have kx: "k = name x \<and> \<not> isinstance_DenseFeat x" using Cons.prems(2) by auto
    have "map_of dict k = map_of acc' k" by (rule fold_embedding_layers_other[OF a(2) False])
    then show ?thesis using kx
      by (cases x) (simp_all add: embedding_layers_step_map_of[OF a(1)])
  qed
qed

lemma build_embedding_layers_eq:
  "build_embedding_layers fcs ild =
     (if list_all embedding_sizes_ok fcs then Inr (embedding_layers_of fcs) else Inl ValueError)"
proof (cases "list_all embedding_sizes_ok fcs")
  case True
  from fold_embedding_layers_builds[OF this, of "[]"] show ?thesis
    using True by (auto simp: build_embedding_layers_def embedding_layers_of_def)
next
  case False
  from fold_embedding_layers_rejects[OF this, of "[]"] show ?thesis
    using False by (simp add: build_embedding_layers_def)
qed

lemma embedding_layers_of_built:
  "list_all embedding_sizes_ok fcs \<Longrightarrow>
     fold_e embedding_layers_step fcs [] = Inr (embedding_layers_of fcs)"
  using build_embedding_layers_eq[of fcs "[]"] by (simp add: build_embedding_layers_def)

lemma embedding_layers_of_rejected:
  "\<not> list_all embedding_sizes_ok fcs \<Longrightarrow> embedding_layers_of fcs = []"
  using build_embedding_layers_eq[of fcs "build_input_layers fcs"]
  by (simp add: embedding_layers_of_def)

subsection \<open>The lookup loops\<close>

lemma fold_e_collect_map:
  "fold_e (\<lambda>x acc. ebind (g x) (\<lambda>y. Inr (acc @ [h y]))) xs acc
     = ebind (sequence_e (map g xs)) (\<lambda>ys. Inr (acc @ map h ys))"
proof (induction xs arbitrary: acc)
  case Nil
  then show ?case by simp
next
  case (Cons x xs)
  show ?case
  proof (cases "g x")
    case (Inl e)
    then show ?thesis by simp
  next
    case (Inr y)
    then show ?thesis using Cons.IH[of "acc @ [h y]"]
      by (cases "sequence_e (map g xs)") simp_all
  qed
qed

lemma lookup_embed_cases:
  "lookup_embed ild eld k =
     (case map_of ild k of None \<Rightarrow> Inl (KeyError k)
      | Some t \<Rightarrow> (case map_of eld k of None \<Rightarrow> Inl (KeyError k)
                   | Some em \<Rightarrow> Inr (Embedding_call em t)))"
  by (simp add: lookup_embed_def dict_get_def split: option.splits)

lemma lookup_loop_fails:
  assumes "\<exists>x\<in>set xs. map_of ild (f x) = None \<or> map_of eld (f x) = None"
  shows "\<exists>x\<in>set xs. (map_of ild (f x) = None \<or> map_of eld (f x) = None) \<and>
           sequence_e (map (\<lambda>x. lookup_embed ild eld (f x)) xs) = Inl (KeyError (f x))"
proof -
  let ?ms = "map (\<lambda>x. lookup_embed ild eld (f x)) xs"
  from assms obtain x where x: "x \<in> set xs" "map_of ild (f x) = None \<or> map_of eld (f x) = None"
    by blast
  then have "lookup_embed ild eld (f x) = Inl (KeyError (f x))"
    by (auto simp: lookup_embed_cases split: option.splits)
  then have "Inl (KeyError (f x)) \<in> set ?ms" using x(1) by force
  then obtain e where e: "sequence_e ?ms = Inl e" using sequence_e_fails by blast
  then have "Inl e \<in> set ?ms" by (rule sequence_e_Inl)
  then obtain y where y: "y \<in> set xs" "lookup_embed ild eld (f y) = Inl e" by auto
  then have "e = KeyError (f y) \<and> (map_of ild (f y) = None \<or> map_of eld (f y) = None)"
    by (auto simp: lookup_embed_cases split: option.splits)
  with y(1) e show ?thesis by blast
qed

lemma lookup_loop_succeeds:
  assumes "\<forall>x\<in>set xs. map_of ild (f x) \<noteq> None \<and> map_of eld (f x) \<noteq> None"
  shows "sequence_e (map (\<lambda>x. lookup_embed ild eld (f x)) xs)
           = Inr (map (\<lambda>x. Embedding_call (the (map_of eld (f x))) (the (map_of ild (f x)))) xs)"
proof -
  have "map (\<lambda>x. lookup_embed ild eld (f x)) xs
          = map Inr (map (\<lambda>x. Embedding_call (the (map_of eld (f x))) (the (map_of ild (f x)))) xs)"
    using assms by (auto simp: lookup_embed_cases split: option.splits)
  then show ?thesis by (simp only: sequence_e_Inr)
qed

lemma embedding_lookup_eq:
  "embedding_lookup names ild eld = sequence_e (map (\<lambda>k. lookup_embed ild eld k) names)"
proof -
  have "embedding_lookup names ild eld
          = ebind (sequence_e (map (lookup_embed ild eld) names)) (\<lambda>ys. Inr ([] @ ys))"
    unfolding embedding_lookup_def by (rule fold_e_collect)
  then show ?thesis by (cases "sequence_e (map (lookup_embed ild eld) names)") simp_all
qed

lemma concat_embedding_list_eq:
  "concat_embedding_list fcs ild eld flatten =
     ebind (sequence_e (map (\<lambda>fc. lookup_embed ild eld (name fc)) fcs))
       (\<lambda>ys. Inr (if flatten then Inr (map Flatten_call ys) else Inl ys))"
proof -
  have a: "fold_e (\<lambda>fc embedding_list. ebind (lookup_embed ild eld (name fc))
                      (\<lambda>embed. Inr (embedding_list @ [Flatten_call embed]))) fcs []
         = ebind (sequence_e (map (\<lambda>fc. lookup_embed ild eld (name fc)) fcs))
             (\<lambda>ys. Inr ([] @ map Flatten_call ys))"
    by (rule fold_e_collect_map)
  have b: "fold_e (\<lambda>fc embedding_list. ebind (lookup_embed ild eld (name fc))
                      (\<lambda>embed. Inr (embedding_list @ [embed]))) fcs []
         = ebind (sequence_e (map (\<lambda>fc. lookup_embed ild eld (name fc)) fcs))
             (\<lambda>ys. Inr ([] @ ys))"
    by (rule fold_e_collect)
  show ?thesis
    unfolding concat_embedding_list_def a b
    by (cases "sequence_e (map (\<lambda>fc. lookup_embed ild eld (name fc)) fcs)") simp_all
qed

subsection \<open>The assembly up to the lookups\<close>

lemma concat_input_list_rank2:
  assumes "\<forall>t\<in>set xs. length (kshape t) = 1"
  shows "\<exists>r. concat_input_list xs = Inr r \<and> (r = None \<longleftrightarrow> xs = []) \<and>
             (\<forall>t. r = Some t \<longrightarrow> length (kshape t) = 1)"
proof -
  consider "xs = []" | x where "xs = [x]" | "1 < length xs"
    by (cases xs; cases "tl xs") auto
  then show ?thesis
  proof cases
    case 1
    then show ?thesis by (simp add: concat_input_list_def)
  next
    case 2
    then show ?thesis using assms by (simp add: concat_input_list_def)
  next
    case 3
    have "\<forall>t\<in>set xs. kshape t \<noteq> [] \<and> tl (kshape t) = []"
      using assms by (auto simp: length_Suc_conv)
    moreover have "xs \<noteq> []" using 3 by auto
    moreover from this have "hd xs \<in> set xs" by simp
    ultimately have "concat_shapes_ok (map kshape xs)"
      by (auto simp: concat_shapes_ok_def list_all_iff hd_map)
    then show ?thesis using 3 \<open>\<forall>t\<in>set xs. kshape t \<noteq> [] \<and> tl (kshape t) = []\<close> \<open>hd xs \<in> set xs\<close>
        \<open>xs \<noteq> []\<close>
      by (simp add: concat_input_list_def Concatenate_axis1_def Let_def comp_def)
  qed
qed

lemma dense_loop:
  "fold_e (\<lambda>fc dnn_dense_input.
        ebind (dict_get (build_input_layers fcs) (name fc)) (\<lambda>t. Inr (dnn_dense_input @ [t])))
     (filter isinstance_DenseFeat fcs) []
   = Inr (map (\<lambda>fc. the (map_of (build_input_layers fcs) (name fc))) (filter isinstance_DenseFeat fcs))"
proof -
  have "map (\<lambda>fc. dict_get (build_input_layers fcs) (name fc)) (filter isinstance_DenseFeat fcs)
      = map Inr (map (\<lambda>fc. the (map_of (build_input_layers fcs) (name fc))) (filter isinstance_DenseFeat fcs))"
    using build_input_layers_member[of _ fcs] by (fastforce simp: dict_get_def)
  then have "sequence_e (map (\<lambda>fc. dict_get (build_input_layers fcs) (name fc)) (filter isinstance_DenseFeat fcs))
      = Inr (map (\<lambda>fc. the (map_of (build_input_layers fcs) (name fc))) (filter isinstance_DenseFeat fcs))"
    by (simp only: sequence_e_Inr)
  then show ?thesis by (simp add: fold_e_collect)
qed

lemma build_embedding_layers_member:
  "list_all embedding_sizes_ok fcs \<Longrightarrow> fc \<in> set fcs \<Longrightarrow> \<not> isinstance_DenseFeat fc \<Longrightarrow>
     \<exists>e. map_of (embedding_layers_of fcs) (name fc) = Some e"
  by (rule fold_embedding_layers_member[OF embedding_layers_of_built]) auto

lemma build_embedding_layers_value:
  assumes "map_of (embedding_layers_of fcs) k = Some e"
  shows "layer_name e = ''emb_'' @ k"
proof (cases "list_all embedding_sizes_ok fcs")
  case True
  from fold_embedding_layers_value[OF embedding_layers_of_built[OF True] assms]
  show ?thesis by simp
next
  case False
  then show ?thesis using assms by (simp add: embedding_layers_of_rejected)
qed

lemma build_embedding_layers_absent:
  assumes "k \<notin> name ` {fc \<in> set fcs. \<not> isinstance_DenseFeat fc}"
  shows "map_of (embedding_layers_of fcs) k = None"
proof (cases "list_all embedding_sizes_ok fcs")
  case True
  from fold_embedding_layers_other[OF embedding_layers_of_built[OF True] assms]
  show ?thesis by simp
next
  case False
  then show ?thesis by (simp add: embedding_layers_of_rejected)
qed

lemma sparse_loop:
  assumes "list_all embedding_sizes_ok fcs"
  shows "concat_embedding_list (filter isinstance_SparseFeat fcs) (build_input_layers fcs)
       (embedding_layers_of fcs) True
   = Inr (Inr (sparse_inputs fcs))"
proof -
  have "\<forall>fc\<in>set (filter isinstance_SparseFeat fcs).
          map_of (build_input_layers fcs) (name fc) \<noteq> None \<and>
          map_of (embedding_layers_of fcs) (name fc) \<noteq> None"
  proof
    fix fc assume "fc \<in> set (filter isinstance_SparseFeat fcs)"
    then have m: "fc \<in> set fcs" and s: "isinstance_SparseFeat fc" by auto
    from s have "\<not> isinstance_DenseFeat fc" by (cases fc) auto
    then show "map_of (build_input_layers fcs) (name fc) \<noteq> None \<and>
          map_of (embedding_layers_of fcs) (name fc) \<noteq> None"
      using build_input_layers_member[OF m] build_embedding_layers_member[OF assms m] by auto
  qed
  from lookup_loop_succeeds[OF this] show ?thesis
    by (simp add: concat_embedding_list_eq comp_def sparse_inputs_def)
qed

lemma dense_inputs_rank: "\<forall>t\<in>set (dense_inputs fcs). length (kshape t) = 1"
proof
  fix t assume "t \<in> set (dense_inputs fcs)"
  then obtain fc where fc: "fc \<in> set fcs" "t = the (map_of (build_input_layers fcs) (name fc))"
    by (auto simp: dense_inputs_def)
  then show "length (kshape t) = 1"
    using build_input_layers_member[OF fc(1)] by (auto simp: Input_def)
qed

lemma sparse_inputs_rank: "\<forall>t\<in>set (sparse_inputs fcs). length (kshape t) = 1"
  by (auto simp: sparse_inputs_def Flatten_call_def)

lemma DIN_prefix:
  "\<exists>dense_in sparse_in.
     concat_input_list (dense_inputs fcs) = Inr dense_in \<and>
     concat_input_list (sparse_inputs fcs) = Inr sparse_in \<and>
     DIN fcs bfl bsfl =
       (if list_all embedding_sizes_ok fcs then
          ebind (embedding_lookup bfl (build_input_layers fcs) (embedding_layers_of fcs))
            (\<lambda>query_embed_list.
          ebind (embedding_lookup bsfl (build_input_layers fcs) (embedding_layers_of fcs))
            (\<lambda>keys_embed_list.
          DIN_pooling (dict_values (build_input_layers fcs)) dense_in sparse_in
            query_embed_list keys_embed_list))
        else Inl ValueError)"
proof -
  obtain dense_in where d: "concat_input_list (dense_inputs fcs) = Inr dense_in"
    using concat_input_list_rank2[OF dense_inputs_rank] by blast
  obtain sparse_in where s: "concat_input_list (sparse_inputs fcs) = Inr sparse_in"
    using concat_input_list_rank2[OF sparse_inputs_rank] by blast
  have dl: "fold_e (\<lambda>fc dnn_dense_input.
        ebind (dict_get (build_input_layers fcs) (name fc)) (\<lambda>t. Inr (dnn_dense_input @ [t])))
     (filter isinstance_DenseFeat fcs) [] = Inr (dense_inputs fcs)"
    unfolding dense_inputs_def by (rule dense_loop)
  have "DIN fcs bfl bsfl =
       (if list_all embedding_sizes_ok fcs then
          ebind (embedding_lookup bfl (build_input_layers fcs) (embedding_layers_of fcs))
            (\<lambda>query_embed_list.
          ebind (embedding_lookup bsfl (build_input_layers fcs) (embedding_layers_of fcs))
            (\<lambda>keys_embed_list.
          DIN_pooling (dict_values (build_input_layers fcs)) dense_in sparse_in
            query_embed_list keys_embed_list))
        else Inl ValueError)"
  proof (cases "list_all embedding_sizes_ok fcs")
    case True
    show ?thesis
      unfolding DIN_def Let_def dl build_embedding_layers_eq DIN_pooling_def
      using d s True sparse_loop[OF True] by simp
  next
    case False
    show ?thesis
      unfolding DIN_def Let_def dl build_embedding_layers_eq
      using d False by simp
  qed
  with d s show ?thesis by blast
qed

subsection \<open>Embedding tables\<close>

text \<open>
  C6. In a schema whose names are unique, as the data model requires, and whose sizes the
  constructor of the embedding layer accepts, \<open>build_embedding_layers\<close> returns a dictionary
  that holds under the name of every Sparse descriptor a table of exactly \<open>vocabulary_size\<close>
  rows without masking of index 0, under the name of every VarLenSparse descriptor a table
  of exactly \<open>vocabulary_size + 1\<close> rows with index 0 declared maskable, and nothing under
  the name of a Dense descriptor.
\<close>

theorem build_embedding_layers_rows:
  assumes "distinct (map name feature_columns)" "list_all embedding_sizes_ok feature_columns"
  shows "\<exists>embedding_layer_dict.
     build_embedding_layers feature_columns input_layer_dict = Inr embedding_layer_dict \<and>
     (\<forall>fc\<in>set feature_columns.
        case fc of
          SparseFeat nm v d \<Rightarrow>
            dict_get embedding_layer_dict nm
              = Inr \<lparr>input_dim = v, output_dim = d, layer_name = ''emb_'' @ nm, mask_zero = False\<rparr>
        | DenseFeat nm n \<Rightarrow> dict_get embedding_layer_dict nm = Inl (KeyError nm)
        | VarLenSparseFeat nm v d m \<Rightarrow>
            dict_get embedding_layer_dict nm
              = Inr \<lparr>input_dim = v + 1, output_dim = d, layer_name = ''emb_'' @ nm, mask_zero = True\<rparr>)"
proof -
  from fold_embedding_layers_builds[OF assms(2), of "[]"]
  obtain dict where b: "fold_e embedding_layers_step feature_columns [] = Inr dict" by blast
  have "case fc of
          SparseFeat nm v d \<Rightarrow>
            dict_get dict nm
              = Inr \<lparr>input_dim = v, output_dim = d, layer_name = ''emb_'' @ nm, mask_zero = False\<rparr>
        | DenseFeat nm n \<Rightarrow> dict_get dict nm = Inl (KeyError nm)
        | VarLenSparseFeat nm v d m \<Rightarrow>
            dict_get dict nm
              = Inr \<lparr>input_dim = v + 1, output_dim = d, layer_name = ''emb_'' @ nm, mask_zero = True\<rparr>"
    if "fc \<in> set feature_columns" for fc
    using fold_embedding_layers_distinct[OF b assms(1) that]
    by (cases fc) (simp_all add: dict_get_def)
  then show ?thesis using b by (auto simp: build_embedding_layers_def)
qed

theorem build_embedding_layers_rows_witness:
  "\<exists>embedding_layer_dict.
     build_embedding_layers
       [SparseFeat ''user_id'' 100 8, VarLenSparseFeat ''history'' 500 8 50,
        SparseFeat ''candidate_id'' 500 8] [] = Inr embedding_layer_dict \<and>
     dict_get embedding_layer_dict ''history''
       = Inr \<lparr>input_dim = 501, output_dim = 8, layer_name = ''emb_history'', mask_zero = True\<rparr> \<and>
     dict_get embedding_layer_dict ''candidate_id''
       = Inr \<lparr>input_dim = 500, output_dim = 8, layer_name = ''emb_candidate_id'', mask_zero = False\<rparr>"
proof -
  let ?fcs = "[SparseFeat ''user_id'' 100 8, VarLenSparseFeat ''history'' 500 8 50,
        SparseFeat ''candidate_id'' 500 8]"
  have d: "distinct (map name ?fcs)" by simp
  have p: "list_all embedding_sizes_ok ?fcs" by simp
  from build_embedding_layers_rows[OF d p, of "[]"]
  obtain dict where r: "build_embedding_layers ?fcs [] = Inr dict"
    "\<forall>fc\<in>set ?fcs.
        case fc of
          SparseFeat nm v d \<Rightarrow>
            dict_get dict nm
              = Inr \<lparr>input_dim = v, output_dim = d, layer_name = ''emb_'' @ nm, mask_zero = False\<rparr>
        | DenseFeat nm n \<Rightarrow> dict_get dict nm = Inl (KeyError nm)
        | VarLenSparseFeat nm v d m \<Rightarrow>
            dict_get dict nm
              = Inr \<lparr>input_dim = v + 1, output_dim = d, layer_name = ''emb_'' @ nm, mask_zero = True\<rparr>"
    by blast
  from r(2) have "dict_get dict ''history''
       = Inr \<lparr>input_dim = 501, output_dim = 8, layer_name = ''emb_history'', mask_zero = True\<rparr>"
    "dict_get dict ''candidate_id''
       = Inr \<lparr>input_dim = 500, output_dim = 8, layer_name = ''emb_candidate_id'', mask_zero = False\<rparr>"
    by simp_all
  with r(1) show ?thesis by blast
qed

subsection \<open>Lookups of absent names\<close>

text \<open>
  C7. When a requested name has no entry in the input dictionary or in the embedding
  dictionary, \<open>embedding_lookup\<close> and \<open>concat_embedding_list\<close> raise \<open>KeyError\<close> for such a
  name and return nothing; and when a name of \<open>behavior_feature_list\<close> or of
  \<open>behavior_seq_feature_list\<close> is not the name of any descriptor of the schema, \<open>DIN\<close>
  raises and returns no model: it raises \<open>KeyError\<close> for a name of these lists, unless
  the constructor of an embedding layer has refused the sizes of a descriptor before the
  lookups are reached, and then it raises \<open>ValueError\<close>.
\<close>

theorem lookups_fail_on_missing_name:
  "((\<exists>k\<in>set names. map_of input_layer_dict k = None \<or> map_of embedding_layer_dict k = None) \<longrightarrow>
      (\<exists>k\<in>set names. (map_of input_layer_dict k = None \<or> map_of embedding_layer_dict k = None) \<and>
         embedding_lookup names input_layer_dict embedding_layer_dict = Inl (KeyError k))) \<and>
   ((\<exists>fc\<in>set fcs. map_of input_layer_dict (name fc) = None \<or>
                   map_of embedding_layer_dict (name fc) = None) \<longrightarrow>
      (\<exists>fc\<in>set fcs. (map_of input_layer_dict (name fc) = None \<or>
                      map_of embedding_layer_dict (name fc) = None) \<and>
         concat_embedding_list fcs input_layer_dict embedding_layer_dict flatten
           = Inl (KeyError (name fc)))) \<and>
   ((\<exists>k\<in>set behavior_feature_list \<union> set behavior_seq_feature_list. k \<notin> name ` set feature_columns) \<longrightarrow>
      (\<exists>err. DIN feature_columns behavior_feature_list behavior_seq_feature_list = Inl err \<and>
         (list_all embedding_sizes_ok feature_columns \<longrightarrow>
            (\<exists>k\<in>set behavior_feature_list \<union> set behavior_seq_feature_list. err = KeyError k)) \<and>
         (\<not> list_all embedding_sizes_ok feature_columns \<longrightarrow> err = ValueError)))"
proof (intro conjI impI)
  assume "\<exists>k\<in>set names. map_of input_layer_dict k = None \<or> map_of embedding_layer_dict k = None"
  from lookup_loop_fails[OF this]
  show "\<exists>k\<in>set names. (map_of input_layer_dict k = None \<or> map_of embedding_layer_dict k = None) \<and>
         embedding_lookup names input_layer_dict embedding_layer_dict = Inl (KeyError k)"
    by (simp add: embedding_lookup_eq)
next
  assume "\<exists>fc\<in>set fcs. map_of input_layer_dict (name fc) = None \<or>
                   map_of embedding_layer_dict (name fc) = None"
  from lookup_loop_fails[of fcs input_layer_dict name embedding_layer_dict, OF this]
  obtain fc where "fc \<in> set fcs"
    "map_of input_layer_dict (name fc) = None \<or> map_of embedding_layer_dict (name fc) = None"
    "sequence_e (map (\<lambda>x. lookup_embed input_layer_dict embedding_layer_dict (name x)) fcs)
       = Inl (KeyError (name fc))"
    by blast
  then show "\<exists>fc\<in>set fcs. (map_of input_layer_dict (name fc) = None \<or>
                      map_of embedding_layer_dict (name fc) = None) \<and>
         concat_embedding_list fcs input_layer_dict embedding_layer_dict flatten
           = Inl (KeyError (name fc))"
    unfolding concat_embedding_list_eq by (intro bexI[of _ fc]) simp_all
next
  let ?ild = "build_input_layers feature_columns"
  let ?eld = "embedding_layers_of feature_columns"
  let ?bfl = behavior_feature_list
  let ?bsfl = behavior_seq_feature_list
  assume "\<exists>k\<in>set ?bfl \<union> set ?bsfl. k \<notin> name ` set feature_columns"
  then obtain k where k: "k \<in> set ?bfl \<union> set ?bsfl" "map_of ?ild k = None"
    using build_input_layers_absent by blast
  obtain dense_in sparse_in where din:
    "DIN feature_columns ?bfl ?bsfl =
       (if list_all embedding_sizes_ok feature_columns then
          ebind (embedding_lookup ?bfl ?ild ?eld) (\<lambda>query_embed_list.
          ebind (embedding_lookup ?bsfl ?ild ?eld) (\<lambda>keys_embed_list.
          DIN_pooling (dict_values ?ild) dense_in sparse_in query_embed_list keys_embed_list))
        else Inl ValueError)"
    using DIN_prefix[of feature_columns ?bfl ?bsfl] by blast
  show "\<exists>err. DIN feature_columns ?bfl ?bsfl = Inl err \<and>
         (list_all embedding_sizes_ok feature_columns \<longrightarrow> (\<exists>k\<in>set ?bfl \<union> set ?bsfl. err = KeyError k)) \<and>
         (\<not> list_all embedding_sizes_ok feature_columns \<longrightarrow> err = ValueError)"
  proof (cases "list_all embedding_sizes_ok feature_columns")
    case False
    then show ?thesis unfolding din by simp
  next
    case ok: True
    have "\<exists>k\<in>set ?bfl \<union> set ?bsfl. DIN feature_columns ?bfl ?bsfl = Inl (KeyError k)"
    proof (cases "\<exists>k\<in>set ?bfl. map_of ?ild k = None \<or> map_of ?eld k = None")
      case True
      from lookup_loop_fails[OF this] obtain k' where "k' \<in> set ?bfl"
        "embedding_lookup ?bfl ?ild ?eld = Inl (KeyError k')"
        by (auto simp: embedding_lookup_eq)
      then show ?thesis unfolding din using ok by auto
    next
      case False
      then have "\<forall>k\<in>set ?bfl. map_of ?ild k \<noteq> None \<and> map_of ?eld k \<noteq> None"
        by auto
      from lookup_loop_succeeds[OF this]
      obtain qs where qs: "embedding_lookup ?bfl ?ild ?eld = Inr qs"
        by (simp add: embedding_lookup_eq)
      from False k have "\<exists>k\<in>set ?bsfl. map_of ?ild k = None \<or> map_of ?eld k = None"
        by auto
      from lookup_loop_fails[OF this] obtain k' where "k' \<in> set ?bsfl"
        "embedding_lookup ?bsfl ?ild ?eld = Inl (KeyError k')"
        by (auto simp: embedding_lookup_eq)
      then show ?thesis unfolding din using qs ok by auto
    qed
    then show ?thesis using ok by auto
  qed
qed

theorem lookups_fail_on_missing_name_witness:
  "embedding_lookup [''history_typo'']
       (build_input_layers [SparseFeat ''candidate_id'' 500 8, VarLenSparseFeat ''history'' 500 8 50])
       (embedding_layers_of [SparseFeat ''candidate_id'' 500 8, VarLenSparseFeat ''history'' 500 8 50])
     = Inl (KeyError ''history_typo'') \<and>
   concat_embedding_list [SparseFeat ''user_id'' 100 8]
       (build_input_layers [SparseFeat ''candidate_id'' 500 8, VarLenSparseFeat ''history'' 500 8 50])
       (embedding_layers_of [SparseFeat ''candidate_id'' 500 8, VarLenSparseFeat ''history'' 500 8 50])
       True
     = Inl (KeyError ''user_id'') \<and>
   (\<exists>k\<in>set [''candidate_id''] \<union> set [''history_typo''].
      DIN [SparseFeat ''candidate_id'' 500 8, VarLenSparseFeat ''history'' 500 8 50, DenseFeat ''time'' 1]
        [''candidate_id''] [''history_typo''] = Inl (KeyError k)) \<and>
   DIN [SparseFeat ''candidate_id'' 0 8, VarLenSparseFeat ''history'' 500 8 50, DenseFeat ''time'' 1]
        [''candidate_id''] [''history_typo''] = Inl ValueError"
proof -
  let ?fcs = "[SparseFeat ''candidate_id'' 500 8, VarLenSparseFeat ''history'' 500 8 50]"
  let ?bad = "[SparseFeat ''candidate_id'' 0 8, VarLenSparseFeat ''history'' 500 8 50, DenseFeat ''time'' 1]"
  let ?ild = "build_input_layers ?fcs"
  let ?eld = "embedding_layers_of ?fcs"
  have a: "\<exists>k\<in>set [''history_typo'']. map_of ?ild k = None \<or> map_of ?eld k = None"
    by (simp add: build_input_layers_def input_layers_step_def)
  have b: "\<exists>fc\<in>set [SparseFeat ''user_id'' 100 8]. map_of ?ild (name fc) = None \<or> map_of ?eld (name fc) = None"
    by (simp add: build_input_layers_def input_layers_step_def)
  have c: "\<exists>k\<in>set [''candidate_id''] \<union> set [''history_typo''].
             k \<notin> name ` set (?fcs @ [DenseFeat ''time'' 1])"
    by simp
  have c': "\<exists>k\<in>set [''candidate_id''] \<union> set [''history_typo'']. k \<notin> name ` set ?bad"
    by simp
  have ok: "list_all embedding_sizes_ok (?fcs @ [DenseFeat ''time'' 1])" by simp
  have bad: "\<not> list_all embedding_sizes_ok ?bad" by simp
  note th = lookups_fail_on_missing_name[where names = "[''history_typo'']" and input_layer_dict = ?ild
      and embedding_layer_dict = ?eld and fcs = "[SparseFeat ''user_id'' 100 8]" and flatten = True
      and behavior_feature_list = "[''candidate_id'']" and behavior_seq_feature_list = "[''history_typo'']"
      and feature_columns = "?fcs @ [DenseFeat ''time'' 1]"]
  note th' = lookups_fail_on_missing_name[where behavior_feature_list = "[''candidate_id'']"
      and behavior_seq_feature_list = "[''history_typo'']" and feature_columns = ?bad]
  from th[THEN conjunct1, THEN mp, OF a]
  have 1: "embedding_lookup [''history_typo''] ?ild ?eld = Inl (KeyError ''history_typo'')" by simp
  from th[THEN conjunct2, THEN conjunct1, THEN mp, OF b]
  have 2: "concat_embedding_list [SparseFeat ''user_id'' 100 8] ?ild ?eld True = Inl (KeyError ''user_id'')"
    by simp
  from th[THEN conjunct2, THEN conjunct2, THEN mp, OF c] ok
  have 3: "\<exists>k\<in>set [''candidate_id''] \<union> set [''history_typo''].
      DIN (?fcs @ [DenseFeat ''time'' 1]) [''candidate_id''] [''history_typo''] = Inl (KeyError k)"
    by blast
  from th'[THEN conjunct2, THEN conjunct2, THEN mp, OF c'] bad
  have 4: "DIN ?bad [''candidate_id''] [''history_typo''] = Inl ValueError"
    by blast
  from 1 2 3 4 show ?thesis by simp
qed

subsection \<open>A model that was built\<close>

lemma lookup_loop_Inr:
  assumes "sequence_e (map (\<lambda>x. lookup_embed ild eld (f x)) xs) = Inr ys"
  shows "(\<forall>x\<in>set xs. map_of ild (f x) \<noteq> None \<and> map_of eld (f x) \<noteq> None) \<and>
         ys = map (\<lambda>x. Embedding_call (the (map_of eld (f x))) (the (map_of ild (f x)))) xs"
proof -
  have ok: "\<forall>x\<in>set xs. map_of ild (f x) \<noteq> None \<and> map_of eld (f x) \<noteq> None"
  proof (rule ccontr)
    assume "\<not> ?thesis"
    then have "\<exists>x\<in>set xs. map_of ild (f x) = None \<or> map_of eld (f x) = None" by auto
    from lookup_loop_fails[OF this] obtain x where
      "sequence_e (map (\<lambda>x. lookup_embed ild eld (f x)) xs) = Inl (KeyError (f x))" by blast
    with assms show False by simp
  qed
  have "sequence_e (map (\<lambda>x. lookup_embed ild eld (f x)) xs)
           = Inr (map (\<lambda>x. Embedding_call (the (map_of eld (f x))) (the (map_of ild (f x)))) xs)"
    by (rule lookup_loop_succeeds[OF ok])
  with assms have "ys = map (\<lambda>x. Embedding_call (the (map_of eld (f x))) (the (map_of ild (f x)))) xs"
    by simp
  with ok show ?thesis by (rule conjI)
qed


lemma if_ebind_distrib:
  "(if c then ebind a f else Inl e) = ebind (if c then a else Inl e) f"
  by simp

lemma pooling_loop:
  "fold_e (\<lambda>i dnn_seq_input_list.
             if i < length qs then
               ebind (AttentionPoolingLayer_apply i (qs ! i, ks ! i))
                 (\<lambda>seq_emb. Inr (dnn_seq_input_list @ [seq_emb]))
             else Inl IndexError) xs []
   = sequence_e (map (\<lambda>i. if i < length qs then AttentionPoolingLayer_apply i (qs ! i, ks ! i)
                           else Inl IndexError) xs)"
proof -
  let ?g = "\<lambda>i. if i < length qs then AttentionPoolingLayer_apply i (qs ! i, ks ! i) else Inl IndexError"
  have "fold_e (\<lambda>i acc. ebind (?g i) (\<lambda>y. Inr (acc @ [y]))) xs []
      = ebind (sequence_e (map ?g xs)) (\<lambda>ys. Inr ([] @ ys))"
    by (rule fold_e_collect)
  also have "\<dots> = sequence_e (map ?g xs)"
    by (cases "sequence_e (map ?g xs)") simp_all
  finally show ?thesis unfolding if_ebind_distrib .
qed


lemma pooling_loop_Inr:
  assumes "sequence_e (map (\<lambda>i. if i < length qs then AttentionPoolingLayer_apply i (qs ! i, ks ! i)
                           else Inl IndexError) [0..<n]) = Inr seqs"
  shows "length seqs = n \<and> n \<le> length qs \<and>
         (\<forall>i<n. AttentionPoolingLayer_apply i (qs ! i, ks ! i) = Inr (seqs ! i))"
proof -
  let ?g = "\<lambda>i. if i < length qs then AttentionPoolingLayer_apply i (qs ! i, ks ! i) else Inl IndexError"
  from assms have eq: "map ?g [0..<n] = map Inr seqs" by (simp only: sequence_e_eq_Inr)
  have "length (map ?g [0..<n]) = length (map (Inr :: _ \<Rightarrow> error + _) seqs)" by (simp only: eq)
  then have len: "length seqs = n" by simp
  have both: "i < length qs \<and> AttentionPoolingLayer_apply i (qs ! i, ks ! i) = Inr (seqs ! i)"
    if "i < n" for i
  proof -
    have "map ?g [0..<n] ! i = map (Inr :: _ \<Rightarrow> error + _) seqs ! i" by (simp only: eq)
    then have "?g i = Inr (seqs ! i)" using that len by (simp split: if_splits)
    then show ?thesis by (simp split: if_splits)
  qed
  have "n \<le> length qs"
  proof (cases n)
    case 0
    then show ?thesis by simp
  next
    case (Suc k)
    then have "k < length qs" using both[of k] by simp
    then show ?thesis using Suc by simp
  qed
  with len both show ?thesis by simp
qed

lemma ebind_InrE:
  assumes "ebind m f = Inr y"
  obtains x where "m = Inr x" "f x = Inr y"
  using assms by (cases m) auto

lemma DIN_pooling_Inr:
  assumes "DIN_pooling inputs dense_in sparse_in qs ks = Inr m"
  shows "\<exists>seqs seq_in dnn_input.
     length seqs = length ks \<and> length ks \<le> length qs \<and>
     (\<forall>i<length ks. AttentionPoolingLayer_apply i (qs ! i, ks ! i) = Inr (seqs ! i)) \<and>
     concat_input_list seqs = Inr seq_in \<and>
     Concatenate_axis1 [dense_in, sparse_in, seq_in] = Inr dnn_input \<and>
     m = \<lparr>model_inputs = inputs, model_outputs = get_dnn_logits dnn_input [200, 80] ''prelu''\<rparr>"
proof -
  from assms[unfolded DIN_pooling_def pooling_loop]
  obtain seqs where s: "sequence_e (map (\<lambda>i. if i < length qs then AttentionPoolingLayer_apply i (qs ! i, ks ! i)
                           else Inl IndexError) [0..<length ks]) = Inr seqs"
    and r1: "ebind (concat_input_list seqs) (\<lambda>dnn_seq_input.
      ebind (Concatenate_axis1 [dense_in, sparse_in, dnn_seq_input]) (\<lambda>dnn_input.
      let dnn_logits = get_dnn_logits dnn_input [200, 80] ''prelu'' in
      Inr \<lparr>model_inputs = inputs, model_outputs = dnn_logits\<rparr>)) = Inr m"
    by (rule ebind_InrE)
  from r1 obtain seq_in where c: "concat_input_list seqs = Inr seq_in"
    and r2: "ebind (Concatenate_axis1 [dense_in, sparse_in, seq_in]) (\<lambda>dnn_input.
      let dnn_logits = get_dnn_logits dnn_input [200, 80] ''prelu'' in
      Inr \<lparr>model_inputs = inputs, model_outputs = dnn_logits\<rparr>) = Inr m"
    by (rule ebind_InrE)
  from r2 obtain dnn_input where d: "Concatenate_axis1 [dense_in, sparse_in, seq_in] = Inr dnn_input"
    and r3: "(let dnn_logits = get_dnn_logits dnn_input [200, 80] ''prelu'' in
      Inr \<lparr>model_inputs = inputs, model_outputs = dnn_logits\<rparr>) = (Inr m :: error + Model)"
    by (rule ebind_InrE)
  from r3 have m: "m = \<lparr>model_inputs = inputs, model_outputs = get_dnn_logits dnn_input [200, 80] ''prelu''\<rparr>"
    by (simp add: Let_def)
  from pooling_loop_Inr[OF s] c d m show ?thesis by blast
qed


lemma DIN_Inr_sizes:
  assumes "DIN fcs bfl bsfl = Inr m"
  shows "list_all embedding_sizes_ok fcs"
proof (rule ccontr)
  assume "\<not> list_all embedding_sizes_ok fcs"
  then have "DIN fcs bfl bsfl = Inl ValueError"
    using DIN_prefix[of fcs bfl bsfl] by auto
  with assms show False by simp
qed

lemma DIN_Inr:
  assumes "DIN fcs bfl bsfl = Inr m"
  shows "\<exists>dense_in sparse_in seqs seq_in dnn_input.
     concat_input_list (dense_inputs fcs) = Inr dense_in \<and>
     concat_input_list (sparse_inputs fcs) = Inr sparse_in \<and>
     (\<forall>k\<in>set bfl \<union> set bsfl. map_of (build_input_layers fcs) k \<noteq> None \<and>
        map_of (embedding_layers_of fcs) k \<noteq> None) \<and>
     length seqs = length bsfl \<and> length bsfl \<le> length bfl \<and>
     (\<forall>i<length bsfl.
        AttentionPoolingLayer_apply i (embed_of fcs (bfl ! i), embed_of fcs (bsfl ! i)) = Inr (seqs ! i)) \<and>
     concat_input_list seqs = Inr seq_in \<and>
     Concatenate_axis1 [dense_in, sparse_in, seq_in] = Inr dnn_input \<and>
     m = \<lparr>model_inputs = dict_values (build_input_layers fcs),
          model_outputs = get_dnn_logits dnn_input [200, 80] ''prelu''\<rparr>"
proof -
  let ?ild = "build_input_layers fcs"
  let ?eld = "embedding_layers_of fcs"
  have ok: "list_all embedding_sizes_ok fcs" by (rule DIN_Inr_sizes[OF assms])
  obtain dense_in sparse_in where p:
    "concat_input_list (dense_inputs fcs) = Inr dense_in"
    "concat_input_list (sparse_inputs fcs) = Inr sparse_in"
    "DIN fcs bfl bsfl =
       ebind (embedding_lookup bfl ?ild ?eld) (\<lambda>query_embed_list.
       ebind (embedding_lookup bsfl ?ild ?eld) (\<lambda>keys_embed_list.
       DIN_pooling (dict_values ?ild) dense_in sparse_in query_embed_list keys_embed_list))"
    using DIN_prefix[of fcs bfl bsfl] ok by auto
  from assms[unfolded p(3)] obtain qs where q0: "embedding_lookup bfl ?ild ?eld = Inr qs"
    and r1: "ebind (embedding_lookup bsfl ?ild ?eld) (\<lambda>keys_embed_list.
       DIN_pooling (dict_values ?ild) dense_in sparse_in qs keys_embed_list) = Inr m"
    by (rule ebind_InrE)
  from r1 obtain ks where k0: "embedding_lookup bsfl ?ild ?eld = Inr ks"
    and r2: "DIN_pooling (dict_values ?ild) dense_in sparse_in qs ks = Inr m"
    by (rule ebind_InrE)
  from lookup_loop_Inr[of ?ild ?eld "\<lambda>k. k" bfl qs] q0
  have q: "\<forall>k\<in>set bfl. map_of ?ild k \<noteq> None \<and> map_of ?eld k \<noteq> None"
     "qs = map (embed_of fcs) bfl"
    by (simp_all add: embedding_lookup_eq embed_of_def[abs_def])
  from lookup_loop_Inr[of ?ild ?eld "\<lambda>k. k" bsfl ks] k0
  have k: "\<forall>k\<in>set bsfl. map_of ?ild k \<noteq> None \<and> map_of ?eld k \<noteq> None"
     "ks = map (embed_of fcs) bsfl"
    by (simp_all add: embedding_lookup_eq embed_of_def[abs_def])
  from DIN_pooling_Inr[OF r2] obtain seqs seq_in dnn_input where r:
    "length seqs = length ks" "length ks \<le> length qs"
    "\<forall>i<length ks. AttentionPoolingLayer_apply i (qs ! i, ks ! i) = Inr (seqs ! i)"
    "concat_input_list seqs = Inr seq_in"
    "Concatenate_axis1 [dense_in, sparse_in, seq_in] = Inr dnn_input"
    "m = \<lparr>model_inputs = dict_values ?ild, model_outputs = get_dnn_logits dnn_input [200, 80] ''prelu''\<rparr>"
    by blast
  have lq: "length qs = length bfl" and lk: "length ks = length bsfl" using q(2) k(2) by simp_all
  have ap: "\<forall>i<length bsfl.
        AttentionPoolingLayer_apply i (embed_of fcs (bfl ! i), embed_of fcs (bsfl ! i)) = Inr (seqs ! i)"
  proof (intro allI impI)
    fix i assume i: "i < length bsfl"
    then have "i < length bfl" using r(2) lq lk by simp
    then have "qs ! i = embed_of fcs (bfl ! i)" "ks ! i = embed_of fcs (bsfl ! i)"
      using i q(2) k(2) by simp_all
    then show "AttentionPoolingLayer_apply i (embed_of fcs (bfl ! i), embed_of fcs (bsfl ! i)) = Inr (seqs ! i)"
      using r(3)[rule_format, of i] i lk by simp
  qed
  have pres: "\<forall>k\<in>set bfl \<union> set bsfl. map_of ?ild k \<noteq> None \<and> map_of ?eld k \<noteq> None"
    using q(1) k(1) by blast
  have l1: "length seqs = length bsfl" using r(1) lk by simp
  have l2: "length bsfl \<le> length bfl" using r(2) lq lk by simp
  show ?thesis
    apply (rule exI[of _ dense_in], rule exI[of _ sparse_in], rule exI[of _ seqs],
           rule exI[of _ seq_in], rule exI[of _ dnn_input])
    apply (intro conjI)
            apply (rule p(1))
           apply (rule p(2))
          apply (rule pres)
         apply (rule l1)
        apply (rule l2)
       apply (rule ap)
      apply (rule r(4))
     apply (rule r(5))
    apply (rule r(6))
    done
qed

subsection \<open>Running a model\<close>

lemma sequence_e_all_Inr:
  assumes "\<forall>x\<in>set xs. \<exists>y. f x = Inr y"
  shows "\<exists>ys. sequence_e (map f xs) = Inr ys \<and> length ys = length xs \<and>
              (\<forall>i<length xs. f (xs ! i) = Inr (ys ! i))"
  using assms
proof (induction xs)
  case Nil
  then show ?case by simp
next
  case (Cons x xs)
  then obtain y where y: "f x = Inr y" by auto
  from Cons obtain ys where ys: "sequence_e (map f xs) = Inr ys" "length ys = length xs"
      "\<forall>i<length xs. f (xs ! i) = Inr (ys ! i)" by auto
  have "\<forall>i<length (x # xs). f ((x # xs) ! i) = Inr ((y # ys) ! i)"
    using y ys(3) by (auto simp: nth_Cons split: nat.splits)
  then show ?case using y ys(1,2) by (intro exI[of _ "y # ys"]) simp
qed

lemma runs_Flatten: "runs B t e \<Longrightarrow> runs B (Flatten_call t) e"
  by (auto simp: runs_def Flatten_call_def)

lemma runs_Embedding:
  assumes "krun t e = Inr v" "length v = B"
    and "\<forall>r\<in>set v. \<forall>x\<in>set r. 0 \<le> to_index x \<and> to_index x < int (input_dim em)"
  shows "runs B (Embedding_call em t) e"
proof -
  let ?row = "embedding_row em (embeddings e (layer_name em))"
  have "\<forall>r\<in>set v. \<exists>y. sequence_e (map ?row r) = Inr y"
  proof
    fix r assume r: "r \<in> set v"
    then have "\<forall>x\<in>set r. \<exists>y. ?row x = Inr y"
      using assms(3) by (auto simp: embedding_row_def Let_def)
    from sequence_e_all_Inr[OF this] show "\<exists>y. sequence_e (map ?row r) = Inr y" by blast
  qed
  from sequence_e_all_Inr[OF this]
  obtain ys where "sequence_e (map (\<lambda>r. sequence_e (map ?row r)) v) = Inr ys" "length ys = length v"
    by blast
  then show ?thesis using assms(1,2) by (simp add: runs_def Embedding_call_def)
qed

lemma runs_Concatenate:
  assumes c: "Concatenate_axis1 xs = Inr c" and r: "\<forall>t. Some t \<in> set xs \<longrightarrow> runs B t e"
  shows "runs B c e"
proof -
  from c have nn: "None \<notin> set xs" by (auto simp: Concatenate_axis1_def split: if_splits)
  from c nn have ok: "concat_shapes_ok (map kshape (map the xs))"
    by (auto simp: Concatenate_axis1_def Let_def split: if_splits)
  then have ne: "xs \<noteq> []" by (auto simp: concat_shapes_ok_def)
  from c nn ok have cr: "krun c e = ebind (sequence_e (map (\<lambda>t. krun t e) (map the xs))) concat_axis1"
    by (auto simp: Concatenate_axis1_def Let_def)
  have "\<forall>t\<in>set (map the xs). \<exists>y. krun t e = Inr y"
  proof
    fix t assume "t \<in> set (map the xs)"
    then obtain x where x: "x \<in> set xs" "t = the x" by auto
    have "x \<noteq> None"
    proof
      assume "x = None"
      then have "None \<in> set xs" using x(1) by simp
      then show False using nn by simp
    qed
    then have "x = Some t" using x(2) by (cases x) auto
    then have "Some t \<in> set xs" using x(1) by simp
    then show "\<exists>y. krun t e = Inr y" using r by (auto simp: runs_def)
  qed
  from sequence_e_all_Inr[OF this] obtain vs where vs:
    "sequence_e (map (\<lambda>t. krun t e) (map the xs)) = Inr vs" "length vs = length (map the xs)"
    "\<forall>i<length (map the xs). krun (map the xs ! i) e = Inr (vs ! i)"
    by blast
  have lv: "\<forall>v\<in>set vs. length v = B"
  proof
    fix v assume "v \<in> set vs"
    then obtain i where i: "i < length vs" "v = vs ! i" by (auto simp: in_set_conv_nth)
    then have ix: "i < length xs" using vs(2) by simp
    then have "krun (the (xs ! i)) e = Inr v" using vs(3) i by simp
    moreover have "Some (the (xs ! i)) \<in> set xs"
      using nn ix by (metis nth_mem option.collapse)
    ultimately show "length v = B" using r by (auto simp: runs_def)
  qed
  have "vs \<noteq> []" using vs(2) ne by auto
  then have "length (hd vs) = B" using lv by (cases vs) auto
  then have "\<exists>w. concat_axis1 vs = Inr w \<and> length w = B"
    using lv by (simp add: concat_axis1_def list_all_iff)
  then show ?thesis using cr vs(1) by (auto simp: runs_def)
qed

lemma runs_concat_input_list:
  assumes "concat_input_list xs = Inr (Some c)" "\<forall>t\<in>set xs. runs B t e"
  shows "runs B c e"
proof -
  consider "xs = []" | x where "xs = [x]" | "1 < length xs"
    by (cases xs; cases "tl xs") auto
  then show ?thesis
  proof cases
    case 1
    then show ?thesis using assms by (simp add: concat_input_list_def)
  next
    case 2
    then show ?thesis using assms by (simp add: concat_input_list_def)
  next
    case 3
    then obtain t where "Concatenate_axis1 (map Some xs) = Inr t" "t = c"
      using assms(1) by (auto simp: concat_input_list_def ebind_eq_Inr)
    then show ?thesis using runs_Concatenate[of "map Some xs" c B e] assms(2) by auto
  qed
qed

lemma AttentionPoolingLayer_call_total:
  assumes q: "shape q = [1, D]" and k: "shape k = [L, D]" and d: "0 < D"
    and bq: "length (val q) = length (val k)"
  shows "\<exists>out. AttentionPoolingLayer_call (AttentionPoolingLayer_init hu params) tr (q, k) = Inr out \<and>
           shape out = [D] \<and> length (val out) = length (val k)"
proof -
  let ?self = "AttentionPoolingLayer_init hu params"
  have la: "local_att ?self = LocalActivationUnit_init hu ''prelu'' params"
    by (simp add: AttentionPoolingLayer_init_def)
  obtain s where s: "LocalActivationUnit_call (local_att ?self) tr (q, k) = Inr s" "shape s = [L]"
      "length (val s) = length (val k)"
    using LocalActivationUnit_call_Inr[OF q k, of "local_att ?self" tr]
          LocalActivationUnit_init_linear[of hu "''prelu''" params]
          LocalActivationUnit_init_prelu_built[of hu params] bq
    unfolding la by auto
  let ?m = "\<lparr>shape = [L], val = map (map (\<lambda>r. r ! 0 \<noteq> 0)) (val k)\<rparr>"
  let ?w = "\<lparr>shape = [L],
             val = map2 (\<lambda>cs (xs, ys). map2 (\<lambda>m (x, y). if m then x else y) cs (zip xs ys))
                        (val ?m) (zip (val s) (val (tf_zeros_like s)))\<rparr>"
  have w: "tf_where ?m s (tf_zeros_like s) = Inr ?w"
    using s(2) by (simp add: tf_where_def tf_zeros_like_def)
  let ?e = "tf_expand_dims1 ?w"
  let ?p = "\<lparr>shape = [1, D],
             val = map2 (\<lambda>ma mb. map (\<lambda>row. map (\<lambda>j. sum_list (map (\<lambda>i. row ! i * mb ! i ! j) [0..<L]))
                                               [0..<D]) ma) (val ?e) (val k)\<rparr>"
  have p: "tf_matmul ?e k = Inr ?p"
    using k by (simp add: tf_matmul_def tf_expand_dims1_def)
  let ?out = "\<lparr>shape = [D], val = map (\<lambda>ex. ex ! 0) (val ?p)\<rparr>"
  have o: "tf_squeeze_axis1 ?p = Inr ?out"
    by (simp add: tf_squeeze_axis1_def)
  have c: "AttentionPoolingLayer_call ?self tr (q, k) = Inr ?out"
    using key_masks_Inr[OF k d] s(1) w p o
    by (simp add: AttentionPoolingLayer_call_def Let_def del: tensor.simps)
  have lo: "length (val ?out) = length (val k)"
    using s(3) by (simp add: tf_expand_dims1_def tf_zeros_like_def)
  show ?thesis
    using c lo by (intro exI[of _ ?out]) simp
qed

lemma AttentionPoolingLayer_apply_runs:
  assumes a: "AttentionPoolingLayer_apply i (q, k) = Inr s"
    and sq: "kshape q = [1, D]" and sk: "kshape k = [L, D]" and d: "0 < D"
    and rq: "runs B q e" and rk: "runs B k e"
  shows "runs B s e \<and> kshape s = [D]"
proof -
  let ?t0 = "AttentionPoolingLayer_call (AttentionPoolingLayer_init default_hidden_units blank_params) False
             (\<lparr>shape = kshape q, val = []\<rparr>, \<lparr>shape = kshape k, val = []\<rparr>)"
  obtain traced where t: "?t0 = Inr traced" "shape traced = [D]"
    using AttentionPoolingLayer_call_total[of "\<lparr>shape = kshape q, val = []\<rparr>" D
            "\<lparr>shape = kshape k, val = []\<rparr>" L default_hidden_units blank_params False] sq sk d
    by auto
  from a t have s: "s = \<lparr>kshape = [D],
               krun = (\<lambda>e. ebind (krun q e) (\<lambda>qv. ebind (krun k e) (\<lambda>kv.
                  ebind (AttentionPoolingLayer_call
                           (AttentionPoolingLayer_init default_hidden_units (att_params e i))
                           (is_training e)
                           (\<lparr>shape = kshape q, val = qv\<rparr>, \<lparr>shape = kshape k, val = kv\<rparr>))
                        (\<lambda>out. Inr (val out)))))\<rparr>"
    by (simp add: AttentionPoolingLayer_apply_def)
  from rq rk obtain qv kv where v: "krun q e = Inr qv" "length qv = B" "krun k e = Inr kv" "length kv = B"
    by (auto simp: runs_def)
  obtain out where out: "AttentionPoolingLayer_call
       (AttentionPoolingLayer_init default_hidden_units (att_params e i)) (is_training e)
       (\<lparr>shape = kshape q, val = qv\<rparr>, \<lparr>shape = kshape k, val = kv\<rparr>) = Inr out"
     "length (val out) = B"
    using AttentionPoolingLayer_call_total[of "\<lparr>shape = kshape q, val = qv\<rparr>" D
            "\<lparr>shape = kshape k, val = kv\<rparr>" L default_hidden_units "att_params e i" "is_training e"]
          sq sk d v(2,4)
    by auto
  have "krun s e = Inr (val out)" using v(1,3) out(1) by (simp add: s)
  then show ?thesis using out(2) s by (simp add: runs_def)
qed

lemma activation2_prelu_lengths:
  "activation2 (PReLU al) tr z = Inr (map (\<lambda>r. map (\<lambda>j. prelu (al ! j) (r ! j)) [0..<length r]) z)"
  by simp

lemma Dense_call2_prelu:
  assumes "activation fc = PReLU al"
  shows "\<exists>y. Dense_call2 fc tr x = Inr y \<and> length (val y) = length (val x)"
  using assms by (simp add: Dense_call2_def)

lemma fold_dense2_prelu:
  assumes "\<forall>fc\<in>set ds. \<exists>al. activation fc = PReLU al"
  shows "\<exists>y. fold_e (\<lambda>dnn' dnn_out. Dense_call2 dnn' tr dnn_out) ds x = Inr y \<and>
             length (val y) = length (val x)"
  using assms
proof (induction ds arbitrary: x)
  case Nil
  then show ?case by simp
next
  case (Cons d ds)
  then obtain al where "activation d = PReLU al" by auto
  from Dense_call2_prelu[OF this, of tr x] obtain x1 where
    x1: "Dense_call2 d tr x = Inr x1" "length (val x1) = length (val x)" by blast
  from Cons.IH[of x1] Cons.prems obtain y where
    "fold_e (\<lambda>dnn' dnn_out. Dense_call2 dnn' tr dnn_out) ds x1 = Inr y" "length (val y) = length (val x1)"
    by auto
  then show ?case using x1 by simp
qed

lemma get_dnn_logits_scores:
  assumes "runs B dnn_input e"
  shows "\<exists>p. krun (get_dnn_logits dnn_input hu ''prelu'') e = Inr p \<and> length p = B \<and>
             (\<forall>r\<in>set p. length r = 1 \<and> 0 < r ! 0 \<and> r ! 0 < 1)"
proof -
  from assms obtain v where v: "krun dnn_input e = Inr v" "length v = B" by (auto simp: runs_def)
  let ?dnns = "map (\<lambda>i. Dense_init (hu ! i)
                               (if ''prelu'' = ''prelu'' then PReLU (p_prelu (dnn_params e i))
                                else DiceAct (p_dice (dnn_params e i)))
                               (dnn_params e i)) [0..<length hu]"
  have "\<forall>fc\<in>set ?dnns. \<exists>al. activation fc = PReLU al" by (auto simp: Dense_init_def)
  from fold_dense2_prelu[OF this, of "is_training e" "\<lparr>shape = kshape dnn_input, val = v\<rparr>"]
  obtain y where y: "fold_e (\<lambda>dnn' dnn_out. Dense_call2 dnn' (is_training e) dnn_out) ?dnns
                        \<lparr>shape = kshape dnn_input, val = v\<rparr> = Inr y" "length (val y) = B"
    using v(2) by auto
  let ?out = "Dense_init 1 Sigmoid (dnn_params e (length hu))"
  let ?p = "map (map sigmoid) (map (dense_row ?out) (val y))"
  have o: "Dense_call2 ?out (is_training e) y = Inr \<lparr>shape = butlast (shape y) @ [1], val = ?p\<rparr>"
    by (simp add: Dense_call2_def Dense_init_def)
  have k: "krun (get_dnn_logits dnn_input hu ''prelu'') e = Inr ?p"
    using v(1) y(1) o by (simp add: get_dnn_logits_def Let_def)
  have rows: "\<forall>r\<in>set ?p. length r = 1 \<and> 0 < r ! 0 \<and> r ! 0 < 1"
    by (auto simp: dense_row_def Dense_init_def sigmoid_range)
  have lp: "length ?p = B" using y(2) by simp
  show ?thesis
    apply (rule exI[of _ ?p])
    apply (intro conjI)
      apply (rule k)
     apply (rule lp)
    apply (rule rows)
    done
qed

subsection \<open>The end-to-end scenario\<close>

lemmas din_eval = DIN_def build_input_layers_def build_embedding_layers_def concat_embedding_list_def
  embedding_lookup_def lookup_embed_def dict_get_def dict_values_def concat_input_list_def
  Concatenate_axis1_def concat_shapes_ok_def AttentionPoolingLayer_apply_def
  input_layers_step_def embedding_layers_step_def Embedding_init_def Let_def Embedding_call_def
  Flatten_call_def Input_def get_dnn_logits_def

lemmas trace_eval = AttentionPoolingLayer_call_def AttentionPoolingLayer_init_def
  LocalActivationUnit_init_def LocalActivationUnit_call_def LocalActivationUnit_att_input_def
  key_masks_def tf_first_coordinate_def tf_not_equal_def tf_zeros_like_def tf_where_def
  tf_expand_dims1_def tf_matmul_def tf_squeeze_axis1_def tf_squeeze_last_def tf_concat_last_def
  tf_binop3_def tf_tile_axis1_def broadcast_dim_def Dense_call3_def Dense_init_def
  default_hidden_units_def blank_params_def

lemma runs_Input:
  assumes "feed e k = Some v" "length v = B" "\<forall>r\<in>set v. length r = n"
  shows "krun (Input n k) e = Inr v" "runs B (Input n k) e"
  using assms by (simp_all add: Input_def runs_def list_all_iff)

lemma to_index_zero: "to_index 0 = 0"
  by (simp add: to_index_def)

lemma fold_input_layers_distinct:
  assumes "distinct (map name fcs)" "fc \<in> set fcs"
  shows "map_of (fold input_layers_step fcs acc) (name fc) =
     Some (Input (case fc of SparseFeat nm v d \<Rightarrow> 1 | DenseFeat nm n \<Rightarrow> n
                  | VarLenSparseFeat nm v d m \<Rightarrow> m) (name fc))"
  using assms
proof (induction fcs arbitrary: acc)
  case Nil
  then show ?case by simp
next
  case (Cons x xs)
  show ?case
  proof (cases "fc = x")
    case True
    then have "name fc \<notin> name ` set xs" using Cons.prems(1) by auto
    then have "map_of (fold input_layers_step (x # xs) acc) (name fc)
                 = map_of (input_layers_step x acc) (name fc)"
      by (simp add: fold_input_layers_other)
    then show ?thesis using True by (simp add: input_layers_step_map_of)
  next
    case False
    then have m: "fc \<in> set xs" using Cons.prems(2) by simp
    have d: "distinct (map name xs)" using Cons.prems(1) by simp
    from Cons.IH[OF d m, of "input_layers_step x acc"] show ?thesis by simp
  qed
qed

lemma build_input_layers_distinct:
  assumes "distinct (map name fcs)" "fc \<in> set fcs"
  shows "map_of (build_input_layers fcs) (name fc) =
     Some (Input (case fc of SparseFeat nm v d \<Rightarrow> 1 | DenseFeat nm n \<Rightarrow> n
                  | VarLenSparseFeat nm v d m \<Rightarrow> m) (name fc))"
  unfolding build_input_layers_def by (rule fold_input_layers_distinct[OF assms])

lemma fold_input_layers_keys:
  "distinct (map fst acc) \<Longrightarrow> distinct (map fst (fold input_layers_step fcs acc))"
proof (induction fcs arbitrary: acc)
  case Nil
  then show ?case by simp
next
  case (Cons x xs)
  have "distinct (map fst (input_layers_step x acc))"
    using Cons.prems by (cases x) (simp_all add: input_layers_step_def distinct_update)
  from Cons.IH[OF this] show ?case by simp
qed

lemma build_input_layers_values_distinct:
  assumes "distinct (map name fcs)" "t \<in> set (dict_values (build_input_layers fcs))"
  shows "\<exists>fc\<in>set fcs. t = Input (case fc of SparseFeat nm v d \<Rightarrow> 1 | DenseFeat nm n \<Rightarrow> n
                                    | VarLenSparseFeat nm v d m \<Rightarrow> m) (name fc)"
proof -
  from assms(2) obtain k where kt: "(k, t) \<in> set (build_input_layers fcs)"
    by (auto simp: dict_values_def)
  have "distinct (map fst (build_input_layers fcs))"
    unfolding build_input_layers_def by (rule fold_input_layers_keys) simp
  with kt have mk: "map_of (build_input_layers fcs) k = Some t" by simp
  have "k \<in> name ` set fcs"
  proof (rule ccontr)
    assume "k \<notin> name ` set fcs"
    from build_input_layers_absent[OF this] mk show False by simp
  qed
  then obtain fc where fc: "fc \<in> set fcs" "k = name fc" by auto
  from build_input_layers_distinct[OF assms(1) fc(1)] mk fc(2) fc(1) show ?thesis by auto
qed

lemma embedding_layers_of_distinct:
  assumes "list_all embedding_sizes_ok fcs" "distinct (map name fcs)" "fc \<in> set fcs"
  shows "map_of (embedding_layers_of fcs) (name fc) =
     (case fc of
        SparseFeat nm v d \<Rightarrow>
          Some \<lparr>input_dim = v, output_dim = d, layer_name = ''emb_'' @ nm, mask_zero = False\<rparr>
      | DenseFeat nm n \<Rightarrow> None
      | VarLenSparseFeat nm v d m \<Rightarrow>
          Some \<lparr>input_dim = v + 1, output_dim = d, layer_name = ''emb_'' @ nm, mask_zero = True\<rparr>)"
  using fold_embedding_layers_distinct[OF embedding_layers_of_built[OF assms(1)] assms(2,3)]
  by (cases fc) simp_all

lemma Concatenate_axis1_rank2:
  assumes "ts \<noteq> []" "\<forall>t\<in>set ts. length (kshape t) = 1"
  shows "\<exists>c. Concatenate_axis1 (map Some ts) = Inr c \<and> length (kshape c) = 1"
proof -
  have s: "\<forall>t\<in>set ts. kshape t \<noteq> [] \<and> tl (kshape t) = []"
    using assms(2) by (auto simp: length_Suc_conv)
  have "hd ts \<in> set ts" using assms(1) by simp
  then have "concat_shapes_ok (map kshape ts)"
    using s assms(1) by (auto simp: concat_shapes_ok_def list_all_iff hd_map)
  then show ?thesis using s \<open>hd ts \<in> set ts\<close> assms(1)
    by (simp add: Concatenate_axis1_def Let_def comp_def)
qed

lemma AttentionPoolingLayer_apply_builds:
  assumes sq: "kshape q = [1, D]" and sk: "kshape k = [L, D]" and d: "0 < D"
  shows "\<exists>s. AttentionPoolingLayer_apply i (q, k) = Inr s \<and> kshape s = [D]"
proof -
  obtain traced where t:
    "AttentionPoolingLayer_call (AttentionPoolingLayer_init default_hidden_units blank_params) False
       (\<lparr>shape = kshape q, val = []\<rparr>, \<lparr>shape = kshape k, val = []\<rparr>) = Inr traced"
    "shape traced = [D]"
    using AttentionPoolingLayer_call_total[of "\<lparr>shape = kshape q, val = []\<rparr>" D
            "\<lparr>shape = kshape k, val = []\<rparr>" L default_hidden_units blank_params False] sq sk d
    by auto
  then show ?thesis by (simp add: AttentionPoolingLayer_apply_def)
qed

lemma filter_implied:
  assumes "\<And>x. P x \<Longrightarrow> Q x"
  shows "filter P (filter Q xs) = filter P xs"
  using assms by (induction xs) auto

text \<open>
  A schema that extends the scenario by Dense descriptors: the descriptors that are not
  Dense are those of the scenario, in their order.
\<close>

lemma extended_scenario_parts:
  assumes nd: "filter (\<lambda>fc. \<not> isinstance_DenseFeat fc) fcs = scenario"
    and dn: "distinct (map name fcs)"
  shows "SparseFeat ''user_id'' 100 8 \<in> set fcs"
    and "VarLenSparseFeat ''history'' 500 8 50 \<in> set fcs"
    and "SparseFeat ''candidate_id'' 500 8 \<in> set fcs"
    and "\<forall>fc\<in>set fcs. isinstance_DenseFeat fc \<or> fc \<in> set scenario"
    and "list_all embedding_sizes_ok fcs"
    and "filter isinstance_SparseFeat fcs
           = [SparseFeat ''user_id'' 100 8, SparseFeat ''candidate_id'' 500 8]"
proof -
  have s: "set scenario = {fc \<in> set fcs. \<not> isinstance_DenseFeat fc}"
    using arg_cong[OF nd, of set] by auto
  show "SparseFeat ''user_id'' 100 8 \<in> set fcs" "VarLenSparseFeat ''history'' 500 8 50 \<in> set fcs"
    "SparseFeat ''candidate_id'' 500 8 \<in> set fcs"
    using s by (auto simp: scenario_def)
  show m: "\<forall>fc\<in>set fcs. isinstance_DenseFeat fc \<or> fc \<in> set scenario" using s by auto
  show "list_all embedding_sizes_ok fcs"
    unfolding list_all_iff
  proof
    fix fc assume "fc \<in> set fcs"
    with m have "isinstance_DenseFeat fc \<or> fc \<in> set scenario" by blast
    then show "embedding_sizes_ok fc" by (cases fc) (auto simp: scenario_def)
  qed
  have "filter isinstance_SparseFeat fcs
          = filter isinstance_SparseFeat (filter (\<lambda>fc. \<not> isinstance_DenseFeat fc) fcs)"
  proof (rule filter_implied[symmetric])
    fix x assume "isinstance_SparseFeat x"
    then show "\<not> isinstance_DenseFeat x" by (cases x) auto
  qed
  then show "filter isinstance_SparseFeat fcs
           = [SparseFeat ''user_id'' 100 8, SparseFeat ''candidate_id'' 500 8]"
    unfolding nd by (simp add: scenario_def)
qed

lemma extended_scenario_embeds:
  assumes nd: "filter (\<lambda>fc. \<not> isinstance_DenseFeat fc) fcs = scenario"
    and dn: "distinct (map name fcs)"
  shows "embed_of fcs ''user_id''
           = Embedding_call \<lparr>input_dim = 100, output_dim = 8, layer_name = ''emb_user_id'',
                             mask_zero = False\<rparr> (Input 1 ''user_id'')"
    and "embed_of fcs ''candidate_id''
           = Embedding_call \<lparr>input_dim = 500, output_dim = 8, layer_name = ''emb_candidate_id'',
                             mask_zero = False\<rparr> (Input 1 ''candidate_id'')"
    and "embed_of fcs ''history''
           = Embedding_call \<lparr>input_dim = 501, output_dim = 8, layer_name = ''emb_history'',
                             mask_zero = True\<rparr> (Input 50 ''history'')"
proof -
  note p = extended_scenario_parts[OF nd dn]
  show "embed_of fcs ''user_id''
           = Embedding_call \<lparr>input_dim = 100, output_dim = 8, layer_name = ''emb_user_id'',
                             mask_zero = False\<rparr> (Input 1 ''user_id'')"
    using embedding_layers_of_distinct[OF p(5) dn p(1)] build_input_layers_distinct[OF dn p(1)]
    by (simp add: embed_of_def)
  show "embed_of fcs ''candidate_id''
           = Embedding_call \<lparr>input_dim = 500, output_dim = 8, layer_name = ''emb_candidate_id'',
                             mask_zero = False\<rparr> (Input 1 ''candidate_id'')"
    using embedding_layers_of_distinct[OF p(5) dn p(3)] build_input_layers_distinct[OF dn p(3)]
    by (simp add: embed_of_def)
  show "embed_of fcs ''history''
           = Embedding_call \<lparr>input_dim = 501, output_dim = 8, layer_name = ''emb_history'',
                             mask_zero = True\<rparr> (Input 50 ''history'')"
    using embedding_layers_of_distinct[OF p(5) dn p(2)] build_input_layers_distinct[OF dn p(2)]
    by (simp add: embed_of_def)
qed

lemma extended_scenario_builds:
  assumes nd: "filter (\<lambda>fc. \<not> isinstance_DenseFeat fc) fcs = scenario"
    and de: "filter isinstance_DenseFeat fcs \<noteq> []"
    and dn: "distinct (map name fcs)"
  shows "\<exists>m. DIN fcs [''candidate_id''] [''history''] = Inr m"
proof -
  let ?ild = "build_input_layers fcs"
  let ?eld = "embedding_layers_of fcs"
  note p = extended_scenario_parts[OF nd dn]
  note eo = extended_scenario_embeds[OF nd dn]
  obtain dense_in sparse_in where din:
    "concat_input_list (dense_inputs fcs) = Inr dense_in"
    "concat_input_list (sparse_inputs fcs) = Inr sparse_in"
    "DIN fcs [''candidate_id''] [''history''] =
       ebind (embedding_lookup [''candidate_id''] ?ild ?eld) (\<lambda>query_embed_list.
       ebind (embedding_lookup [''history''] ?ild ?eld) (\<lambda>keys_embed_list.
       DIN_pooling (dict_values ?ild) dense_in sparse_in query_embed_list keys_embed_list))"
    using DIN_prefix[of fcs "[''candidate_id'']" "[''history'']"] p(5) by auto
  have dne: "dense_inputs fcs \<noteq> []" using de by (simp add: dense_inputs_def)
  have sne: "sparse_inputs fcs \<noteq> []" by (simp add: sparse_inputs_def p(6))
  obtain dt where dt: "dense_in = Some dt" "length (kshape dt) = 1"
    using concat_input_list_rank2[OF dense_inputs_rank, of fcs] din(1) dne by (cases dense_in) auto
  obtain st where st: "sparse_in = Some st" "length (kshape st) = 1"
    using concat_input_list_rank2[OF sparse_inputs_rank, of fcs] din(2) sne by (cases sparse_in) auto
  have lc: "map_of ?ild ''candidate_id'' \<noteq> None \<and> map_of ?eld ''candidate_id'' \<noteq> None"
    using embedding_layers_of_distinct[OF p(5) dn p(3)] build_input_layers_distinct[OF dn p(3)]
    by simp
  have lh: "map_of ?ild ''history'' \<noteq> None \<and> map_of ?eld ''history'' \<noteq> None"
    using embedding_layers_of_distinct[OF p(5) dn p(2)] build_input_layers_distinct[OF dn p(2)]
    by simp
  have q: "embedding_lookup [''candidate_id''] ?ild ?eld = Inr [embed_of fcs ''candidate_id'']"
    using lookup_loop_succeeds[of "[''candidate_id'']" ?ild "\<lambda>k. k" ?eld] lc
    by (simp add: embedding_lookup_eq embed_of_def)
  have k: "embedding_lookup [''history''] ?ild ?eld = Inr [embed_of fcs ''history'']"
    using lookup_loop_succeeds[of "[''history'']" ?ild "\<lambda>k. k" ?eld] lh
    by (simp add: embedding_lookup_eq embed_of_def)
  obtain s0 where s0:
    "AttentionPoolingLayer_apply 0 (embed_of fcs ''candidate_id'', embed_of fcs ''history'') = Inr s0"
    "kshape s0 = [8]"
    using AttentionPoolingLayer_apply_builds[of "embed_of fcs ''candidate_id''" 8
            "embed_of fcs ''history''" 50 0]
    by (auto simp: eo Embedding_call_def Input_def)
  obtain c where c: "Concatenate_axis1 (map Some [dt, st, s0]) = Inr c"
    using Concatenate_axis1_rank2[of "[dt, st, s0]"] dt(2) st(2) s0(2) by auto
  have "DIN_pooling (dict_values ?ild) dense_in sparse_in
          [embed_of fcs ''candidate_id''] [embed_of fcs ''history'']
        = Inr \<lparr>model_inputs = dict_values ?ild, model_outputs = get_dnn_logits c [200, 80] ''prelu''\<rparr>"
    using s0(1) c dt(1) st(1) by (simp add: DIN_pooling_def concat_input_list_def Let_def)
  then show ?thesis unfolding din(3) q k by simp
qed

lemma extended_scenario_scores:
  assumes nd: "filter (\<lambda>fc. \<not> isinstance_DenseFeat fc) fcs = scenario"
    and dn: "distinct (map name fcs)"
    and u: "feed e ''user_id'' = Some u" "length u = 4"
      "\<forall>r\<in>set u. length r = 1 \<and> 0 \<le> to_index (r ! 0) \<and> to_index (r ! 0) < 100"
    and c: "feed e ''candidate_id'' = Some c" "length c = 4"
      "\<forall>r\<in>set c. length r = 1 \<and> 0 \<le> to_index (r ! 0) \<and> to_index (r ! 0) < 500"
    and h: "feed e ''history'' = Some (replicate 4 (replicate 50 0))"
    and t: "\<forall>d\<in>set fcs. isinstance_DenseFeat d \<longrightarrow>
              (\<exists>t. feed e (name d) = Some t \<and> length t = 4 \<and> (\<forall>r\<in>set t. length r = dimension d))"
    and m: "DIN fcs [''candidate_id''] [''history''] = Inr m"
  shows "\<exists>p. Model_call m e = Inr p \<and> length p = 4 \<and>
             (\<forall>r\<in>set p. length r = 1 \<and> 0 < r ! 0 \<and> r ! 0 < 1)"
proof -
  let ?eu = "\<lparr>input_dim = 100, output_dim = 8, layer_name = ''emb_user_id'', mask_zero = False\<rparr>"
  let ?eh = "\<lparr>input_dim = 501, output_dim = 8, layer_name = ''emb_history'', mask_zero = True\<rparr>"
  let ?ec = "\<lparr>input_dim = 500, output_dim = 8, layer_name = ''emb_candidate_id'', mask_zero = False\<rparr>"
  note p = extended_scenario_parts[OF nd dn]
  note eo = extended_scenario_embeds[OF nd dn]
  have ru: "runs 4 (Input 1 ''user_id'') e" and ku: "krun (Input 1 ''user_id'') e = Inr u"
    using runs_Input[OF u(1,2), of 1] u(3) by auto
  have rc: "runs 4 (Input 1 ''candidate_id'') e" and kc: "krun (Input 1 ''candidate_id'') e = Inr c"
    using runs_Input[OF c(1,2), of 1] c(3) by auto
  have rh: "runs 4 (Input 50 ''history'') e"
    and kh: "krun (Input 50 ''history'') e = Inr (replicate 4 (replicate 50 0))"
    using runs_Input[OF h, of 4 50] by auto
  have rdense: "runs 4 (Input (dimension d) (name d)) e"
    if "d \<in> set fcs" "isinstance_DenseFeat d" for d
  proof -
    from t that obtain v where "feed e (name d) = Some v" "length v = 4"
      "\<forall>r\<in>set v. length r = dimension d" by blast
    then show ?thesis by (rule runs_Input(2))
  qed
  have single: "\<forall>x\<in>set r. x = r ! 0" if "length r = 1" for r :: "real list"
    using that by (cases r) auto
  have iu: "\<forall>r\<in>set u. \<forall>x\<in>set r. 0 \<le> to_index x \<and> to_index x < int (input_dim ?eu)"
    using u(3) single by fastforce
  have ic: "\<forall>r\<in>set c. \<forall>x\<in>set r. 0 \<le> to_index x \<and> to_index x < int (input_dim ?ec)"
    using c(3) single by fastforce
  have ih: "\<forall>r\<in>set (replicate 4 (replicate 50 (0::real))). \<forall>x\<in>set r.
              0 \<le> to_index x \<and> to_index x < int (input_dim ?eh)"
    by (simp add: to_index_zero)
  have reu: "runs 4 (Embedding_call ?eu (Input 1 ''user_id'')) e"
    by (rule runs_Embedding[OF ku u(2) iu])
  have rec: "runs 4 (Embedding_call ?ec (Input 1 ''candidate_id'')) e"
    by (rule runs_Embedding[OF kc c(2) ic])
  have reh: "runs 4 (Embedding_call ?eh (Input 50 ''history'')) e"
    by (rule runs_Embedding[OF kh _ ih]) simp
  have input_runs: "runs 4 (Input (case fc of SparseFeat nm v d \<Rightarrow> 1 | DenseFeat nm n \<Rightarrow> n
                                    | VarLenSparseFeat nm v d m \<Rightarrow> m) (name fc)) e"
    if "fc \<in> set fcs" for fc
  proof (cases "isinstance_DenseFeat fc")
    case True
    from rdense[OF that True] True show ?thesis by (cases fc) simp_all
  next
    case False
    with p(4) that have "fc \<in> set scenario" by blast
    then show ?thesis using ru rc rh by (auto simp: scenario_def)
  qed
  have rd: "\<forall>t\<in>set (dense_inputs fcs). runs 4 t e"
  proof
    fix t assume "t \<in> set (dense_inputs fcs)"
    then obtain fc where fc: "fc \<in> set fcs" "isinstance_DenseFeat fc"
        "t = the (map_of (build_input_layers fcs) (name fc))"
      by (auto simp: dense_inputs_def)
    from build_input_layers_distinct[OF dn fc(1)] fc(3) input_runs[OF fc(1)]
    show "runs 4 t e" by simp
  qed
  have si: "sparse_inputs fcs = [Flatten_call (embed_of fcs ''user_id''),
                                  Flatten_call (embed_of fcs ''candidate_id'')]"
    by (simp add: sparse_inputs_def p(6) embed_of_def)
  have rs: "\<forall>t\<in>set (sparse_inputs fcs). runs 4 t e"
    unfolding si eo using reu rec by (simp add: runs_Flatten)
  from DIN_Inr[OF m] obtain dense_in sparse_in seqs seq_in dnn_input where r:
     "concat_input_list (dense_inputs fcs) = Inr dense_in"
     "concat_input_list (sparse_inputs fcs) = Inr sparse_in"
     "length seqs = length [''history'']"
     "\<forall>i<length [''history''].
        AttentionPoolingLayer_apply i (embed_of fcs ([''candidate_id''] ! i), embed_of fcs ([''history''] ! i))
          = Inr (seqs ! i)"
     "concat_input_list seqs = Inr seq_in"
     "Concatenate_axis1 [dense_in, sparse_in, seq_in] = Inr dnn_input"
     "m = \<lparr>model_inputs = dict_values (build_input_layers fcs),
          model_outputs = get_dnn_logits dnn_input [200, 80] ''prelu''\<rparr>"
    by blast
  have rdi: "\<forall>t. dense_in = Some t \<longrightarrow> runs 4 t e"
    using runs_concat_input_list[OF _ rd] r(1) by auto
  have rsi: "\<forall>t. sparse_in = Some t \<longrightarrow> runs 4 t e"
    using runs_concat_input_list[OF _ rs] r(2) by auto
  obtain s0 where s0: "seqs = [s0]" using r(3) by (cases seqs) auto
  have a0: "AttentionPoolingLayer_apply 0 (Embedding_call ?ec (Input 1 ''candidate_id''),
              Embedding_call ?eh (Input 50 ''history'')) = Inr s0"
    using r(4) s0 eo by simp
  have rs0: "runs 4 s0 e"
    using AttentionPoolingLayer_apply_runs[OF a0, of 8 50 4 e] rec reh
    by (simp add: Embedding_call_def Input_def)
  have sq: "seq_in = Some s0" using r(5) s0 by (simp add: concat_input_list_def)
  have "runs 4 dnn_input e"
    using runs_Concatenate[OF r(6), of 4 e] rdi rsi sq rs0 by auto
  from get_dnn_logits_scores[OF this, of "[200, 80]"]
  obtain p where p: "krun (get_dnn_logits dnn_input [200, 80] ''prelu'') e = Inr p" "length p = 4"
     "\<forall>r\<in>set p. length r = 1 \<and> 0 < r ! 0 \<and> r ! 0 < 1"
    by blast
  have "\<forall>t\<in>set (model_inputs m). \<exists>y. krun t e = Inr y"
  proof
    fix t assume "t \<in> set (model_inputs m)"
    then have "t \<in> set (dict_values (build_input_layers fcs))" by (simp add: r(7))
    from build_input_layers_values_distinct[OF dn this] input_runs
    show "\<exists>y. krun t e = Inr y" by (auto simp: runs_def)
  qed
  from sequence_e_all_Inr[OF this]
  have inputs: "\<exists>fed. sequence_e (map (\<lambda>t. krun t e) (model_inputs m)) = Inr fed" by blast
  then show ?thesis using p by (auto simp: Model_call_def r(7))
qed

text \<open>
  C5, as stated, fails. The scenario's schema has no Dense descriptor, so the dense branch
  is \<open>concat_input_list []\<close>, which is \<open>None\<close>, and the final concatenation of the three
  branches is called on it: \<open>DIN\<close> raises and returns no model.
\<close>

theorem DIN_without_dense_feature_fails:
  "DIN [SparseFeat ''user_id'' 100 8, VarLenSparseFeat ''history'' 500 8 50,
        SparseFeat ''candidate_id'' 500 8] [''candidate_id''] [''history''] = Inl NoneInput"
  by (simp add: din_eval trace_eval upt_rec)

text \<open>
  C5, amended. For the scenario's schema extended by the Dense descriptor
  \<open>DenseFeat ''time'' 1\<close>, \<open>DIN\<close> returns a model; fed a batch of four examples whose
  histories are all zeros and whose identifiers lie within the vocabularies, the model
  returns four rows of one probability each, strictly between 0 and 1, whatever the weights.
\<close>

theorem DIN_with_dense_feature_scores:
  assumes "feed e ''user_id'' = Some u" "length u = 4"
      "\<forall>r\<in>set u. length r = 1 \<and> 0 \<le> to_index (r ! 0) \<and> to_index (r ! 0) < 100"
    and "feed e ''candidate_id'' = Some c" "length c = 4"
      "\<forall>r\<in>set c. length r = 1 \<and> 0 \<le> to_index (r ! 0) \<and> to_index (r ! 0) < 500"
    and "feed e ''history'' = Some (replicate 4 (replicate 50 0))"
    and "feed e ''time'' = Some t" "length t = 4" "\<forall>r\<in>set t. length r = 1"
  shows "\<exists>m p. DIN (scenario @ [DenseFeat ''time'' 1]) [''candidate_id''] [''history''] = Inr m \<and>
           Model_call m e = Inr p \<and> length p = 4 \<and>
           (\<forall>r\<in>set p. length r = 1 \<and> 0 < r ! 0 \<and> r ! 0 < 1)"
proof -
  let ?fcs = "scenario @ [DenseFeat ''time'' 1]"
  have s: "filter (\<lambda>fc. \<not> isinstance_DenseFeat fc) ?fcs = scenario"
    "filter isinstance_DenseFeat ?fcs \<noteq> []"
    "distinct (map name ?fcs)"
    by (simp_all add: scenario_def)
  have d: "\<forall>d\<in>set ?fcs. isinstance_DenseFeat d \<longrightarrow>
           (\<exists>t. feed e (name d) = Some t \<and> length t = 4 \<and> (\<forall>r\<in>set t. length r = dimension d))"
    using assms(8-10) by (auto simp: scenario_def)
  from extended_scenario_builds[OF s] obtain m where
    m: "DIN ?fcs [''candidate_id''] [''history''] = Inr m" by blast
  from extended_scenario_scores[OF s(1) s(3) assms(1-7) d m] m show ?thesis by blast
qed

theorem DIN_with_dense_feature_scores_witness:
  "\<exists>m p. DIN (scenario @ [DenseFeat ''time'' 1]) [''candidate_id''] [''history''] = Inr m \<and>
           Model_call m example_env = Inr p \<and> length p = 4 \<and>
           (\<forall>r\<in>set p. length r = 1 \<and> 0 < r ! 0 \<and> r ! 0 < 1)"
proof -
  have h: "feed example_env ''user_id'' = Some [[1], [2], [3], [4]]"
    "length [[1], [2], [3], [4::real]] = 4"
    "\<forall>r\<in>set [[1], [2], [3], [4::real]]. length r = 1 \<and> 0 \<le> to_index (r ! 0) \<and> to_index (r ! 0) < 100"
    "feed example_env ''candidate_id'' = Some [[5], [6], [7], [8]]"
    "length [[5], [6], [7], [8::real]] = 4"
    "\<forall>r\<in>set [[5], [6], [7], [8::real]]. length r = 1 \<and> 0 \<le> to_index (r ! 0) \<and> to_index (r ! 0) < 500"
    "feed example_env ''history'' = Some (replicate 4 (replicate 50 0))"
    "feed example_env ''time'' = Some [[0], [1 / 2], [1], [2]]"
    "length [[0], [1 / 2], [1], [2::real]] = 4"
    "\<forall>r\<in>set [[0], [1 / 2], [1], [2::real]]. length r = 1"
    by (simp_all add: example_env_def to_index_def)
  show ?thesis by (rule DIN_with_dense_feature_scores[OF h])
qed

subsection \<open>What the output of a model reads\<close>

lemma reads_Input: "k \<in> S \<Longrightarrow> reads S (Input n k)"
  by (simp add: reads_def env_agree_def Input_def)

lemma reads_Embedding:
  assumes "reads S t" "layer_name em = ''emb_'' @ k" "k \<in> S"
  shows "reads S (Embedding_call em t)"
  unfolding reads_def
proof (intro allI impI)
  fix e e' assume a: "env_agree S e e'"
  then have "krun t e = krun t e'" using assms(1) by (simp add: reads_def)
  moreover have "embeddings e (layer_name em) = embeddings e' (layer_name em)"
    using a assms(2,3) by (simp add: env_agree_def)
  ultimately show "krun (Embedding_call em t) e = krun (Embedding_call em t) e'"
    by (simp add: Embedding_call_def)
qed

lemma reads_Flatten: "reads S t \<Longrightarrow> reads S (Flatten_call t)"
  by (simp add: reads_def Flatten_call_def)

lemma reads_Concatenate:
  assumes c: "Concatenate_axis1 xs = Inr c" and r: "\<forall>t. Some t \<in> set xs \<longrightarrow> reads S t"
  shows "reads S c"
  unfolding reads_def
proof (intro allI impI)
  fix e e' assume a: "env_agree S e e'"
  from c have nn: "None \<notin> set xs" by (auto simp: Concatenate_axis1_def split: if_splits)
  from c nn have cr: "krun c = (\<lambda>e. ebind (sequence_e (map (\<lambda>t. krun t e) (map the xs))) concat_axis1)"
    by (auto simp: Concatenate_axis1_def Let_def split: if_splits)
  have "map (\<lambda>t. krun t e) (map the xs) = map (\<lambda>t. krun t e') (map the xs)"
  proof (rule map_cong[OF refl])
    fix t assume "t \<in> set (map the xs)"
    then obtain x where x: "x \<in> set xs" "t = the x" by auto
    have "x \<noteq> None"
    proof
      assume "x = None"
      then have "None \<in> set xs" using x(1) by simp
      then show False using nn by simp
    qed
    then have "x = Some t" using x(2) by (cases x) auto
    then have "Some t \<in> set xs" using x(1) by simp
    then show "krun t e = krun t e'" using r a by (simp add: reads_def)
  qed
  then have "sequence_e (map (\<lambda>t. krun t e) (map the xs))
               = sequence_e (map (\<lambda>t. krun t e') (map the xs))"
    by (simp only:)
  then show "krun c e = krun c e'" by (simp only: cr)
qed

lemma reads_concat_input_list:
  assumes "concat_input_list xs = Inr (Some c)" "\<forall>t\<in>set xs. reads S t"
  shows "reads S c"
proof -
  consider "xs = []" | x where "xs = [x]" | "1 < length xs"
    by (cases xs; cases "tl xs") auto
  then show ?thesis
  proof cases
    case 1
    then show ?thesis using assms by (simp add: concat_input_list_def)
  next
    case 2
    then show ?thesis using assms by (simp add: concat_input_list_def)
  next
    case 3
    then obtain t where "Concatenate_axis1 (map Some xs) = Inr t" "t = c"
      using assms(1) by (auto simp: concat_input_list_def ebind_eq_Inr)
    then show ?thesis using reads_Concatenate[of "map Some xs" c S] assms(2) by auto
  qed
qed

lemma reads_AttentionPooling:
  assumes a: "AttentionPoolingLayer_apply i (q, k) = Inr s" and "reads S q" "reads S k"
  shows "reads S s"
  unfolding reads_def
proof (intro allI impI)
  fix e e' assume ag: "env_agree S e e'"
  then have eq: "krun q e = krun q e'" "krun k e = krun k e'" "att_params e = att_params e'"
    "is_training e = is_training e'"
    using assms(2,3) by (simp_all add: reads_def env_agree_def)
  from a obtain sh where
    s: "s = \<lparr>kshape = sh,
               krun = (\<lambda>e. ebind (krun q e) (\<lambda>qv. ebind (krun k e) (\<lambda>kv.
                  ebind (AttentionPoolingLayer_call
                           (AttentionPoolingLayer_init default_hidden_units (att_params e i))
                           (is_training e)
                           (\<lparr>shape = kshape q, val = qv\<rparr>, \<lparr>shape = kshape k, val = kv\<rparr>))
                        (\<lambda>out. Inr (val out)))))\<rparr>"
    by (cases "AttentionPoolingLayer_call (AttentionPoolingLayer_init default_hidden_units blank_params)
                 False (\<lparr>shape = kshape q, val = []\<rparr>, \<lparr>shape = kshape k, val = []\<rparr>)")
       (auto simp: AttentionPoolingLayer_apply_def)
  show "krun s e = krun s e'" by (simp add: s eq)
qed

lemma reads_get_dnn_logits:
  assumes "reads S t"
  shows "reads S (get_dnn_logits t hu act)"
  unfolding reads_def
proof (intro allI impI)
  fix e e' assume ag: "env_agree S e e'"
  then have eq: "krun t e = krun t e'" "dnn_params e = dnn_params e'" "is_training e = is_training e'"
    using assms by (simp_all add: reads_def env_agree_def)
  show "krun (get_dnn_logits t hu act) e = krun (get_dnn_logits t hu act) e'"
    by (simp add: get_dnn_logits_def eq cong: if_cong)
qed

lemma env_agree_mono: "S \<subseteq> S' \<Longrightarrow> env_agree S' e e' \<Longrightarrow> env_agree S e e'"
  by (auto simp: env_agree_def)

lemma embed_of_reads:
  assumes "map_of (build_input_layers fcs) k \<noteq> None"
    "map_of (embedding_layers_of fcs) k \<noteq> None" "k \<in> S"
  shows "reads S (embed_of fcs k)"
proof -
  from assms(1) obtain t where t: "map_of (build_input_layers fcs) k = Some t" by auto
  from assms(2) obtain em where
    em: "map_of (embedding_layers_of fcs) k = Some em" by auto
  from build_input_layers_value[OF t] obtain n where n: "t = Input n k" by blast
  have "layer_name em = ''emb_'' @ k" by (rule build_embedding_layers_value[OF em])
  then have "reads S (Embedding_call em (Input n k))"
    using reads_Embedding[OF reads_Input[OF assms(3)], of em k n] assms(3) by simp
  then show ?thesis by (simp add: embed_of_def t em n)
qed

lemma dense_inputs_reads:
  assumes "name ` {fc \<in> set fcs. isinstance_DenseFeat fc} \<subseteq> S"
  shows "\<forall>t\<in>set (dense_inputs fcs). reads S t"
proof
  fix t assume "t \<in> set (dense_inputs fcs)"
  then obtain fc where fc: "fc \<in> set fcs" "isinstance_DenseFeat fc"
      "t = the (map_of (build_input_layers fcs) (name fc))"
    by (auto simp: dense_inputs_def)
  from build_input_layers_member[OF fc(1)] obtain n where
    "map_of (build_input_layers fcs) (name fc) = Some (Input n (name fc))" by blast
  moreover have "name fc \<in> S" using assms fc(1,2) by auto
  ultimately show "reads S t" using fc(3) by (simp add: reads_Input)
qed

lemma sparse_inputs_reads:
  assumes "name ` {fc \<in> set fcs. isinstance_SparseFeat fc} \<subseteq> S"
    and ok: "list_all embedding_sizes_ok fcs"
  shows "\<forall>t\<in>set (sparse_inputs fcs). reads S t"
proof
  fix t assume "t \<in> set (sparse_inputs fcs)"
  then obtain fc where fc: "fc \<in> set fcs" "isinstance_SparseFeat fc"
      "t = Flatten_call (embed_of fcs (name fc))"
    by (auto simp: sparse_inputs_def embed_of_def)
  have nd: "\<not> isinstance_DenseFeat fc" using fc(2) by (cases fc) auto
  have "map_of (build_input_layers fcs) (name fc) \<noteq> None"
    using build_input_layers_member[OF fc(1)] by auto
  moreover have "map_of (embedding_layers_of fcs) (name fc) \<noteq> None"
    using build_embedding_layers_member[OF ok fc(1) nd] by auto
  moreover have "name fc \<in> S" using assms(1) fc(1,2) by auto
  ultimately have "reads S (embed_of fcs (name fc))" by (rule embed_of_reads)
  then show "reads S t" using fc(3) by (simp add: reads_Flatten)
qed

lemma DIN_reads:
  assumes m: "DIN fcs bfl bsfl = Inr m"
    and S: "name ` {fc \<in> set fcs. \<not> isinstance_VarLenSparseFeat fc} \<union> set bfl \<union> set bsfl \<subseteq> S"
  shows "reads S (model_outputs m)"
proof -
  from DIN_Inr[OF m] obtain dense_in sparse_in seqs seq_in dnn_input where r:
     "concat_input_list (dense_inputs fcs) = Inr dense_in"
     "concat_input_list (sparse_inputs fcs) = Inr sparse_in"
     "\<forall>k\<in>set bfl \<union> set bsfl. map_of (build_input_layers fcs) k \<noteq> None \<and>
        map_of (embedding_layers_of fcs) k \<noteq> None"
     "length seqs = length bsfl" "length bsfl \<le> length bfl"
     "\<forall>i<length bsfl.
        AttentionPoolingLayer_apply i (embed_of fcs (bfl ! i), embed_of fcs (bsfl ! i)) = Inr (seqs ! i)"
     "concat_input_list seqs = Inr seq_in"
     "Concatenate_axis1 [dense_in, sparse_in, seq_in] = Inr dnn_input"
     "m = \<lparr>model_inputs = dict_values (build_input_layers fcs),
          model_outputs = get_dnn_logits dnn_input [200, 80] ''prelu''\<rparr>"
    by blast
  have sd: "name ` {fc \<in> set fcs. isinstance_DenseFeat fc} \<subseteq> S"
  proof
    fix k assume "k \<in> name ` {fc \<in> set fcs. isinstance_DenseFeat fc}"
    then obtain fc where f: "fc \<in> set fcs" "isinstance_DenseFeat fc" "k = name fc" by auto
    have "\<not> isinstance_VarLenSparseFeat fc" using f(2) by (cases fc) auto
    then show "k \<in> S" using S f(1,3) by auto
  qed
  have ss: "name ` {fc \<in> set fcs. isinstance_SparseFeat fc} \<subseteq> S"
  proof
    fix k assume "k \<in> name ` {fc \<in> set fcs. isinstance_SparseFeat fc}"
    then obtain fc where f: "fc \<in> set fcs" "isinstance_SparseFeat fc" "k = name fc" by auto
    have "\<not> isinstance_VarLenSparseFeat fc" using f(2) by (cases fc) auto
    then show "k \<in> S" using S f(1,3) by auto
  qed
  have rd: "\<forall>t. dense_in = Some t \<longrightarrow> reads S t"
    using reads_concat_input_list[OF _ dense_inputs_reads[OF sd]] r(1) by auto
  have rs: "\<forall>t. sparse_in = Some t \<longrightarrow> reads S t"
    using reads_concat_input_list[OF _ sparse_inputs_reads[OF ss DIN_Inr_sizes[OF m]]] r(2) by auto
  have "\<forall>t\<in>set seqs. reads S t"
  proof
    fix t assume "t \<in> set seqs"
    then obtain i where i: "i < length bsfl" "t = seqs ! i"
      using r(4) by (auto simp: in_set_conv_nth)
    then have ib: "i < length bfl" using r(5) by simp
    have kq: "bfl ! i \<in> set bfl" and kk: "bsfl ! i \<in> set bsfl" using i(1) ib by simp_all
    have "reads S (embed_of fcs (bfl ! i))"
      using embed_of_reads[of fcs "bfl ! i" S] r(3) kq S by auto
    moreover have "reads S (embed_of fcs (bsfl ! i))"
      using embed_of_reads[of fcs "bsfl ! i" S] r(3) kk S by auto
    ultimately show "reads S t"
      using reads_AttentionPooling[OF r(6)[rule_format, OF i(1)]] i(2) by simp
  qed
  then have rq: "\<forall>t. seq_in = Some t \<longrightarrow> reads S t"
    using reads_concat_input_list[OF _ \<open>\<forall>t\<in>set seqs. reads S t\<close>] r(7) by auto
  have "reads S dnn_input"
    using reads_Concatenate[OF r(8), of S] rd rs rq by auto
  then show ?thesis by (simp add: r(9) reads_get_dnn_logits)
qed

lemma update_values:
  "set (map snd (AList.update k v al)) \<subseteq> insert v (set (map snd al))"
  by (induction al) auto

lemma fold_input_layers_values:
  assumes "\<forall>t\<in>set (map snd acc). \<exists>n k. t = Input n k"
  shows "\<forall>t\<in>set (map snd (fold input_layers_step fcs acc)). \<exists>n k. t = Input n k"
  using assms
proof (induction fcs arbitrary: acc)
  case Nil
  then show ?case by simp
next
  case (Cons fc fcs)
  have "\<forall>t\<in>set (map snd (input_layers_step fc acc)). \<exists>n k. t = Input n k"
  proof
    fix t assume t: "t \<in> set (map snd (input_layers_step fc acc))"
    obtain k v where kv: "input_layers_step fc acc = AList.update k v acc" "\<exists>n. v = Input n k"
      by (cases fc) (auto simp: input_layers_step_def)
    then have "t = v \<or> t \<in> set (map snd acc)" using t update_values[of k v acc] by auto
    then show "\<exists>n k. t = Input n k" using kv(2) Cons.prems by auto
  qed
  from Cons.IH[OF this] show ?case by simp
qed

lemma model_inputs_are_inputs:
  "\<forall>t\<in>set (dict_values (build_input_layers fcs)). \<exists>n k. t = Input n k"
  using fold_input_layers_values[of "[]" fcs] by (simp add: dict_values_def build_input_layers_def)

lemma Input_ignores_embeddings:
  "krun (Input n k) (e\<lparr>embeddings := em\<rparr>) = krun (Input n k) e"
  by (simp add: Input_def)

subsection \<open>Layers with mean weights\<close>

lemma prelu_nonneg: "0 \<le> x \<Longrightarrow> prelu a x = x"
  by (simp add: prelu_def max_def)

lemma sum_list_nth_upt: "sum_list (map (\<lambda>i. f (xs ! i)) [0..<length xs]) = sum_list (map f xs)"
proof -
  have "map (\<lambda>i. f (xs ! i)) [0..<length xs] = map f xs"
    by (intro nth_equalityI) simp_all
  then show ?thesis by simp
qed

lemma sum_list_scaled: "sum_list (map (\<lambda>v. v * c) xs) = sum_list xs * (c::real)"
  by (induction xs) (simp_all add: distrib_right)

lemma dense_row_uniform:
  assumes "length x = n"
  shows "dense_row (Dense_init u act (uniform_params n u al)) x = replicate u (sum_list x / real n)"
proof -
  have "sum_list (map (\<lambda>i. x ! i * replicate n (replicate u (1 / real n)) ! i ! j) [0..<length x])
          + replicate u (0::real) ! j = sum_list x / real n" if "j < u" for j
  proof -
    have m: "map (\<lambda>i. x ! i * replicate n (replicate u (1 / real n)) ! i ! j) [0..<length x]
            = map (\<lambda>i. (x ! i) * (1 / real n)) [0..<length x]"
      using assms that by (intro map_cong refl) simp
    have "sum_list (map (\<lambda>i. x ! i * replicate n (replicate u (1 / real n)) ! i ! j) [0..<length x])
                 = sum_list (map (\<lambda>i. (x ! i) * (1 / real n)) [0..<length x])"
      by (simp only: m)
    also have "\<dots> = sum_list (map (\<lambda>v. v * (1 / real n)) x)"
      by (rule sum_list_nth_upt)
    also have "\<dots> = sum_list x * (1 / real n)" by (rule sum_list_scaled)
    finally show ?thesis using that by simp
  qed
  then show ?thesis
    by (intro nth_equalityI) (simp_all add: dense_row_def Dense_init_def uniform_params_def)
qed

lemma uniform_dense3:
  assumes "val x = [[r]]" "length r = n" "0 \<le> sum_list r / real n"
  shows "Dense_call3 (Dense_init u (PReLU al) (uniform_params n u al')) tr x
           = Inr \<lparr>shape = butlast (shape x) @ [u], val = [[replicate u (sum_list r / real n)]]\<rparr>"
proof -
  let ?fc = "Dense_init u (PReLU al) (uniform_params n u al')"
  have z: "map (map (dense_row ?fc)) (val x) = [[replicate u (sum_list r / real n)]]"
    using assms(1) dense_row_uniform[OF assms(2)] by simp
  have "map (\<lambda>j. prelu (al ! 0 ! j) (replicate u (sum_list r / real n) ! j)) [0..<u]
          = replicate u (sum_list r / real n)"
    using assms(3) by (intro nth_equalityI) (simp_all add: prelu_nonneg)
  then have "activation3 (PReLU al) tr [[replicate u (sum_list r / real n)]]
          = Inr [[replicate u (sum_list r / real n)]]"
    by simp
  then show ?thesis
    by (simp add: Dense_call3_def z) (simp add: Dense_init_def)
qed

lemma uniform_dense2:
  assumes "val x = [r]" "length r = n" "0 \<le> sum_list r / real n"
  shows "Dense_call2 (Dense_init u (PReLU al) (uniform_params n u al')) tr x
           = Inr \<lparr>shape = butlast (shape x) @ [u], val = [replicate u (sum_list r / real n)]\<rparr>"
proof -
  let ?fc = "Dense_init u (PReLU al) (uniform_params n u al')"
  have z: "map (dense_row ?fc) (val x) = [replicate u (sum_list r / real n)]"
    using assms(1) dense_row_uniform[OF assms(2)] by simp
  have "map (\<lambda>j. prelu (al ! j) (replicate u (sum_list r / real n) ! j)) [0..<u]
          = replicate u (sum_list r / real n)"
    using assms(3) by (intro nth_equalityI) (simp_all add: prelu_nonneg)
  then have "activation2 (PReLU al) tr [replicate u (sum_list r / real n)]
          = Inr [replicate u (sum_list r / real n)]"
    by simp
  then show ?thesis
    by (simp add: Dense_call2_def z) (simp add: Dense_init_def)
qed

lemma mean_replicate: "0 < u \<Longrightarrow> sum_list (replicate u (v::real)) / real u = v"
  by (simp add: sum_list_replicate)

lemma interference_scores:
  assumes P: "P 0 = uniform_params 4 256 al0" "P 1 = uniform_params 256 128 al1"
      "P 2 = uniform_params 128 64 al2" "P 3 = uniform_params 64 1 al3"
    and c: "0 \<le> c"
  shows "AttentionPoolingLayer_call (AttentionPoolingLayer_init default_hidden_units P) tr
           (\<lparr>shape = [1, 1], val = [[[c]]]\<rparr>, \<lparr>shape = [1, 1], val = [[[1]]]\<rparr>)
         = Inr \<lparr>shape = [1], val = [[3 * c / 4]]\<rparr>"
proof -
  let ?q = "\<lparr>shape = [1, 1], val = [[[c]]]\<rparr>"
  let ?k = "\<lparr>shape = [1, 1], val = [[[1::real]]]\<rparr>"
  let ?self = "AttentionPoolingLayer_init default_hidden_units P"
  let ?lau = "LocalActivationUnit_init default_hidden_units ''prelu'' P"
  let ?v = "3 * c / 4"
  have la: "local_att ?self = ?lau" by (simp add: AttentionPoolingLayer_init_def)
  have sh: "shape ?q = [1, 1]" "shape ?k = [1, 1]" by simp_all
  have wf: "wf3 ?q" "wf3 ?k" "length (val ?q) = length (val ?k)" by (simp_all add: wf3_def)
  from LocalActivationUnit_call_Inr[OF sh, of ?lau tr]
       LocalActivationUnit_init_linear[of default_hidden_units "''prelu''" P]
       LocalActivationUnit_init_prelu_built[of default_hidden_units P]
  obtain a h s where r: "LocalActivationUnit_att_input (?q, ?k) = Inr a"
      "fold_e (\<lambda>fc att_out. Dense_call3 fc tr att_out) (dnn ?lau) a = Inr h"
      "LocalActivationUnit_call ?lau tr (?q, ?k) = Inr s"
      "shape s = [1]" "length (val s) = length (val ?q)"
      "\<forall>b<length (val ?q). length (val s ! b) = 1 \<and>
              (\<forall>i<1. val s ! b ! i = dense_row (linear_l ?lau) (val h ! b ! i) ! 0)"
    by blast
  from att_input_shape[OF sh] r(1) have a1: "length (val a) = 1" "length (val a ! 0) = 1"
    by auto
  have a2: "val a ! 0 ! 0 = [c, 1, c - 1, c]"
    using att_input_val[OF sh wf r(1), of 0 0] by simp
  have va: "val a = [[[c, 1, c - 1, c]]]"
  proof -
    from a1(1) obtain ex where ex: "val a = [ex]" by (cases "val a") auto
    with a1(2) obtain row where "ex = [row]" by (cases ex) auto
    with ex a2 show ?thesis by simp
  qed
  have P': "P (Suc 0) = uniform_params 256 128 al1" "P (Suc (Suc 0)) = uniform_params 128 64 al2"
    "P (Suc (Suc (Suc 0))) = uniform_params 64 1 al3"
    using P(2,3,4) by (simp_all add: numeral_2_eq_2 numeral_3_eq_3)
  have dn: "dnn ?lau = [Dense_init 256 (PReLU (p_prelu (P 0))) (uniform_params 4 256 al0),
                        Dense_init 128 (PReLU (p_prelu (P 1))) (uniform_params 256 128 al1),
                        Dense_init 64 (PReLU (p_prelu (P 2))) (uniform_params 128 64 al2)]"
    by (simp add: LocalActivationUnit_init_def default_hidden_units_def upt_rec P P')
  have s0: "sum_list [c, 1, c - 1, c] / real 4 = ?v" by simp
  have v0: "0 \<le> ?v" using c by simp
  let ?x1 = "\<lparr>shape = butlast (shape a) @ [256], val = [[replicate 256 ?v]]\<rparr>"
  have l1: "Dense_call3 (Dense_init 256 (PReLU (p_prelu (P 0))) (uniform_params 4 256 al0)) tr a = Inr ?x1"
    using uniform_dense3[of a "[c, 1, c - 1, c]" 4 256 "p_prelu (P 0)" al0 tr] va v0
    unfolding s0 by simp
  let ?x2 = "\<lparr>shape = butlast (shape ?x1) @ [128], val = [[replicate 128 ?v]]\<rparr>"
  have l2: "Dense_call3 (Dense_init 128 (PReLU (p_prelu (P 1))) (uniform_params 256 128 al1)) tr ?x1 = Inr ?x2"
    using uniform_dense3[of ?x1 "replicate 256 ?v" 256 128 "p_prelu (P 1)" al1 tr] v0
    unfolding mean_replicate[of 256 ?v, simplified] by (simp add: sum_list_replicate)
  let ?x3 = "\<lparr>shape = butlast (shape ?x2) @ [64], val = [[replicate 64 ?v]]\<rparr>"
  have l3: "Dense_call3 (Dense_init 64 (PReLU (p_prelu (P 2))) (uniform_params 128 64 al2)) tr ?x2 = Inr ?x3"
    using uniform_dense3[of ?x2 "replicate 128 ?v" 128 64 "p_prelu (P 2)" al2 tr] v0
    by (simp add: sum_list_replicate)
  have "fold_e (\<lambda>fc att_out. Dense_call3 fc tr att_out) (dnn ?lau) a = Inr ?x3"
    unfolding dn using l1 l2 l3 by simp
  with r(2) have h: "h = ?x3" by simp
  have lin: "linear_l ?lau = Dense_init 1 Linear (uniform_params 64 1 al3)"
    by (simp add: LocalActivationUnit_init_def default_hidden_units_def P P')
  have "dense_row (linear_l ?lau) (replicate 64 ?v) = replicate 1 (sum_list (replicate 64 ?v) / real 64)"
    unfolding lin by (rule dense_row_uniform) simp
  then have dl: "dense_row (linear_l ?lau) (replicate 64 ?v) ! 0 = ?v"
    by (simp add: sum_list_replicate)
  have s1: "length (val s) = 1" "length (val s ! 0) = 1" "val s ! 0 ! 0 = ?v"
    using r(5,6) dl by (simp_all add: h)
  from AttentionPoolingLayer_call_formula[OF sh _ wf(2,3), of ?self tr s] r(3,4) s1(1,2)
  obtain out where out: "AttentionPoolingLayer_call ?self tr (?q, ?k) = Inr out" "shape out = [1]"
      "length (val out) = length (val ?k)"
      "\<forall>b<length (val ?k). val out ! b =
              map (\<lambda>j. sum_list (map (\<lambda>i. (if val ?k ! b ! i ! 0 \<noteq> 0 then val s ! b ! i else 0)
                                            * val ?k ! b ! i ! j) [0..<1])) [0..<1]"
    unfolding la by auto
  have "val out ! 0 = [?v]" using out(4) s1(3) by simp
  moreover from out(3) obtain o1 where "val out = [o1]" by (cases "val out") auto
  ultimately have "val out = [[?v]]" by simp
  with out(2) have "out = \<lparr>shape = [1], val = [[?v]]\<rparr>" by (cases out) simp
  with out(1) show ?thesis by simp
qed

lemma interference_builds:
  "\<exists>m. DIN interference_schema [''last_click''] [''history''] = Inr m"
  by (simp add: interference_schema_def din_eval trace_eval upt_rec)

lemma interference_input_layers:
  "build_input_layers interference_schema =
     [(''time'', Input 1 ''time''), (''user_id'', Input 1 ''user_id''),
      (''last_click'', Input 1 ''last_click''), (''history'', Input 1 ''history''),
      (''searches'', Input 2 ''searches'')]"
  by (simp add: interference_schema_def build_input_layers_def input_layers_step_def)

lemma interference_embedding_layers:
  "embedding_layers_of interference_schema =
     [(''user_id'', \<lparr>input_dim = 1, output_dim = 1, layer_name = ''emb_user_id'', mask_zero = False\<rparr>),
      (''last_click'', \<lparr>input_dim = 2, output_dim = 1, layer_name = ''emb_last_click'', mask_zero = True\<rparr>),
      (''history'', \<lparr>input_dim = 2, output_dim = 1, layer_name = ''emb_history'', mask_zero = True\<rparr>),
      (''searches'', \<lparr>input_dim = 2, output_dim = 1, layer_name = ''emb_searches'', mask_zero = True\<rparr>)]"
  by (simp add: interference_schema_def embedding_layers_of_def build_embedding_layers_def
        embedding_layers_step_def Embedding_init_def)

lemma Concatenate_three_value:
  assumes c: "Concatenate_axis1 [Some a, Some b, Some s] = Inr d"
    and v: "krun a e = Inr [ra]" "krun b e = Inr [rb]" "krun s e = Inr [rs]"
  shows "krun d e = Inr [ra @ rb @ rs]"
proof -
  from c have "krun d = (\<lambda>e. ebind (sequence_e (map (\<lambda>t. krun t e) [a, b, s])) concat_axis1)"
    by (auto simp: Concatenate_axis1_def Let_def split: if_splits)
  then show ?thesis using v by (simp add: concat_axis1_def)
qed

lemma interference_predict:
  assumes c: "0 \<le> c"
  shows "DIN_predict interference_schema [''last_click''] [''history''] (interference_env c)
           = Inr [[sigmoid (c / 4)]]"
proof -
  let ?fcs = interference_schema
  let ?e = "interference_env c"
  let ?eu = "\<lparr>input_dim = 1, output_dim = 1, layer_name = ''emb_user_id'', mask_zero = False\<rparr>"
  let ?eq = "\<lparr>input_dim = 2, output_dim = 1, layer_name = ''emb_last_click'', mask_zero = True\<rparr>"
  let ?eh = "\<lparr>input_dim = 2, output_dim = 1, layer_name = ''emb_history'', mask_zero = True\<rparr>"
  from interference_builds obtain m where m: "DIN ?fcs [''last_click''] [''history''] = Inr m" by blast
  have fd: "filter isinstance_DenseFeat ?fcs = [DenseFeat ''time'' 1]"
    and fs: "filter isinstance_SparseFeat ?fcs = [SparseFeat ''user_id'' 1 1]"
    by (simp_all add: interference_schema_def)
  have di: "dense_inputs ?fcs = [Input 1 ''time'']"
    unfolding dense_inputs_def fd interference_input_layers by simp
  have si: "sparse_inputs ?fcs = [Flatten_call (Embedding_call ?eu (Input 1 ''user_id''))]"
    unfolding sparse_inputs_def fs interference_input_layers interference_embedding_layers by simp
  have eq: "embed_of ?fcs ''last_click'' = Embedding_call ?eq (Input 1 ''last_click'')"
    unfolding embed_of_def interference_input_layers interference_embedding_layers by simp
  have ek: "embed_of ?fcs ''history'' = Embedding_call ?eh (Input 1 ''history'')"
    unfolding embed_of_def interference_input_layers interference_embedding_layers by simp
  from DIN_Inr[OF m] obtain dense_in sparse_in seqs seq_in dnn_input where r:
     "concat_input_list (dense_inputs ?fcs) = Inr dense_in"
     "concat_input_list (sparse_inputs ?fcs) = Inr sparse_in"
     "length seqs = length [''history'']"
     "\<forall>i<length [''history''].
        AttentionPoolingLayer_apply i (embed_of ?fcs ([''last_click''] ! i), embed_of ?fcs ([''history''] ! i))
          = Inr (seqs ! i)"
     "concat_input_list seqs = Inr seq_in"
     "Concatenate_axis1 [dense_in, sparse_in, seq_in] = Inr dnn_input"
     "m = \<lparr>model_inputs = dict_values (build_input_layers ?fcs),
          model_outputs = get_dnn_logits dnn_input [200, 80] ''prelu''\<rparr>"
    by blast
  have d1: "dense_in = Some (Input 1 ''time'')"
    using r(1) unfolding di by (simp add: concat_input_list_def)
  have s1: "sparse_in = Some (Flatten_call (Embedding_call ?eu (Input 1 ''user_id'')))"
    using r(2) unfolding si by (simp add: concat_input_list_def)
  obtain s0 where s0: "seqs = [s0]" using r(3) by (cases seqs) auto
  have a0: "AttentionPoolingLayer_apply 0 (Embedding_call ?eq (Input 1 ''last_click''),
              Embedding_call ?eh (Input 1 ''history'')) = Inr s0"
    using r(4) s0 eq ek by simp
  have sq: "seq_in = Some s0" using r(5) s0 by (simp add: concat_input_list_def)
  \<comment> \<open>the values in the environment\<close>
  have vt: "krun (Input 1 ''time'') ?e = Inr [[0]]"
    by (simp add: Input_def interference_env_def)
  have vu: "krun (Flatten_call (Embedding_call ?eu (Input 1 ''user_id''))) ?e = Inr [[0]]"
    by (simp add: Flatten_call_def Embedding_call_def Input_def interference_env_def
          embedding_row_def to_index_def)
  have vq: "krun (Embedding_call ?eq (Input 1 ''last_click'')) ?e = Inr [[[c]]]"
    by (simp add: Embedding_call_def Input_def interference_env_def embedding_row_def to_index_def)
  have vk: "krun (Embedding_call ?eh (Input 1 ''history'')) ?e = Inr [[[1]]]"
    by (simp add: Embedding_call_def Input_def interference_env_def embedding_row_def to_index_def)
  have ks: "kshape (Embedding_call ?eq (Input 1 ''last_click'')) = [1, 1]"
        "kshape (Embedding_call ?eh (Input 1 ''history'')) = [1, 1]"
    by (simp_all add: Embedding_call_def Input_def)
  from a0 obtain sh where
    sdef: "s0 = \<lparr>kshape = sh,
               krun = (\<lambda>e. ebind (krun (Embedding_call ?eq (Input 1 ''last_click'')) e) (\<lambda>qv.
                  ebind (krun (Embedding_call ?eh (Input 1 ''history'')) e) (\<lambda>kv.
                  ebind (AttentionPoolingLayer_call
                           (AttentionPoolingLayer_init default_hidden_units (att_params e 0))
                           (is_training e)
                           (\<lparr>shape = kshape (Embedding_call ?eq (Input 1 ''last_click'')), val = qv\<rparr>,
                            \<lparr>shape = kshape (Embedding_call ?eh (Input 1 ''history'')), val = kv\<rparr>))
                        (\<lambda>out. Inr (val out)))))\<rparr>"
    by (cases "AttentionPoolingLayer_call (AttentionPoolingLayer_init default_hidden_units blank_params)
                 False (\<lparr>shape = kshape (Embedding_call ?eq (Input 1 ''last_click'')), val = []\<rparr>,
                        \<lparr>shape = kshape (Embedding_call ?eh (Input 1 ''history'')), val = []\<rparr>)")
       (auto simp: AttentionPoolingLayer_apply_def)
  have pv: "AttentionPoolingLayer_call
              (AttentionPoolingLayer_init default_hidden_units (att_params ?e 0)) (is_training ?e)
              (\<lparr>shape = [1, 1], val = [[[c]]]\<rparr>, \<lparr>shape = [1, 1], val = [[[1]]]\<rparr>)
            = Inr \<lparr>shape = [1], val = [[3 * c / 4]]\<rparr>"
    by (rule interference_scores[OF _ _ _ _ c]) (simp_all add: interference_env_def)
  have vs: "krun s0 ?e = Inr [[3 * c / 4]]"
    by (simp only: sdef ktensor.select_convs vq vk ks pv ebind_Inr tensor.select_convs)
  have vd: "krun dnn_input ?e = Inr [[0] @ [0] @ [3 * c / 4]]"
    by (rule Concatenate_three_value[OF r(6)[unfolded d1 s1 sq] vt vu vs])
  \<comment> \<open>the scorer\<close>
  let ?D1 = "Dense_init 200 (PReLU (replicate 200 0)) (uniform_params 3 200 (replicate 200 0))"
  let ?D2 = "Dense_init 80 (PReLU (replicate 80 0)) (uniform_params 200 80 (replicate 80 0))"
  let ?D3 = "Dense_init 1 Sigmoid (uniform_params 80 1 (replicate 1 0))"
  have pp: "p_prelu (uniform_params n u al) = al" for n u and al :: "real list"
    by (simp add: uniform_params_def)
  have dnns: "map (\<lambda>i. Dense_init ([200, 80] ! i)
                               (if ''prelu'' = ''prelu'' then PReLU (p_prelu (dnn_params ?e i))
                                else DiceAct (p_dice (dnn_params ?e i)))
                               (dnn_params ?e i)) [0..<length [200, 80 :: nat]] = [?D1, ?D2]"
    by (simp add: upt_rec interference_env_def pp)
  have d3: "Dense_init 1 Sigmoid (dnn_params ?e (length [200, 80 :: nat])) = ?D3"
    by (simp add: interference_env_def)
  let ?x0 = "\<lparr>shape = kshape dnn_input, val = [[0] @ [0] @ [3 * c / 4]]\<rparr>"
  let ?x1 = "\<lparr>shape = butlast (kshape dnn_input) @ [200], val = [replicate 200 (c / 4)]\<rparr>"
  let ?x2 = "\<lparr>shape = butlast (butlast (kshape dnn_input) @ [200]) @ [80],
              val = [replicate 80 (c / 4)]\<rparr>"
  have l1: "Dense_call2 ?D1 False ?x0 = Inr ?x1"
    using uniform_dense2[of ?x0 "[0, 0, 3 * c / 4]" 3 200 "replicate 200 0" "replicate 200 0" False] c
    by simp
  have l2: "Dense_call2 ?D2 False ?x1 = Inr ?x2"
    using uniform_dense2[of ?x1 "replicate 200 (c / 4)" 200 80 "replicate 80 0" "replicate 80 0" False] c
    by (simp add: sum_list_replicate)
  have dr: "dense_row ?D3 (replicate 80 (c / 4)) = [c / 4]"
    using dense_row_uniform[of "replicate 80 (c / 4)" 80 1 Sigmoid "replicate 1 0"]
    by (simp add: sum_list_replicate)
  have au: "activation ?D3 = Sigmoid" "units ?D3 = 1" by (simp_all add: Dense_init_def)
  have l3: "Dense_call2 ?D3 False ?x2
              = Inr \<lparr>shape = butlast (butlast (butlast (kshape dnn_input) @ [200]) @ [80]) @ [1],
                     val = [[sigmoid (c / 4)]]\<rparr>"
    unfolding Dense_call2_def au by (simp only: tensor.select_convs list.map dr activation2.simps ebind_Inr)
  have f12: "fold_e (\<lambda>dnn' dnn_out. Dense_call2 dnn' False dnn_out) [?D1, ?D2] ?x0 = Inr ?x2"
    by (simp only: fold_e.simps l1 l2 ebind_Inr)
  have tr: "is_training ?e = False" by (simp add: interference_env_def)
  have out: "krun (get_dnn_logits dnn_input [200, 80] ''prelu'') ?e = Inr [[sigmoid (c / 4)]]"
    unfolding get_dnn_logits_def ktensor.select_convs Let_def dnns d3 tr vd
    by (simp only: ebind_Inr f12 l3 tensor.select_convs)
  have inputs: "\<exists>fed. sequence_e (map (\<lambda>t. krun t ?e) (model_inputs m)) = Inr fed"
    unfolding r(7) interference_input_layers
    by (simp add: dict_values_def Input_def interference_env_def)
  then have "Model_call m ?e = Inr [[sigmoid (c / 4)]]"
    using out by (auto simp: Model_call_def r(7))
  then show ?thesis by (simp add: DIN_predict_def m)
qed

lemma sigmoid_inj: "sigmoid a = sigmoid b \<Longrightarrow> a = b"
proof -
  assume "sigmoid a = sigmoid b"
  then have "1 / (1 + exp (- a)) = 1 / (1 + exp (- b))" by (simp add: sigmoid_def)
  moreover have "1 + exp (- a) \<noteq> 0" "1 + exp (- b) \<noteq> 0"
    by (simp_all add: add_pos_pos less_imp_neq[THEN not_sym])
  ultimately have "1 + exp (- a) = 1 + exp (- b)" by (simp add: field_simps)
  then show "a = b" by simp
qed

subsection \<open>Sequence features in the assembly\<close>

text \<open>
  C10, as stated, fails in its clause that a sequence feature's embeddings reach the head
  only if its name is in \<open>behavior_seq_feature_list\<close>. The names of
  \<open>behavior_feature_list\<close> are looked up without regard to the descriptor's variant: the
  sequence feature \<open>last_click\<close>, listed there and not in \<open>behavior_seq_feature_list\<close>, is the
  query of the attention, and replacing its embedding table changes the model's output.
\<close>

theorem sequence_feature_as_candidate_interferes:
  "VarLenSparseFeat ''last_click'' 1 1 1 \<in> set interference_schema \<and>
   ''last_click'' \<notin> set [''history''] \<and>
   interference_env 2
     = (interference_env 1)\<lparr>embeddings := (embeddings (interference_env 1))(''emb_last_click'' := [[2], [2]])\<rparr> \<and>
   DIN_predict interference_schema [''last_click''] [''history''] (interference_env 1)
     = Inr [[sigmoid (1 / 4)]] \<and>
   DIN_predict interference_schema [''last_click''] [''history''] (interference_env 2)
     = Inr [[sigmoid (1 / 2)]] \<and>
   sigmoid (1 / 4) \<noteq> sigmoid (1 / 2)"
proof (intro conjI)
  show "VarLenSparseFeat ''last_click'' 1 1 1 \<in> set interference_schema"
    by (simp add: interference_schema_def)
  show "''last_click'' \<notin> set [''history'']" by simp
  show "interference_env 2
     = (interference_env 1)\<lparr>embeddings := (embeddings (interference_env 1))(''emb_last_click'' := [[2], [2]])\<rparr>"
    by (simp add: interference_env_def fun_eq_iff)
  show "DIN_predict interference_schema [''last_click''] [''history''] (interference_env 1)
     = Inr [[sigmoid (1 / 4)]]"
    using interference_predict[of 1] by simp
  show "DIN_predict interference_schema [''last_click''] [''history''] (interference_env 2)
     = Inr [[sigmoid (1 / 2)]]"
    using interference_predict[of 2] by simp
  show "sigmoid (1 / 4) \<noteq> sigmoid (1 / 2)"
    using sigmoid_inj[of "1 / 4" "1 / 2"] by auto
qed

text \<open>
  C10, amended. In a schema with unique names, only Sparse descriptors are flattened into
  the sparse branch, and the head's input is the concatenation of the dense branch, that
  sparse branch and the attention-pooled pairs of the two behaviour lists. A VarLenSparse
  feature named in neither \<open>behavior_seq_feature_list\<close> nor \<open>behavior_feature_list\<close>
  contributes nothing: the model's output is the same whatever its embedding table holds
  and whatever is fed under its name.
\<close>

theorem unlisted_sequence_feature_contributes_nothing:
  assumes "distinct (map name fcs)" "DIN fcs bfl bsfl = Inr m"
    and "fc \<in> set fcs" "isinstance_VarLenSparseFeat fc"
    and "name fc \<notin> set bfl" "name fc \<notin> set bsfl"
  shows "(\<forall>x\<in>set (filter isinstance_SparseFeat fcs). \<not> isinstance_VarLenSparseFeat x) \<and>
    (\<exists>dense_in sparse_in seqs seq_in dnn_input.
       concat_input_list (dense_inputs fcs) = Inr dense_in \<and>
       concat_input_list (sparse_inputs fcs) = Inr sparse_in \<and>
       length seqs = length bsfl \<and>
       (\<forall>i<length bsfl.
          AttentionPoolingLayer_apply i (embed_of fcs (bfl ! i), embed_of fcs (bsfl ! i)) = Inr (seqs ! i)) \<and>
       concat_input_list seqs = Inr seq_in \<and>
       Concatenate_axis1 [dense_in, sparse_in, seq_in] = Inr dnn_input \<and>
       model_outputs m = get_dnn_logits dnn_input [200, 80] ''prelu'') \<and>
    (\<forall>e e'. env_agree (UNIV - {name fc}) e e' \<longrightarrow> krun (model_outputs m) e = krun (model_outputs m) e') \<and>
    (\<forall>e T. Model_call m (e\<lparr>embeddings := (embeddings e)(''emb_'' @ name fc := T)\<rparr>) = Model_call m e)"
proof (intro conjI)
  show "\<forall>x\<in>set (filter isinstance_SparseFeat fcs). \<not> isinstance_VarLenSparseFeat x"
  proof
    fix x assume "x \<in> set (filter isinstance_SparseFeat fcs)"
    then have "isinstance_SparseFeat x" by simp
    then show "\<not> isinstance_VarLenSparseFeat x" by (cases x) auto
  qed
next
  from DIN_Inr[OF assms(2)]
  show "\<exists>dense_in sparse_in seqs seq_in dnn_input.
       concat_input_list (dense_inputs fcs) = Inr dense_in \<and>
       concat_input_list (sparse_inputs fcs) = Inr sparse_in \<and>
       length seqs = length bsfl \<and>
       (\<forall>i<length bsfl.
          AttentionPoolingLayer_apply i (embed_of fcs (bfl ! i), embed_of fcs (bsfl ! i)) = Inr (seqs ! i)) \<and>
       concat_input_list seqs = Inr seq_in \<and>
       Concatenate_axis1 [dense_in, sparse_in, seq_in] = Inr dnn_input \<and>
       model_outputs m = get_dnn_logits dnn_input [200, 80] ''prelu''"
    by fastforce
next
  have other: "name fc \<notin> name ` {x \<in> set fcs. \<not> isinstance_VarLenSparseFeat x}"
  proof
    assume "name fc \<in> name ` {x \<in> set fcs. \<not> isinstance_VarLenSparseFeat x}"
    then obtain x where x: "x \<in> set fcs" "\<not> isinstance_VarLenSparseFeat x" "name x = name fc" by auto
    from assms(1) x(1,3) assms(3) have "x = fc" by (meson distinct_map inj_onD)
    with x(2) assms(4) show False by simp
  qed
  have sub: "name ` {x \<in> set fcs. \<not> isinstance_VarLenSparseFeat x} \<union> set bfl \<union> set bsfl
                    \<subseteq> UNIV - {name fc}"
  proof
    fix k assume k: "k \<in> name ` {x \<in> set fcs. \<not> isinstance_VarLenSparseFeat x} \<union> set bfl \<union> set bsfl"
    have "k \<noteq> name fc"
    proof
      assume "k = name fc"
      then show False using k other assms(5,6) by blast
    qed
    then show "k \<in> UNIV - {name fc}" by simp
  qed
  have rd: "reads (UNIV - {name fc}) (model_outputs m)"
    by (rule DIN_reads[OF assms(2) sub])
  then show out: "\<forall>e e'. env_agree (UNIV - {name fc}) e e' \<longrightarrow>
                     krun (model_outputs m) e = krun (model_outputs m) e'"
    by (simp add: reads_def)
  show "\<forall>e T. Model_call m (e\<lparr>embeddings := (embeddings e)(''emb_'' @ name fc := T)\<rparr>) = Model_call m e"
  proof (intro allI)
    fix e :: env and T
    let ?e' = "e\<lparr>embeddings := (embeddings e)(''emb_'' @ name fc := T)\<rparr>"
    have "env_agree (UNIV - {name fc}) ?e' e" by (simp add: env_agree_def)
    then have o: "krun (model_outputs m) ?e' = krun (model_outputs m) e" using out by blast
    from DIN_Inr[OF assms(2)] have mi: "model_inputs m = dict_values (build_input_layers fcs)"
      by fastforce
    have "map (\<lambda>t. krun t ?e') (model_inputs m) = map (\<lambda>t. krun t e) (model_inputs m)"
    proof (rule map_cong[OF refl])
      fix t assume "t \<in> set (model_inputs m)"
      then obtain n k where "t = Input n k" using model_inputs_are_inputs[of fcs] mi by auto
      then show "krun t ?e' = krun t e" by (simp add: Input_ignores_embeddings)
    qed
    then have "sequence_e (map (\<lambda>t. krun t ?e') (model_inputs m))
                 = sequence_e (map (\<lambda>t. krun t e) (model_inputs m))"
      by (simp only:)
    then show "Model_call m ?e' = Model_call m e"
      unfolding Model_call_def o by (simp only:)
  qed
qed

theorem unlisted_sequence_feature_contributes_nothing_witness:
  "\<exists>m. DIN interference_schema [''last_click''] [''history''] = Inr m \<and>
       (\<forall>e T. Model_call m (e\<lparr>embeddings := (embeddings e)(''emb_searches'' := T)\<rparr>) = Model_call m e)"
proof -
  from interference_builds obtain m where
    m: "DIN interference_schema [''last_click''] [''history''] = Inr m" by blast
  have d: "distinct (map name interference_schema)" by (simp add: interference_schema_def)
  have f: "VarLenSparseFeat ''searches'' 1 1 2 \<in> set interference_schema"
    "isinstance_VarLenSparseFeat (VarLenSparseFeat ''searches'' 1 1 2)"
    "name (VarLenSparseFeat ''searches'' 1 1 2) \<notin> set [''last_click'']"
    "name (VarLenSparseFeat ''searches'' 1 1 2) \<notin> set [''history'']"
    by (simp_all add: interference_schema_def)
  from unlisted_sequence_feature_contributes_nothing[OF d m f]
  have "\<forall>e T. Model_call m (e\<lparr>embeddings :=
           (embeddings e)(''emb_'' @ name (VarLenSparseFeat ''searches'' 1 1 2) := T)\<rparr>) = Model_call m e"
    by (elim conjE)
  then have "\<forall>e T. Model_call m (e\<lparr>embeddings := (embeddings e)(''emb_searches'' := T)\<rparr>) = Model_call m e"
    by simp
  with m show ?thesis by blast
qed

end
